theory Spec2Isabelle
  imports Complex_Main "HOL-Library.Sublist"
begin

chapter \<open>The model\<close>

section \<open>Python strings\<close>

text \<open>
  A Python \<open>str\<close> is a sequence of Unicode code points, so it is modelled as a list of
  natural numbers: the bullet \<open>U+2022\<close>, which the search-response parser looks for, has
  no place in an 8-bit character type.  Literals of the source are written
  \<open>str ''...''\<close>.
\<close>

type_synonym pystr = "nat list"

definition str :: "string \<Rightarrow> pystr" where
  "str s = map of_char s"

text \<open>
  \<open>str.isspace\<close> for one code point: the Unicode white space that \<open>strip\<close> removes
  and that \<open>\s\<close> matches in a \<open>str\<close> pattern.
\<close>

definition py_isspace :: "nat \<Rightarrow> bool" where
  "py_isspace c \<longleftrightarrow>
     (9 \<le> c \<and> c \<le> 13) \<or> (28 \<le> c \<and> c \<le> 32) \<or> c = 133 \<or> c = 160 \<or> c = 5760 \<or>
     (8192 \<le> c \<and> c \<le> 8202) \<or> c = 8232 \<or> c = 8233 \<or> c = 8239 \<or> c = 8287 \<or> c = 12288"

text \<open>
  \<open>str.lower\<close>.  The case mapping is written out for Basic Latin and the Latin-1
  Supplement, and for the five code points above \<open>U+00FF\<close> whose lower case has a code
  point below \<open>U+0100\<close>: \<open>U+0130\<close> (to \<open>i\<close> and the combining dot \<open>U+0307\<close>),
  \<open>U+0178\<close>, \<open>U+1E9E\<close>, the Kelvin sign \<open>U+212A\<close> (to \<open>k\<close>) and the Angstrom sign
  \<open>U+212B\<close>.  The other code points above \<open>U+00FF\<close> are left as they are: their lower
  case is one code point above \<open>U+00FF\<close>, so they match no keyword of the program
  either way.
\<close>

definition lower_cp :: "nat \<Rightarrow> nat" where
  "lower_cp c =
     (if 65 \<le> c \<and> c \<le> 90 then c + 32
      else if 192 \<le> c \<and> c \<le> 222 \<and> c \<noteq> 215 then c + 32
      else if c = 376 then 255
      else if c = 7838 then 223
      else if c = 8490 then 107
      else if c = 8491 then 229
      else c)"

definition lower_cps :: "nat \<Rightarrow> pystr" where
  "lower_cps c = (if c = 304 then [105, 775] else [lower_cp c])"

definition lower :: "pystr \<Rightarrow> pystr" where
  "lower s = concat (map lower_cps s)"

definition startswith :: "pystr \<Rightarrow> pystr \<Rightarrow> bool" where
  "startswith s p \<longleftrightarrow> take (length p) s = p"

text \<open>\<open>sub in s\<close> on strings: \<open>sub\<close> occurs in \<open>s\<close> at some position.\<close>

fun py_in :: "pystr \<Rightarrow> pystr \<Rightarrow> bool" where
  "py_in sub [] \<longleftrightarrow> sub = []"
| "py_in sub (c # cs) \<longleftrightarrow> startswith (c # cs) sub \<or> py_in sub cs"

definition lstrip :: "pystr \<Rightarrow> pystr" where
  "lstrip s = dropWhile py_isspace s"

definition rstrip :: "pystr \<Rightarrow> pystr" where
  "rstrip s = rev (dropWhile py_isspace (rev s))"

definition strip :: "pystr \<Rightarrow> pystr" where
  "strip s = rstrip (lstrip s)"

text \<open>\<open>s.lstrip(chars)\<close>: leading code points that occur in \<open>chars\<close> are dropped.\<close>

definition lstrip_chars :: "pystr \<Rightarrow> pystr \<Rightarrow> pystr" where
  "lstrip_chars chars s = dropWhile (\<lambda>c. c \<in> set chars) s"

text \<open>\<open>s.split(' ')[0]\<close>: the part of \<open>s\<close> before its first space (all of it when it has none).\<close>

definition split_space_first :: "pystr \<Rightarrow> pystr" where
  "split_space_first s = takeWhile (\<lambda>c. c \<noteq> 32) s"

text \<open>
  \<open>str.splitlines\<close>: lines end at \<open>\n\<close>, \<open>\r\<close>, \<open>\r\n\<close>, \<open>\v\<close>, \<open>\f\<close>, \<open>\x1c\<close>,
  \<open>\x1d\<close>, \<open>\x1e\<close>, \<open>\x85\<close>, \<open>U+2028\<close> and \<open>U+2029\<close>; the line ends are not kept and
  a final line end opens no further line.
\<close>

definition is_linebreak :: "nat \<Rightarrow> bool" where
  "is_linebreak c \<longleftrightarrow> (10 \<le> c \<and> c \<le> 13) \<or> (28 \<le> c \<and> c \<le> 30) \<or> c = 133 \<or> c = 8232 \<or> c = 8233"

fun splitlines_from :: "pystr \<Rightarrow> pystr \<Rightarrow> pystr list" where
  "splitlines_from cur [] = (if cur = [] then [] else [cur])"
| "splitlines_from cur (c # cs) =
     (if c = 13 then
        (case cs of
           [] \<Rightarrow> [cur]
         | d # ds \<Rightarrow> if d = 10 then cur # splitlines_from [] ds else cur # splitlines_from [] cs)
      else if is_linebreak c then cur # splitlines_from [] cs
      else splitlines_from (cur @ [c]) cs)"

definition splitlines :: "pystr \<Rightarrow> pystr list" where
  "splitlines s = splitlines_from [] s"

text \<open>\<open>s.split('\n')\<close>: always at least one piece.\<close>

fun split_nl_from :: "pystr \<Rightarrow> pystr \<Rightarrow> pystr list" where
  "split_nl_from cur [] = [cur]"
| "split_nl_from cur (c # cs) =
     (if c = 10 then cur # split_nl_from [] cs else split_nl_from (cur @ [c]) cs)"

definition split_nl :: "pystr \<Rightarrow> pystr list" where
  "split_nl s = split_nl_from [] s"

text \<open>\<open>sep.join(parts)\<close>.\<close>

fun join :: "pystr \<Rightarrow> pystr list \<Rightarrow> pystr" where
  "join sep [] = []"
| "join sep [x] = x"
| "join sep (x # y # ys) = x @ sep @ join sep (y # ys)"

section \<open>Python values\<close>

text \<open>
  The values that the pipeline's dictionaries and table cells hold: \<open>None\<close>, the float
  \<open>NaN\<close> that pandas writes into a missing cell, integers, finite floats (binary64
  values, as rationals), strings, lists and dictionaries (in insertion order).
\<close>

datatype pyval =
    PNone
  | PNaN
  | PInt int
  | PFloat rat
  | PStr pystr
  | PList "pyval list"
  | PDict "(pystr \<times> pyval) list"

text \<open>Truth value of a Python object, as \<open>if x\<close>, \<open>x or y\<close> and \<open>not x\<close> test it.\<close>

fun truthy :: "pyval \<Rightarrow> bool" where
  "truthy PNone = False"
| "truthy PNaN = True"
| "truthy (PInt i) = (i \<noteq> 0)"
| "truthy (PFloat f) = (f \<noteq> 0)"
| "truthy (PStr s) = (s \<noteq> [])"
| "truthy (PList xs) = (xs \<noteq> [])"
| "truthy (PDict kvs) = (kvs \<noteq> [])"

text \<open>\<open>d.get(key, default)\<close> on a dictionary.\<close>

definition dict_get :: "(pystr \<times> pyval) list \<Rightarrow> pystr \<Rightarrow> pyval \<Rightarrow> pyval" where
  "dict_get d key dflt = (case map_of d key of Some v \<Rightarrow> v | None \<Rightarrow> dflt)"

text \<open>
  Exceptions of the Python code, as values.  A \<open>TypeError\<close> and an \<open>AttributeError\<close>
  carry the object that the failed operation was applied to; \<open>ServiceError\<close> is whatever
  an external service (the LLM endpoint, the browser) raises.
\<close>

datatype exn =
    TypeError pyval
  | AttributeError pyval
  | KeyError
  | JSONDecodeError
  | HTTPException nat pystr
  | ServiceError pystr

section \<open>Task executor (\<open>agents/task_executor.py\<close>)\<close>

subsection \<open>Search results and their deduplication\<close>

text \<open>\<open>class SearchResult(BaseModel)\<close>.\<close>

record SearchResult =
  title :: pystr
  url :: pystr
  snippet :: pystr
  source :: pystr
  relevance_score :: rat

text \<open>
  \<open>_deduplicate_results\<close>: the loop over \<open>results\<close> with its two variables
  \<open>seen_urls\<close> and \<open>unique_results\<close>.  A \<open>url\<close> is a \<open>str\<close> (the pydantic model
  validates it), so \<open>result.url\<close> is falsy exactly when it is the empty string.
\<close>

fun dedup_loop :: "SearchResult list \<Rightarrow> pystr set \<Rightarrow> SearchResult list \<Rightarrow> SearchResult list" where
  "dedup_loop [] seen_urls unique_results = unique_results"
| "dedup_loop (result # results) seen_urls unique_results =
     (if url result \<noteq> [] \<and> url result \<notin> seen_urls
      then dedup_loop results (insert (url result) seen_urls) (unique_results @ [result])
      else if url result = []
      then dedup_loop results seen_urls (unique_results @ [result])
      else dedup_loop results seen_urls unique_results)"

definition deduplicate_results :: "SearchResult list \<Rightarrow> SearchResult list" where
  "deduplicate_results results = dedup_loop results {} []"

subsection \<open>Intent classification\<close>

text \<open>\<open>_analyze_task_type\<close>: four \<open>any(word in input_lower for word in [...])\<close> tests in turn.\<close>

definition fact_keywords :: "pystr list" where
  "fact_keywords = map str
     [''average'', ''avg'', ''salary'', ''salaries'', ''what is'', ''who is'', ''define'',
      ''definition'', ''statistics'', ''stats'', ''market size'', ''trend'', ''trends'',
      ''overview'', ''comparison'', ''vs'', ''benefits'', ''cons'', ''pros'', ''how much'',
      ''how many'', ''price'', ''cost'']"

definition analyze_task_type :: "pystr \<Rightarrow> pystr" where
  "analyze_task_type user_input =
     (let input_lower = lower user_input in
      if list_ex (\<lambda>word. py_in word input_lower)
           (map str [''linkedin'', ''profile'', ''professional profile'', ''resume'', ''cv''])
      then str ''linkedin_search''
      else if list_ex (\<lambda>k. py_in k input_lower) fact_keywords
      then str ''web_only''
      else if list_ex (\<lambda>word. py_in word input_lower)
           (map str [''scrape'', ''extract'', ''data from'', ''crawl''])
      then str ''data_scraping''
      else if list_ex (\<lambda>word. py_in word input_lower)
           (map str [''search'', ''find'', ''look for''])
      then str ''web_search''
      else str ''web_only'')"

subsection \<open>Rate limiting\<close>

text \<open>
  The agent's two rate-limiting fields, and the wall clock that \<open>time.time()\<close> reads.
  Time is a real number of seconds.
\<close>

record rate_state =
  last_api_call :: real
  rate_limit_delay :: real
  clock :: real

text \<open>The values \<open>__init__\<close> gives the two fields, at a clock reading \<open>t\<close>.\<close>

definition init_rate_state :: "real \<Rightarrow> rate_state" where
  "init_rate_state t = \<lparr>last_api_call = 0, rate_limit_delay = 3, clock = t\<rparr>"

text \<open>
  \<open>_rate_limit\<close>.  The clock is read twice, on entry and for the final assignment to
  \<open>last_api_call\<close>; \<open>elapsed\<close> is the time that passes between the two readings apart
  from the time asked of \<open>asyncio.sleep\<close>.  The result is the time asked of
  \<open>asyncio.sleep\<close> (\<open>None\<close> when it is not called) and the new state.
\<close>

definition rate_limit :: "real \<Rightarrow> rate_state \<Rightarrow> real option \<times> rate_state" where
  "rate_limit elapsed s =
     (let current_time = clock s;
          time_since_last_call = current_time - last_api_call s
      in if time_since_last_call < rate_limit_delay s
         then (let sleep_time = rate_limit_delay s - time_since_last_call;
                   now = clock s + sleep_time + elapsed
               in (Some sleep_time, s\<lparr>clock := now, last_api_call := now\<rparr>))
         else (let now = clock s + elapsed
               in (None, s\<lparr>clock := now, last_api_call := now\<rparr>)))"

subsection \<open>Regular expressions\<close>

text \<open>
  The patterns of the module are sequences of single-character classes, each with a
  quantifier, and the anchor \<open>$\<close>.  \<open>rmatch\<close> is the backtracking matcher of \<open>re\<close> on
  such a sequence: a greedy quantifier tries the longest repetition first, a lazy one the
  shortest, and the first alternative that lets the rest of the pattern match is taken.
  It returns the input left after the match.  Under \<open>re.IGNORECASE\<close> a Basic Latin
  letter of a pattern matches its two cases; \<open>s\<close> also matches the long s \<open>U+017F\<close>,
  and \<open>k\<close> the Kelvin sign.  The patterns used with this flag have no \<open>i\<close>.
\<close>

datatype cclass =
    Lit nat
  | Space
  | NotSpace
  | AnyChar
  | Dot

datatype quant = One | Opt | Star | Plus | LazyStar

datatype item = Item cclass quant | EndAnchor

fun cmatch :: "bool \<Rightarrow> cclass \<Rightarrow> nat \<Rightarrow> bool" where
  "cmatch ignorecase (Lit c) x =
     (if ignorecase then lower_cp x = lower_cp c \<or> (x = 383 \<and> lower_cp c = 115) else x = c)"
| "cmatch ignorecase Space x = py_isspace x"
| "cmatch ignorecase NotSpace x = (\<not> py_isspace x)"
| "cmatch ignorecase AnyChar x = True"
| "cmatch ignorecase Dot x = (x \<noteq> 10)"

fun rmatch :: "bool \<Rightarrow> item list \<Rightarrow> pystr \<Rightarrow> pystr option" where
  "rmatch ic [] s = Some s"
| "rmatch ic (EndAnchor # items) s = (if s = [] \<or> s = [10] then rmatch ic items s else None)"
| "rmatch ic (Item c One # items) [] = None"
| "rmatch ic (Item c One # items) (x # xs) = (if cmatch ic c x then rmatch ic items xs else None)"
| "rmatch ic (Item c Opt # items) [] = rmatch ic items []"
| "rmatch ic (Item c Opt # items) (x # xs) =
     (if cmatch ic c x
      then (case rmatch ic items xs of Some r \<Rightarrow> Some r | None \<Rightarrow> rmatch ic items (x # xs))
      else rmatch ic items (x # xs))"
| "rmatch ic (Item c Star # items) [] = rmatch ic items []"
| "rmatch ic (Item c Star # items) (x # xs) =
     (if cmatch ic c x
      then (case rmatch ic (Item c Star # items) xs of
              Some r \<Rightarrow> Some r
            | None \<Rightarrow> rmatch ic items (x # xs))
      else rmatch ic items (x # xs))"
| "rmatch ic (Item c Plus # items) [] = None"
| "rmatch ic (Item c Plus # items) (x # xs) =
     (if cmatch ic c x then rmatch ic (Item c Star # items) xs else None)"
| "rmatch ic (Item c LazyStar # items) [] = rmatch ic items []"
| "rmatch ic (Item c LazyStar # items) (x # xs) =
     (case rmatch ic items (x # xs) of
        Some r \<Rightarrow> Some r
      | None \<Rightarrow> if cmatch ic c x then rmatch ic (Item c LazyStar # items) xs else None)"

text \<open>
  \<open>re.search(pattern, s)\<close>: the match at the leftmost position that has one;
  the result is \<open>m.group(0)\<close>, the text matched.
\<close>

fun re_search :: "bool \<Rightarrow> item list \<Rightarrow> pystr \<Rightarrow> pystr option" where
  "re_search ic items [] = (case rmatch ic items [] of Some r \<Rightarrow> Some [] | None \<Rightarrow> None)"
| "re_search ic items (x # xs) =
     (case rmatch ic items (x # xs) of
        Some r \<Rightarrow> Some (take (length (x # xs) - length r) (x # xs))
      | None \<Rightarrow> re_search ic items xs)"

text \<open>
  \<open>re.findall(pattern, s)\<close> for a pattern without groups: the matches from left to
  right, the search going on where a match ended (one code point further after an empty
  match).
\<close>

function re_findall :: "bool \<Rightarrow> item list \<Rightarrow> pystr \<Rightarrow> pystr list" where
  "re_findall ic items [] = (case rmatch ic items [] of Some r \<Rightarrow> [[]] | None \<Rightarrow> [])"
| "re_findall ic items (x # xs) =
     (case rmatch ic items (x # xs) of
        None \<Rightarrow> re_findall ic items xs
      | Some r \<Rightarrow>
          if length r < length (x # xs)
          then take (length (x # xs) - length r) (x # xs) # re_findall ic items r
          else [] # re_findall ic items xs)"
  by pat_completeness auto
termination
  by (relation "measure (\<lambda>(ic, items, s). length s)") auto

text \<open>A literal string as a pattern.\<close>

definition lits :: "pystr \<Rightarrow> item list" where
  "lits s = map (\<lambda>c. Item (Lit c) One) s"

subsection \<open>Scraped records\<close>

text \<open>\<open>class ScrapedData(BaseModel)\<close>.\<close>

record ScrapedData =
  profile_url :: pystr
  name :: pystr
  headline :: pystr
  location :: pystr
  summary :: pystr
  experience :: "(pystr \<times> pyval) list list"
  skills :: "pystr list"
  education :: "(pystr \<times> pyval) list list"
  contact_info :: "(pystr \<times> pyval) list"
  scraped_at :: pystr
  source :: pystr

subsection \<open>The components of the pipeline and the external services\<close>

text \<open>
  The components that the specification lists, and the LLM call that summarises a URL
  (\<open>_enrich_url_with_llm\<close>), which it does not list.  A log of components records the
  order in which they are called; it is an observation of the run, not a field of a class.
\<close>

datatype component =
    IntentClassifier
  | QueryGenerator
  | WebSearchExecutor
  | LinkedInScraper
  | UrlEnricher
  | DataAssembler
  | StatisticsSummarizer
  | AIAnalysisWriter
  | TemplateRenderer
  | FilePersistence

text \<open>
  What lies outside the repository's own logic is an argument of the model.  Each service
  is a function of the number of components called so far, so that two calls with the same
  arguments may answer differently.
  \<^item> \<open>generate_search_queries\<close>: the list that \<open>_generate_search_queries(user_input,
    search_type)\<close> returns (LLM call, JSON parsing and fallback; it raises nothing).
  \<^item> \<open>execute_web_search_with_retry\<close>: the results that
    \<open>_execute_web_search_with_retry(query, max_results)\<close> returns and the
    \<open>last_search_context\<close> it leaves (it raises nothing).
  \<^item> \<open>scrape_profile\<close>: the record that the body of the scraping loop appends for a
    LinkedIn URL (\<open>scraper.scrape_profile\<close> and the construction of \<open>ScrapedData\<close>);
    \<open>None\<close> when the scraper returns nothing or the body raises.
  \<^item> \<open>enrich_url\<close>: the record that the body of the loop of \<open>_scrape_other_websites\<close>
    appends for a URL (\<open>_enrich_url_with_llm\<close> and the construction of \<open>ScrapedData\<close>);
    \<open>None\<close> when the body raises.
  \<^item> \<open>timestamp\<close>: \<open>time.strftime('%Y-%m-%d %H:%M:%S')\<close>.
\<close>

record services =
  generate_search_queries :: "nat \<Rightarrow> pystr \<Rightarrow> pystr \<Rightarrow> pystr list"
  execute_web_search_with_retry ::
    "nat \<Rightarrow> pystr \<Rightarrow> int \<Rightarrow> (pystr \<times> pyval) list \<Rightarrow> SearchResult list \<times> (pystr \<times> pyval) list"
  scrape_profile :: "nat \<Rightarrow> pystr \<Rightarrow> ScrapedData option"
  enrich_url :: "nat \<Rightarrow> pystr \<Rightarrow> ScrapedData option"
  timestamp :: "nat \<Rightarrow> pystr"

subsection \<open>The agent and its task execution\<close>

text \<open>
  The fields of \<open>TaskExecutorAgent\<close> that task execution reads and writes, and the log of
  component calls.
\<close>

record TaskExecutorAgent =
  search_results :: "SearchResult list"
  scraped_data :: "ScrapedData list"
  last_search_context :: "(pystr \<times> pyval) list"
  calls :: "component list"

definition init_executor :: TaskExecutorAgent where
  "init_executor =
     \<lparr>search_results = [], scraped_data = [],
      last_search_context =
        [(str ''answer'', PStr []), (str ''sources'', PList []), (str ''linkedin_profiles'', PList [])],
      calls = []\<rparr>"

definition called :: "component \<Rightarrow> TaskExecutorAgent \<Rightarrow> TaskExecutorAgent" where
  "called c agent = agent\<lparr>calls := calls agent @ [c]\<rparr>"

text \<open>\<open>xs[:n]\<close> for an integer \<open>n\<close>: a negative \<open>n\<close> counts from the end.\<close>

definition py_take :: "int \<Rightarrow> 'a list \<Rightarrow> 'a list" where
  "py_take n xs = (if 0 \<le> n then take (nat n) xs else take (length xs - nat (- n)) xs)"

definition is_linkedin_url :: "pystr \<Rightarrow> bool" where
  "is_linkedin_url u \<longleftrightarrow> py_in (str ''linkedin.com/in/'') u"

definition create_fallback_search_results :: "pystr \<Rightarrow> SearchResult list" where
  "create_fallback_search_results query =
     [\<lparr>title = str ''Search result for: '' @ query, url = [],
       snippet = str ''Search result for '' @ query, source = str ''search'',
       relevance_score = 3 / 10\<rparr>]"

text \<open>
  \<open>_perform_web_search\<close>: the loop over the queries.  \<open>n\<close> is \<open>len(search_queries)\<close>.
  A query without results gets the fallback result, so the response of every query is
  saved.  Nothing in the \<open>try\<close> block raises, since the callees catch their exceptions.
\<close>

fun web_search_loop ::
  "services \<Rightarrow> int \<Rightarrow> int \<Rightarrow> pystr list \<Rightarrow> SearchResult list \<Rightarrow> TaskExecutorAgent
     \<Rightarrow> SearchResult list \<times> TaskExecutorAgent" where
  "web_search_loop sv max_results n [] all_results agent = (all_results, agent)"
| "web_search_loop sv max_results n (query # queries) all_results agent =
     (let (found, ctx) =
            execute_web_search_with_retry sv (length (calls agent)) query (max_results div n)
              (last_search_context agent);
          agent = called WebSearchExecutor (agent\<lparr>last_search_context := ctx\<rparr>);
          query_results = (if found = [] then create_fallback_search_results query else found);
          agent = (if query_results \<noteq> [] then called FilePersistence agent else agent)
      in web_search_loop sv max_results n queries (all_results @ query_results) agent)"

definition perform_web_search ::
  "services \<Rightarrow> pystr list \<Rightarrow> int \<Rightarrow> TaskExecutorAgent \<Rightarrow> TaskExecutorAgent" where
  "perform_web_search sv search_queries max_results agent =
     (let (all_results, agent) =
            web_search_loop sv max_results (int (length search_queries)) search_queries [] agent
      in agent\<lparr>search_results := deduplicate_results all_results\<rparr>)"

text \<open>\<open>_scrape_linkedin_profiles\<close>: the loop over the LinkedIn URLs of the search results.\<close>

fun scrape_loop :: "services \<Rightarrow> pystr list \<Rightarrow> TaskExecutorAgent \<Rightarrow> TaskExecutorAgent" where
  "scrape_loop sv [] agent = agent"
| "scrape_loop sv (u # urls) agent =
     (let scraped = scrape_profile sv (length (calls agent)) u;
          agent = called LinkedInScraper agent;
          agent = (case scraped of
                     None \<Rightarrow> agent
                   | Some record \<Rightarrow> agent\<lparr>scraped_data := scraped_data agent @ [record]\<rparr>)
      in scrape_loop sv urls agent)"

definition scrape_linkedin_profiles :: "services \<Rightarrow> int \<Rightarrow> TaskExecutorAgent \<Rightarrow> TaskExecutorAgent" where
  "scrape_linkedin_profiles sv max_results agent =
     (let linkedin_urls = filter is_linkedin_url (map url (search_results agent))
      in if linkedin_urls = [] then agent
         else scrape_loop sv (py_take max_results linkedin_urls) agent)"

text \<open>\<open>_scrape_other_websites\<close>: the loop with its counter \<open>count_added\<close>.\<close>

fun enrich_loop :: "services \<Rightarrow> int \<Rightarrow> pystr list \<Rightarrow> int \<Rightarrow> TaskExecutorAgent \<Rightarrow> TaskExecutorAgent" where
  "enrich_loop sv max_results [] count_added agent = agent"
| "enrich_loop sv max_results (u # urls) count_added agent =
     (if max_results \<le> count_added then agent
      else (let enriched = enrich_url sv (length (calls agent)) u;
                agent = called UrlEnricher agent
            in case enriched of
                 None \<Rightarrow> enrich_loop sv max_results urls count_added agent
               | Some record \<Rightarrow>
                   enrich_loop sv max_results urls (count_added + 1)
                     (agent\<lparr>scraped_data := scraped_data agent @ [record]\<rparr>)))"

definition scrape_other_websites :: "services \<Rightarrow> int \<Rightarrow> TaskExecutorAgent \<Rightarrow> TaskExecutorAgent" where
  "scrape_other_websites sv max_results agent =
     (let other_urls = filter (\<lambda>u. \<not> is_linkedin_url u \<and> u \<noteq> []) (map url (search_results agent))
      in if other_urls = [] then agent else enrich_loop sv max_results other_urls 0 agent)"

subsection \<open>Parsing the search response\<close>

text \<open>
  The dictionary \<open>sections\<close> of \<open>_parse_structured_search_response\<close>, and the value of
  its variable \<open>cur\<close> (\<open>None\<close> before the first header).
\<close>

record sections =
  answer :: pystr
  sources :: "pystr list"
  linkedin_profiles :: "pystr list"

datatype sect = InAnswer | InSources | InLinkedin

text \<open>The bullet \<open>U+2022\<close> and the hyphen; the text of a bullet line after its marker.\<close>

definition is_bullet_line :: "pystr \<Rightarrow> bool" where
  "is_bullet_line line \<longleftrightarrow> startswith line [45] \<or> startswith line [8226]"

definition bullet_text :: "pystr \<Rightarrow> pystr" where
  "bullet_text line = strip (lstrip_chars [42, 8226, 45, 32] (strip (drop 1 line)))"

definition close_answer :: "sect option \<Rightarrow> pystr list \<Rightarrow> sections \<Rightarrow> sections" where
  "close_answer cur buffer secs =
     (if cur = Some InAnswer then secs\<lparr>answer := strip (join [10] buffer)\<rparr> else secs)"

text \<open>The loop over the stripped lines, with the variables \<open>cur\<close>, \<open>buffer\<close> and \<open>sections\<close>.\<close>

fun parse_lines :: "pystr list \<Rightarrow> sect option \<Rightarrow> pystr list \<Rightarrow> sections
     \<Rightarrow> sect option \<times> pystr list \<times> sections" where
  "parse_lines [] cur buffer secs = (cur, buffer, secs)"
| "parse_lines (line # rest) cur buffer secs =
     (let low = lower line in
      if startswith low (str ''answer:'')
      then parse_lines rest (Some InAnswer) [strip (drop (length (str ''answer:'')) line)]
             (close_answer cur buffer secs)
      else if startswith low (str ''sources:'')
      then parse_lines rest (Some InSources) [] (close_answer cur buffer secs)
      else if startswith low (str ''linkedin profiles'')
      then parse_lines rest (Some InLinkedin) [] (close_answer cur buffer secs)
      else if cur = Some InAnswer
      then parse_lines rest cur (buffer @ [line]) secs
      else if (cur = Some InSources \<or> cur = Some InLinkedin) \<and> is_bullet_line line
      then parse_lines rest cur buffer
             (if cur = Some InSources then secs\<lparr>sources := sources secs @ [bullet_text line]\<rparr>
              else secs\<lparr>linkedin_profiles := linkedin_profiles secs @ [bullet_text line]\<rparr>)
      else parse_lines rest cur buffer secs)"

text \<open>The inner function \<open>clean\<close>.\<close>

definition clean :: "pystr list \<Rightarrow> pystr list" where
  "clean urls = map split_space_first (filter (\<lambda>u. startswith u (str ''http'')) urls)"

text \<open>
  \<open>_parse_structured_search_response\<close>.  Its argument is a \<open>str\<close>, and no operation of
  the \<open>try\<close> block raises on strings.
\<close>

definition parse_structured_search_response :: "pystr \<Rightarrow> sections" where
  "parse_structured_search_response content =
     (let lines = map strip (splitlines content);
          (cur, buffer, secs) =
             parse_lines lines None [] \<lparr>answer = [], sources = [], linkedin_profiles = []\<rparr>;
          secs = (if cur = Some InAnswer \<and> answer secs = []
                  then secs\<lparr>answer := strip (join [10] buffer)\<rparr> else secs)
      in secs\<lparr>sources := clean (sources secs), linkedin_profiles := clean (linkedin_profiles secs)\<rparr>)"

subsection \<open>Extracting the results block\<close>

text \<open>
  The two patterns of \<open>_extract_results_json\<close>, both used with \<open>re.IGNORECASE\<close>:
  \<^verbatim>\<open>RESULTS_JSON\s*\n\s*\{[\s\S]*?\}\s*$\<close> and
  \<^verbatim>\<open>\{\s*\"results\"\s*:\s*\[.[\s\S]*?\]\s*\}\<close>.
\<close>

definition results_json_pattern :: "item list" where
  "results_json_pattern =
     lits (str ''RESULTS_JSON'')
     @ [Item Space Star, Item (Lit 10) One, Item Space Star, Item (Lit 123) One,
        Item AnyChar LazyStar, Item (Lit 125) One, Item Space Star, EndAnchor]"

definition results_object_pattern :: "item list" where
  "results_object_pattern =
     [Item (Lit 123) One, Item Space Star]
     @ lits ([34] @ str ''results'' @ [34])
     @ [Item Space Star, Item (Lit 58) One, Item Space Star, Item (Lit 91) One, Item Dot One,
        Item AnyChar LazyStar, Item (Lit 93) One, Item Space Star, Item (Lit 125) One]"

text \<open>\<open>block[block.find('{'):]\<close>; \<open>find\<close> gives \<open>-1\<close> when there is no brace.\<close>

definition from_first_brace :: "pystr \<Rightarrow> pystr" where
  "from_first_brace block =
     (if 123 \<in> set block then dropWhile (\<lambda>c. c \<noteq> 123) block
      else drop (length block - 1) block)"

text \<open>
  \<open>_extract_results_json\<close>.  \<open>json_loads\<close> is \<open>json.loads\<close> (\<open>None\<close> when it
  raises); the \<open>except\<close> branch returns the empty list.
\<close>

definition find_results_block :: "pystr \<Rightarrow> pystr option" where
  "find_results_block content =
     (case re_search True results_json_pattern content of
        Some block \<Rightarrow> Some block
      | None \<Rightarrow> re_search True results_object_pattern content)"

definition extract_results_json :: "(pystr \<Rightarrow> pyval option) \<Rightarrow> pystr \<Rightarrow> pyval list" where
  "extract_results_json json_loads content =
     (case find_results_block content of
        None \<Rightarrow> []
      | Some block \<Rightarrow>
          (case json_loads (from_first_brace block) of
             Some (PDict parsed) \<Rightarrow>
               (case map_of parsed (str ''results'') of
                  Some (PList res) \<Rightarrow> res
                | _ \<Rightarrow> [])
           | _ \<Rightarrow> []))"

text \<open>\<open>_extract_urls_from_input\<close>: \<open>re.findall\<close> with the pattern \<^verbatim>\<open>https?://[^\s]+\<close>.\<close>

definition url_pattern :: "item list" where
  "url_pattern = lits (str ''http'') @ [Item (Lit 115) Opt] @ lits (str ''://'') @ [Item NotSpace Plus]"

definition extract_urls_from_input :: "pystr \<Rightarrow> pystr list" where
  "extract_urls_from_input user_text = re_findall False url_pattern user_text"

subsection \<open>The four ways of executing a task\<close>

text \<open>
  \<open>_execute_web_only\<close>: after the search, every result with a URL that is not a LinkedIn
  profile becomes a minimal record, up to \<open>max_results\<close> of them.
\<close>

definition web_only_record :: "services \<Rightarrow> nat \<Rightarrow> SearchResult \<Rightarrow> ScrapedData" where
  "web_only_record sv n r =
     \<lparr>profile_url = url r,
      name = (if title r \<noteq> [] then title r else str ''Unknown''),
      headline = [], location = [],
      summary = snippet r,
      experience = [], skills = [], education = [], contact_info = [],
      scraped_at = timestamp sv n,
      source = str ''Compound-Beta''\<rparr>"

fun web_only_loop :: "services \<Rightarrow> int \<Rightarrow> SearchResult list \<Rightarrow> int \<Rightarrow> TaskExecutorAgent \<Rightarrow> TaskExecutorAgent" where
  "web_only_loop sv max_results [] count_added agent = agent"
| "web_only_loop sv max_results (r # rs) count_added agent =
     (if max_results \<le> count_added then agent
      else if url r = [] then web_only_loop sv max_results rs count_added agent
      else if is_linkedin_url (url r) then web_only_loop sv max_results rs count_added agent
      else web_only_loop sv max_results rs (count_added + 1)
             (agent\<lparr>scraped_data :=
                scraped_data agent @ [web_only_record sv (length (calls agent)) r]\<rparr>))"

definition execute_web_only :: "services \<Rightarrow> pystr \<Rightarrow> int \<Rightarrow> TaskExecutorAgent \<Rightarrow> TaskExecutorAgent" where
  "execute_web_only sv request max_results agent =
     (let search_queries = generate_search_queries sv (length (calls agent)) request (str ''web'');
          agent = called QueryGenerator agent;
          agent = perform_web_search sv search_queries max_results agent;
          linkedin_urls_present =
            list_ex (\<lambda>r. is_linkedin_url (url r)) (filter (\<lambda>r. url r \<noteq> []) (search_results agent));
          agent = (if linkedin_urls_present then scrape_linkedin_profiles sv max_results agent
                   else agent)
      in web_only_loop sv max_results (search_results agent) 0 agent)"

text \<open>
  \<open>_execute_linkedin_search\<close>: a second search with two \<open>site:\<close> queries when the first
  one found no LinkedIn profile; the other URLs are processed at the end.
\<close>

definition execute_linkedin_search :: "services \<Rightarrow> pystr \<Rightarrow> int \<Rightarrow> TaskExecutorAgent \<Rightarrow> TaskExecutorAgent" where
  "execute_linkedin_search sv request max_results agent =
     (let search_queries = generate_search_queries sv (length (calls agent)) request (str ''linkedin'');
          agent = called QueryGenerator agent;
          agent = perform_web_search sv search_queries max_results agent;
          agent = scrape_linkedin_profiles sv max_results agent;
          linkedin_urls = filter is_linkedin_url (map url (search_results agent));
          agent =
            (if linkedin_urls = []
             then (let site_queries =
                         [str ''site:linkedin.com/in '' @ request,
                          request @ str '' site:linkedin.com/in''];
                       agent = perform_web_search sv site_queries max_results agent
                   in scrape_linkedin_profiles sv max_results agent)
             else agent)
      in scrape_other_websites sv max_results agent)"

definition execute_web_search :: "services \<Rightarrow> pystr \<Rightarrow> int \<Rightarrow> TaskExecutorAgent \<Rightarrow> TaskExecutorAgent" where
  "execute_web_search sv request max_results agent =
     (let search_queries = generate_search_queries sv (length (calls agent)) request (str ''web'');
          agent = called QueryGenerator agent;
          agent = perform_web_search sv search_queries max_results agent
      in scrape_other_websites sv max_results agent)"

definition execute_generic_search :: "services \<Rightarrow> pystr \<Rightarrow> int \<Rightarrow> TaskExecutorAgent \<Rightarrow> TaskExecutorAgent" where
  "execute_generic_search sv request max_results agent =
     (let search_queries = generate_search_queries sv (length (calls agent)) request (str ''generic'');
          agent = called QueryGenerator agent;
          agent = perform_web_search sv search_queries max_results agent
      in scrape_other_websites sv max_results agent)"

text \<open>
  \<open>_scrape_specific_urls\<close>.  For a URL that is not a LinkedIn profile the loop body
  calls \<open>self._scrape_with_firecrawl\<close>, a method that the class does not have: the
  \<open>AttributeError\<close> is caught and the loop goes on, so such a URL adds nothing.
\<close>

fun specific_loop :: "services \<Rightarrow> pystr list \<Rightarrow> TaskExecutorAgent \<Rightarrow> TaskExecutorAgent" where
  "specific_loop sv [] agent = agent"
| "specific_loop sv (u # urls) agent =
     (if is_linkedin_url u
      then (let scraped = scrape_profile sv (length (calls agent)) u;
                agent = called LinkedInScraper agent;
                agent = (case scraped of
                           None \<Rightarrow> agent
                         | Some record \<Rightarrow> agent\<lparr>scraped_data := scraped_data agent @ [record]\<rparr>)
            in specific_loop sv urls agent)
      else specific_loop sv urls agent)"

definition scrape_specific_urls :: "services \<Rightarrow> pystr list \<Rightarrow> int \<Rightarrow> TaskExecutorAgent \<Rightarrow> TaskExecutorAgent" where
  "scrape_specific_urls sv urls max_results agent = specific_loop sv (py_take max_results urls) agent"

definition execute_data_scraping :: "services \<Rightarrow> pystr \<Rightarrow> int \<Rightarrow> TaskExecutorAgent \<Rightarrow> TaskExecutorAgent" where
  "execute_data_scraping sv request max_results agent =
     (let urls = extract_urls_from_input request
      in if urls \<noteq> [] then scrape_specific_urls sv urls max_results agent
         else execute_generic_search sv request max_results agent)"

text \<open>
  \<open>execute_tasks\<close>: the intent classifier chooses the way; the result is the agent with
  its list \<open>scraped_data\<close>, which the method returns.  The callees catch their
  exceptions, so the \<open>except\<close> branch is not reached.
\<close>

definition execute_tasks :: "services \<Rightarrow> pystr \<Rightarrow> int \<Rightarrow> TaskExecutorAgent \<Rightarrow> TaskExecutorAgent" where
  "execute_tasks sv request max_results agent =
     (let task_type = analyze_task_type request;
          agent = called IntentClassifier agent
      in if task_type = str ''linkedin_search'' then execute_linkedin_search sv request max_results agent
         else if task_type = str ''web_only'' then execute_web_only sv request max_results agent
         else if task_type = str ''web_search'' then execute_web_search sv request max_results agent
         else if task_type = str ''data_scraping'' then execute_data_scraping sv request max_results agent
         else execute_web_only sv request max_results agent)"

text \<open>
  The classification as the specification words it: a precedence over four keyword lists,
  reading the input only through the test \<open>has\<close> (does this keyword occur in the
  lower-cased input?).
\<close>

definition linkedin_keywords :: "pystr list" where
  "linkedin_keywords =
     map str [''linkedin'', ''profile'', ''professional profile'', ''resume'', ''cv'']"

definition scraping_keywords :: "pystr list" where
  "scraping_keywords = map str [''scrape'', ''extract'', ''data from'', ''crawl'']"

definition search_keywords :: "pystr list" where
  "search_keywords = map str [''search'', ''find'', ''look for'']"

definition classify_by_keywords :: "(pystr \<Rightarrow> bool) \<Rightarrow> pystr" where
  "classify_by_keywords has =
     (if \<exists>k\<in>set linkedin_keywords. has k then str ''linkedin_search''
      else if \<exists>k\<in>set fact_keywords. has k then str ''web_only''
      else if \<exists>k\<in>set scraping_keywords. has k then str ''data_scraping''
      else if \<exists>k\<in>set search_keywords. has k then str ''web_search''
      else str ''web_only'')"

text \<open>Time passing outside \<open>_rate_limit\<close>: the clock moves, the agent's fields stay.\<close>

definition tick :: "real \<Rightarrow> rate_state \<Rightarrow> rate_state" where
  "tick d s = s\<lparr>clock := clock s + d\<rparr>"

subsection \<open>What the specification says of the parser\<close>

text \<open>
  The header that a line is, if it is one; the lines under the headers of one kind (a line
  is under the last header before it); and the URLs of the bullet lines under them: the
  text of the bullet, kept when it starts with \<open>http\<close>, up to its first space.
\<close>

definition header_of :: "pystr \<Rightarrow> sect option" where
  "header_of line =
     (let low = lower line in
      if startswith low (str ''answer:'') then Some InAnswer
      else if startswith low (str ''sources:'') then Some InSources
      else if startswith low (str ''linkedin profiles'') then Some InLinkedin
      else None)"

fun lines_under :: "sect \<Rightarrow> sect option \<Rightarrow> pystr list \<Rightarrow> pystr list" where
  "lines_under k cur [] = []"
| "lines_under k cur (line # rest) =
     (case header_of line of
        Some h \<Rightarrow> lines_under k (Some h) rest
      | None \<Rightarrow> (if cur = Some k then [line] else []) @ lines_under k cur rest)"

definition bullet_urls :: "sect \<Rightarrow> pystr \<Rightarrow> pystr list" where
  "bullet_urls k content =
     map split_space_first
       (filter (\<lambda>u. startswith u (str ''http''))
          (map bullet_text
             (filter is_bullet_line (lines_under k None (map strip (splitlines content))))))"

text \<open>
  The block of results, described without the regular expressions.  Letters are compared
  after folding the case; the long s \<open>U+017F\<close> folds to \<open>s\<close>.  \<open>after_caseless p s\<close>
  is what follows \<open>p\<close> at the start of \<open>s\<close>, and \<open>first_piece f s\<close> is the value of
  \<open>f\<close> at the first place of \<open>s\<close>, from the left, where \<open>f\<close> has one.
\<close>

definition fold_case :: "nat \<Rightarrow> nat" where
  "fold_case x = (if x = 383 then 115 else lower_cp x)"

fun after_caseless :: "pystr \<Rightarrow> pystr \<Rightarrow> pystr option" where
  "after_caseless [] s = Some s"
| "after_caseless (c # p) [] = None"
| "after_caseless (c # p) (x # s) = (if fold_case x = fold_case c then after_caseless p s else None)"

fun first_piece :: "(pystr \<Rightarrow> 'a option) \<Rightarrow> pystr \<Rightarrow> 'a option" where
  "first_piece f [] = f []"
| "first_piece f (x # xs) = (case f (x # xs) of Some b \<Rightarrow> Some b | None \<Rightarrow> first_piece f xs)"

text \<open>
  A labelled tail: the label \<open>RESULTS_JSON\<close> in any case, white space with a line feed
  in it, an opening brace, and after it a closing brace that only white space separates
  from the end of the text.  Its JSON text is all of it from the opening brace on.
\<close>

fun closes_at_end :: "pystr \<Rightarrow> bool" where
  "closes_at_end [] \<longleftrightarrow> False"
| "closes_at_end (x # xs) \<longleftrightarrow> (x = 125 \<and> list_all py_isspace xs) \<or> closes_at_end xs"

definition labelled_tail :: "pystr \<Rightarrow> bool" where
  "labelled_tail t \<longleftrightarrow>
     (case after_caseless (str ''RESULTS_JSON'') t of
        None \<Rightarrow> False
      | Some rest \<Rightarrow>
          10 \<in> set (takeWhile py_isspace rest)
          \<and> (case lstrip rest of [] \<Rightarrow> False | b # body \<Rightarrow> b = 123 \<and> closes_at_end body))"

definition json_from_label :: "pystr \<Rightarrow> pystr" where
  "json_from_label t = lstrip (drop (length (str ''RESULTS_JSON'')) t)"

text \<open>
  A results object at the start of a text: an opening brace, the key \<open>"results"\<close> in
  any case, a colon, an opening bracket, a code point other than the line feed, and the
  text up to the first closing bracket that a closing brace follows; white space may stand
  before the key, the colon, the opening bracket and the closing brace.
  \<open>results_object_rest\<close> is the text left after the object.
\<close>

fun first_close :: "pystr \<Rightarrow> pystr option" where
  "first_close [] = None"
| "first_close (x # xs) =
     (if x = 93
      then (case lstrip xs of [] \<Rightarrow> first_close xs
            | y # r \<Rightarrow> if y = 125 then Some r else first_close xs)
      else first_close xs)"

definition results_object_rest :: "pystr \<Rightarrow> pystr option" where
  "results_object_rest t =
     (case t of
        [] \<Rightarrow> None
      | b # t0 \<Rightarrow>
          if b \<noteq> 123 then None
          else (case after_caseless ([34] @ str ''results'' @ [34]) (lstrip t0) of
                  None \<Rightarrow> None
                | Some t1 \<Rightarrow>
                    (case lstrip t1 of
                       [] \<Rightarrow> None
                     | colon # t2 \<Rightarrow>
                         if colon \<noteq> 58 then None
                         else (case lstrip t2 of
                                 [] \<Rightarrow> None
                               | [bracket] \<Rightarrow> None
                               | bracket # x # t3 \<Rightarrow>
                                   if bracket \<noteq> 91 \<or> x = 10 then None else first_close t3))))"

definition results_object :: "pystr \<Rightarrow> pystr option" where
  "results_object t = map_option (\<lambda>r. take (length t - length r) t) (results_object_rest t)"

text \<open>
  The block that is looked for: the first labelled tail, or else the first results object;
  and the text handed to \<open>json.loads\<close>.
\<close>

definition results_block :: "pystr \<Rightarrow> pystr option" where
  "results_block content =
     (case first_piece (\<lambda>t. if labelled_tail t then Some t else None) content of
        Some t \<Rightarrow> Some t
      | None \<Rightarrow> first_piece results_object content)"

definition results_text :: "pystr \<Rightarrow> pystr option" where
  "results_text content =
     (case first_piece (\<lambda>t. if labelled_tail t then Some (json_from_label t) else None) content of
        Some js \<Rightarrow> Some js
      | None \<Rightarrow> first_piece results_object content)"

text \<open>
  The list under \<open>results\<close> of a parsed JSON text; empty when the text does not parse
  (\<open>None\<close>), or not to a dictionary with a list under that key.
\<close>

definition results_list :: "pyval option \<Rightarrow> pyval list" where
  "results_list parsed =
     (case parsed of
        Some (PDict d) \<Rightarrow> (case map_of d (str ''results'') of Some (PList res) \<Rightarrow> res | _ \<Rightarrow> [])
      | _ \<Rightarrow> [])"

section \<open>Task tracker (\<open>agents/task_updater.py\<close>)\<close>

subsection \<open>Floating-point numbers\<close>

text \<open>
  A Python \<open>float\<close> is an IEEE 754 binary64 number.  A finite one is a rational number,
  and an operation yields the exact result rounded to the nearest number with a 53-bit
  significand, ties going to the even significand.  \<open>float64\<close> is that rounding (written
  for the normal range: the tracker's numbers stay far from overflow and from the
  subnormal numbers).  Infinities and NaN are not values of the model.
\<close>

function bitlen :: "int \<Rightarrow> int" where
  "bitlen n = (if n \<le> 0 then 0 else 1 + bitlen (n div 2))"
  by pat_completeness auto
termination
  by (relation "measure nat") auto

declare bitlen.simps [simp del]

definition pow2 :: "int \<Rightarrow> rat" where
  "pow2 e = (if 0 \<le> e then 2 ^ nat e else 1 / 2 ^ nat (- e))"

text \<open>
  \<open>bitlen n\<close> is the number of binary digits of a positive \<open>n\<close>, and \<open>ilog2 x\<close> the
  integer \<open>e\<close> with \<open>2\<^sup>e \<le> x < 2\<^sup>e\<^sup>+\<^sup>1\<close>, for a positive \<open>x\<close>.
\<close>

definition ilog2 :: "rat \<Rightarrow> int" where
  "ilog2 x = (if 1 \<le> x then bitlen \<lfloor>x\<rfloor> - 1 else - bitlen (\<lceil>1 / x\<rceil> - 1))"

definition round_half_even :: "rat \<Rightarrow> int" where
  "round_half_even x =
     (let f = \<lfloor>x\<rfloor>; d = x - of_int f
      in if d < 1 / 2 then f else if 1 / 2 < d then f + 1 else if even f then f else f + 1)"

definition float64 :: "rat \<Rightarrow> rat" where
  "float64 x =
     (if x = 0 then 0
      else (let e = ilog2 \<bar>x\<bar> - 52 in of_int (round_half_even (x / pow2 e)) * pow2 e))"

text \<open>No rounding: the arithmetic of the rational numbers.\<close>

definition exact :: "rat \<Rightarrow> rat" where
  "exact x = x"

subsection \<open>Tasks\<close>

datatype TaskStatus = PENDING | IN_PROGRESS | COMPLETED | FAILED | CANCELLED

datatype TaskType = WEB_SEARCH | LINKEDIN_SCRAPING | OTHER_SCRAPING | DATA_CLEANING | REPORT_GENERATION

text \<open>\<open>class TaskProgress(BaseModel)\<close>; a \<open>datetime\<close> is a number of seconds.\<close>

record TaskProgress =
  task_id :: pystr
  task_type :: TaskType
  status :: TaskStatus
  progress_percentage :: rat
  start_time :: rat
  end_time :: "rat option"
  error_message :: "pystr option"
  details :: "(pystr \<times> pyval) list"

text \<open>
  \<open>class TaskUpdaterAgent\<close>.  \<open>tasks\<close> is a dictionary, kept in insertion order: the
  loop of \<open>_update_overall_progress\<close> adds the tasks up in that order.
\<close>

record TaskUpdaterAgent =
  tasks :: "(pystr \<times> TaskProgress) list"
  workflow_start_time :: rat
  overall_progress :: rat

text \<open>\<open>d[key] = value\<close>: a key already there keeps its place, a new one goes last.\<close>

fun dict_set :: "('k \<times> 'v) list \<Rightarrow> 'k \<Rightarrow> 'v \<Rightarrow> ('k \<times> 'v) list" where
  "dict_set [] key v = [(key, v)]"
| "dict_set ((k, w) # kvs) key v =
     (if k = key then (k, v) # kvs else (k, w) # dict_set kvs key v)"

text \<open>\<open>d.update(other)\<close>.\<close>

definition dict_update :: "('k \<times> 'v) list \<Rightarrow> ('k \<times> 'v) list \<Rightarrow> ('k \<times> 'v) list" where
  "dict_update d other = fold (\<lambda>(k, v) acc. dict_set acc k v) other d"

definition init_tracker :: "rat \<Rightarrow> TaskUpdaterAgent" where
  "init_tracker now = \<lparr>tasks = [], workflow_start_time = now, overall_progress = 0\<rparr>"

definition create_task :: "rat \<Rightarrow> pystr \<Rightarrow> TaskType \<Rightarrow> TaskUpdaterAgent \<Rightarrow> TaskUpdaterAgent" where
  "create_task now tid ty agent =
     (let task = \<lparr>task_id = tid, task_type = ty, status = PENDING, progress_percentage = 0,
                  start_time = now, end_time = None, error_message = None, details = []\<rparr>
      in agent\<lparr>tasks := dict_set (tasks agent) tid task\<rparr>)"

text \<open>
  \<open>_update_overall_progress\<close>.  \<open>rnd\<close> is the rounding of each floating-point operation
  (\<open>float64\<close> for the program as it runs, \<open>exact\<close> for the arithmetic of the
  rationals).  The weights are the literals \<open>0.6\<close>, \<open>0.2\<close> and \<open>0.1\<close>; a task type
  without an entry in \<open>task_weights\<close> gets the default \<open>0.1\<close>.
\<close>

fun task_weight :: "(rat \<Rightarrow> rat) \<Rightarrow> TaskType \<Rightarrow> rat" where
  "task_weight rnd LINKEDIN_SCRAPING = rnd (6 / 10)"
| "task_weight rnd OTHER_SCRAPING = rnd (2 / 10)"
| "task_weight rnd DATA_CLEANING = rnd (1 / 10)"
| "task_weight rnd REPORT_GENERATION = rnd (1 / 10)"
| "task_weight rnd WEB_SEARCH = rnd (1 / 10)"

fun progress_loop :: "(rat \<Rightarrow> rat) \<Rightarrow> TaskProgress list \<Rightarrow> rat \<Rightarrow> rat \<Rightarrow> rat \<times> rat" where
  "progress_loop rnd [] total_weight weighted_progress = (total_weight, weighted_progress)"
| "progress_loop rnd (task # rest) total_weight weighted_progress =
     (let weight = task_weight rnd (task_type task);
          total_weight' = rnd (total_weight + weight);
          weighted_progress' =
            (if status task = COMPLETED then rnd (weighted_progress + rnd (weight * 100))
             else if status task = IN_PROGRESS
             then rnd (weighted_progress + rnd (weight * progress_percentage task))
             else if status task = FAILED
             then rnd (weighted_progress + rnd (weight * min (progress_percentage task) 50))
             else weighted_progress)
      in progress_loop rnd rest total_weight' weighted_progress')"

definition update_overall_progress :: "(rat \<Rightarrow> rat) \<Rightarrow> TaskUpdaterAgent \<Rightarrow> TaskUpdaterAgent" where
  "update_overall_progress rnd agent =
     (if tasks agent = [] then agent\<lparr>overall_progress := 0\<rparr>
      else (let (total_weight, weighted_progress) = progress_loop rnd (map snd (tasks agent)) 0 0
            in if 0 < total_weight
               then agent\<lparr>overall_progress := rnd (weighted_progress / total_weight)\<rparr>
               else agent\<lparr>overall_progress := 0\<rparr>))"

text \<open>
  \<open>update_task_status\<close>.  The optional arguments are \<open>None\<close> when left out; an empty
  \<open>error_message\<close> and an empty \<open>details\<close> are falsy and change nothing.
\<close>

definition update_task_status ::
  "(rat \<Rightarrow> rat) \<Rightarrow> rat \<Rightarrow> pystr \<Rightarrow> TaskStatus \<Rightarrow> rat option \<Rightarrow> pystr option
     \<Rightarrow> (pystr \<times> pyval) list option \<Rightarrow> TaskUpdaterAgent \<Rightarrow> TaskUpdaterAgent" where
  "update_task_status rnd now tid st percentage err dets agent =
     (case map_of (tasks agent) tid of
        None \<Rightarrow> agent
      | Some task \<Rightarrow>
          (let task = task\<lparr>status := st\<rparr>;
               task = (case percentage of
                         None \<Rightarrow> task
                       | Some p \<Rightarrow> task\<lparr>progress_percentage := min (max p 0) 100\<rparr>);
               task = (case err of
                         None \<Rightarrow> task
                       | Some m \<Rightarrow> if m \<noteq> [] then task\<lparr>error_message := Some m\<rparr> else task);
               task = (case dets of
                         None \<Rightarrow> task
                       | Some d \<Rightarrow> if d \<noteq> [] then task\<lparr>details := dict_update (details task) d\<rparr>
                                  else task);
               task = (if st \<in> {COMPLETED, FAILED, CANCELLED} then task\<lparr>end_time := Some now\<rparr>
                       else task)
           in update_overall_progress rnd (agent\<lparr>tasks := dict_set (tasks agent) tid task\<rparr>)))"

text \<open>\<open>log_error\<close>; \<open>msg\<close> is \<open>str(error)\<close>.\<close>

definition log_error :: "(rat \<Rightarrow> rat) \<Rightarrow> rat \<Rightarrow> pystr \<Rightarrow> pystr \<Rightarrow> TaskUpdaterAgent \<Rightarrow> TaskUpdaterAgent" where
  "log_error rnd now tid msg agent = update_task_status rnd now tid FAILED None (Some msg) None agent"

definition reset_workflow :: "rat \<Rightarrow> TaskUpdaterAgent \<Rightarrow> TaskUpdaterAgent" where
  "reset_workflow now agent = agent\<lparr>tasks := [], workflow_start_time := now, overall_progress := 0\<rparr>"

text \<open>The four operations of the tracker as data, and a sequence of them run from a state.\<close>

datatype tracker_op =
    CreateTask rat pystr TaskType
  | UpdateTaskStatus rat pystr TaskStatus "rat option" "pystr option" "(pystr \<times> pyval) list option"
  | LogError rat pystr pystr
  | ResetWorkflow rat

fun tracker_step :: "(rat \<Rightarrow> rat) \<Rightarrow> TaskUpdaterAgent \<Rightarrow> tracker_op \<Rightarrow> TaskUpdaterAgent" where
  "tracker_step rnd agent (CreateTask now tid ty) = create_task now tid ty agent"
| "tracker_step rnd agent (UpdateTaskStatus now tid st p e d) =
     update_task_status rnd now tid st p e d agent"
| "tracker_step rnd agent (LogError now tid msg) = log_error rnd now tid msg agent"
| "tracker_step rnd agent (ResetWorkflow now) = reset_workflow now agent"

definition tracker_run :: "(rat \<Rightarrow> rat) \<Rightarrow> tracker_op list \<Rightarrow> TaskUpdaterAgent \<Rightarrow> TaskUpdaterAgent" where
  "tracker_run rnd ops agent = foldl (tracker_step rnd) agent ops"

text \<open>The two range properties of the tracker's numbers.\<close>

definition tasks_in_range :: "TaskUpdaterAgent \<Rightarrow> bool" where
  "tasks_in_range agent \<longleftrightarrow>
     (\<forall>task\<in>snd ` set (tasks agent). 0 \<le> progress_percentage task \<and> progress_percentage task \<le> 100)"

definition overall_in_range :: "TaskUpdaterAgent \<Rightarrow> bool" where
  "overall_in_range agent \<longleftrightarrow> 0 \<le> overall_progress agent \<and> overall_progress agent \<le> 100"

text \<open>
  The tracker calls of one run of \<open>execute_workflow\<close> in which every step succeeds
  (\<open>main.py\<close>: \<open>reset_workflow\<close>, then for each of the three steps \<open>create_task\<close>,
  \<open>update_task_status\<close> to \<open>IN_PROGRESS\<close> with progress 0 and to \<open>COMPLETED\<close> with
  progress 100).
\<close>

definition workflow_ops :: "tracker_op list" where
  "workflow_ops =
     [ResetWorkflow 0,
      CreateTask 0 (str ''task_execution'') LINKEDIN_SCRAPING,
      UpdateTaskStatus 0 (str ''task_execution'') IN_PROGRESS (Some 0) None None,
      UpdateTaskStatus 1 (str ''task_execution'') COMPLETED (Some 100) None
        (Some [(str ''scraped_records'', PInt 2)]),
      CreateTask 1 (str ''prepare_dataframe'') DATA_CLEANING,
      UpdateTaskStatus 1 (str ''prepare_dataframe'') IN_PROGRESS (Some 0) None None,
      UpdateTaskStatus 2 (str ''prepare_dataframe'') COMPLETED (Some 100) None
        (Some [(str ''cleaned_records'', PInt 2)]),
      CreateTask 2 (str ''report_generation'') REPORT_GENERATION,
      UpdateTaskStatus 2 (str ''report_generation'') IN_PROGRESS (Some 0) None None,
      UpdateTaskStatus 3 (str ''report_generation'') COMPLETED (Some 100) None
        (Some [(str ''report_length'', PInt 900)])]"

section \<open>Tables (\<open>pandas.DataFrame\<close>)\<close>

text \<open>
  A \<open>DataFrame\<close> as the pipeline builds and reads it: column labels in order, and the rows
  as dictionaries.  A row without an entry for a column holds \<open>NaN\<close> there.  The column
  labels of a frame are taken to be distinct.
\<close>

record DataFrame =
  columns :: "pystr list"
  rows :: "(pystr \<times> pyval) list list"

text \<open>\<open>data.empty\<close>: no rows or no columns.  \<open>len(data)\<close> is \<open>length (rows data)\<close>.\<close>

definition df_empty :: "DataFrame \<Rightarrow> bool" where
  "df_empty df \<longleftrightarrow> rows df = [] \<or> columns df = []"

text \<open>\<open>data[c]\<close> for a label \<open>c\<close> in \<open>data.columns\<close>: the cells of the column, top down.\<close>

definition column :: "DataFrame \<Rightarrow> pystr \<Rightarrow> pyval list" where
  "column df c = map (\<lambda>r. dict_get r c PNaN) (rows df)"

text \<open>
  \<open>pd.DataFrame(records)\<close> for a list of dictionaries: the columns are the keys in the
  order of their first appearance, and a record without a key has \<open>NaN\<close> there.  pandas
  then chooses a type for every column from its values and stores the cells in it: in a
  column of integers and missing values the integers become floats and \<open>None\<close> becomes
  \<open>NaN\<close>, while strings, lists and dictionaries are stored as they are.  This inference
  is pandas' own and differs between its versions (what becomes of \<open>None\<close> next to
  strings, for one), so it is an argument: \<open>infer col v\<close> is the cell stored for the
  value \<open>v\<close> in a column whose values are \<open>col\<close>.
\<close>

definition from_records ::
  "(pyval list \<Rightarrow> pyval \<Rightarrow> pyval) \<Rightarrow> (pystr \<times> pyval) list list \<Rightarrow> DataFrame" where
  "from_records infer records =
     (let cols = rev (remdups (rev (concat (map (map fst) records))))
      in \<lparr>columns = cols,
          rows = map (\<lambda>r. map (\<lambda>c. (c, infer (map (\<lambda>r'. dict_get r' c PNaN) records)
                                          (dict_get r c PNaN))) cols) records\<rparr>)"

text \<open>
  What is used of the inference: a string, a list or a dictionary is stored as it is, and
  no other value is stored as a list.
\<close>

definition keeps_objects :: "(pyval list \<Rightarrow> pyval \<Rightarrow> pyval) \<Rightarrow> bool" where
  "keeps_objects infer \<longleftrightarrow>
     (\<forall>col v. case v of
                PStr s \<Rightarrow> infer col v = v
              | PList xs \<Rightarrow> infer col v = v
              | PDict d \<Rightarrow> infer col v = v
              | _ \<Rightarrow> (case infer col v of PList xs \<Rightarrow> False | _ \<Rightarrow> True))"

text \<open>\<open>df[c] = values\<close>, with one value for each row.\<close>

definition df_assign :: "DataFrame \<Rightarrow> pystr \<Rightarrow> pyval list \<Rightarrow> DataFrame" where
  "df_assign df c vals =
     \<lparr>columns = (if c \<in> set (columns df) then columns df else columns df @ [c]),
      rows = map (\<lambda>(r, v). dict_set r c v) (zip (rows df) vals)\<rparr>"

text \<open>\<open>data.head(n).to_dict('records')\<close>: the first \<open>n\<close> rows, each with every column.\<close>

definition head_records :: "nat \<Rightarrow> DataFrame \<Rightarrow> (pystr \<times> pyval) list list" where
  "head_records n df = map (\<lambda>r. map (\<lambda>c. (c, dict_get r c PNaN)) (columns df)) (take n (rows df))"

text \<open>\<open>len(v)\<close>: defined for strings, lists and dictionaries, a \<open>TypeError\<close> otherwise.\<close>

fun py_len :: "pyval \<Rightarrow> exn + nat" where
  "py_len (PStr s) = Inr (length s)"
| "py_len (PList xs) = Inr (length xs)"
| "py_len (PDict kvs) = Inr (length kvs)"
| "py_len v = Inl (TypeError v)"

text \<open>\<open>series.apply(len)\<close>: the lengths of all cells, or the first exception.\<close>

fun apply_len :: "pyval list \<Rightarrow> exn + nat list" where
  "apply_len [] = Inr []"
| "apply_len (v # vs) =
     (case py_len v of
        Inl e \<Rightarrow> Inl e
      | Inr n \<Rightarrow> (case apply_len vs of Inl e \<Rightarrow> Inl e | Inr ns \<Rightarrow> Inr (n # ns)))"

text \<open>
  Lists and dictionaries cannot be hashed; \<open>None\<close> and \<open>NaN\<close> are the missing values
  that \<open>nunique\<close> and \<open>value_counts\<close> leave out.
\<close>

fun hashable :: "pyval \<Rightarrow> bool" where
  "hashable (PList xs) = False"
| "hashable (PDict kvs) = False"
| "hashable v = True"

fun is_na :: "pyval \<Rightarrow> bool" where
  "is_na PNone = True"
| "is_na PNaN = True"
| "is_na v = False"

text \<open>
  Two values that can be hashed are the same key, for a dictionary and for the hash table
  of pandas, when they are equal in Python: an integer and a float of the same value are.
\<close>

fun same_key :: "pyval \<Rightarrow> pyval \<Rightarrow> bool" where
  "same_key (PInt i) (PFloat f) \<longleftrightarrow> of_int i = f"
| "same_key (PFloat f) (PInt i) \<longleftrightarrow> f = of_int i"
| "same_key a b \<longleftrightarrow> a = b"

text \<open>Counting the values of a list: a key keeps the place of its first appearance.\<close>

fun count_key :: "pyval \<Rightarrow> (pyval \<times> nat) list \<Rightarrow> (pyval \<times> nat) list" where
  "count_key v [] = [(v, 1)]"
| "count_key v ((k, n) # counts) =
     (if same_key k v then (k, Suc n) # counts else (k, n) # count_key v counts)"

fun count_values :: "pyval list \<Rightarrow> (pyval \<times> nat) list \<Rightarrow> (pyval \<times> nat) list" where
  "count_values [] counts = counts"
| "count_values (v # vs) counts = count_values vs (count_key v counts)"

text \<open>\<open>series.nunique()\<close>: the number of distinct values that are not missing.\<close>

definition nunique :: "pyval list \<Rightarrow> exn + nat" where
  "nunique col =
     (case filter (\<lambda>v. \<not> hashable v) col of
        [] \<Rightarrow> Inr (length (count_values (filter (\<lambda>v. \<not> is_na v) col) []))
      | v # vs \<Rightarrow> Inl (TypeError v))"

text \<open>
  \<open>series.value_counts()\<close>: each value that is not missing with the number of its
  occurrences, the most frequent first.  Values with the same count are kept in the order
  of their first appearance (pandas leaves the order of ties open; nothing below depends
  on it).
\<close>

definition value_counts :: "pyval list \<Rightarrow> exn + (pyval \<times> nat) list" where
  "value_counts col =
     (case filter (\<lambda>v. \<not> hashable v) col of
        [] \<Rightarrow> Inr (sort_key (\<lambda>(v, n). - int n) (count_values (filter (\<lambda>v. \<not> is_na v) col) []))
      | v # vs \<Rightarrow> Inl (TypeError v))"

section \<open>Report generator (\<open>agents/report_generator.py\<close>)\<close>

subsection \<open>Summary statistics\<close>

text \<open>The dictionary that \<open>_generate_summary_statistics\<close> returns, key by key.\<close>

record summary_stats =
  total_records :: nat
  unique_locations :: nat
  records_with_skills :: nat
  records_with_experience :: nat
  avg_skills_per_record :: rat
  top_locations :: "(pyval \<times> nat) list"
  source_distribution :: "(pyval \<times> nat) list"
  experience_levels :: "(pystr \<times> nat) list"

text \<open>The dictionary returned for an empty frame and in the \<open>except\<close> branch.\<close>

definition zero_stats :: summary_stats where
  "zero_stats =
     \<lparr>total_records = 0, unique_locations = 0, records_with_skills = 0,
      records_with_experience = 0, avg_skills_per_record = 0, top_locations = [],
      source_distribution = [], experience_levels = []\<rparr>"

text \<open>
  The \<open>if\<close>/\<open>elif\<close> chain of \<open>_analyze_experience_levels\<close> for one headline string:
  the key whose count goes up.
\<close>

definition headline_level :: "pystr \<Rightarrow> pystr" where
  "headline_level hl =
     (let headline_lower = lower hl in
      if list_ex (\<lambda>word. py_in word headline_lower) (map str [''senior'', ''lead'', ''principal''])
      then str ''senior''
      else if list_ex (\<lambda>word. py_in word headline_lower) (map str [''junior'', ''entry'', ''associate''])
      then str ''entry''
      else if list_ex (\<lambda>word. py_in word headline_lower) (map str [''director'', ''vp'', ''cto'', ''ceo''])
      then str ''executive''
      else if list_ex (\<lambda>word. py_in word headline_lower) (map str [''engineer'', ''developer'', ''analyst''])
      then str ''mid''
      else str ''unknown'')"

text \<open>\<open>levels[key] += 1\<close> for a key of \<open>levels\<close>.\<close>

definition dict_incr :: "(pystr \<times> nat) list \<Rightarrow> pystr \<Rightarrow> (pystr \<times> nat) list" where
  "dict_incr levels key = map (\<lambda>(k, n). if k = key then (k, n + 1) else (k, n)) levels"

definition zero_levels :: "(pystr \<times> nat) list" where
  "zero_levels =
     [(str ''entry'', 0), (str ''mid'', 0), (str ''senior'', 0), (str ''executive'', 0),
      (str ''unknown'', 0)]"

text \<open>The loop over \<open>data['headline']\<close>; a cell that is not a string is passed over.\<close>

fun levels_loop :: "pyval list \<Rightarrow> (pystr \<times> nat) list \<Rightarrow> (pystr \<times> nat) list" where
  "levels_loop [] levels = levels"
| "levels_loop (PStr hl # rest) levels =
     levels_loop rest (dict_incr levels (headline_level hl))"
| "levels_loop (v # rest) levels = levels_loop rest levels"

definition analyze_experience_levels :: "DataFrame \<Rightarrow> (pystr \<times> nat) list" where
  "analyze_experience_levels data =
     (if df_empty data then zero_levels
      else if str ''headline'' \<in> set (columns data)
      then levels_loop (column data (str ''headline'')) zero_levels
      else zero_levels)"

text \<open>
  \<open>_generate_summary_statistics\<close>.  The entries of the dictionary are computed in the
  order they are written; the first exception ends the computation in the \<open>except\<close>
  branch, which returns the zero dictionary.  The mean is a floating-point division.
\<close>

definition count_positive :: "nat list \<Rightarrow> nat" where
  "count_positive ns = length (filter (\<lambda>n. 0 < n) ns)"

definition compute_stats :: "DataFrame \<Rightarrow> exn + summary_stats" where
  "compute_stats data =
     (case (if str ''location'' \<in> set (columns data) then nunique (column data (str ''location''))
            else Inr 0) of
        Inl e \<Rightarrow> Inl e
      | Inr n_locations \<Rightarrow>
     (case (if str ''all_skills'' \<in> set (columns data)
            then apply_len (column data (str ''all_skills'')) else Inr []) of
        Inl e \<Rightarrow> Inl e
      | Inr skill_lens \<Rightarrow>
     (case (if str ''experience'' \<in> set (columns data)
            then apply_len (column data (str ''experience'')) else Inr []) of
        Inl e \<Rightarrow> Inl e
      | Inr experience_lens \<Rightarrow>
     (case (if str ''location'' \<in> set (columns data)
            then value_counts (column data (str ''location'')) else Inr []) of
        Inl e \<Rightarrow> Inl e
      | Inr location_counts \<Rightarrow>
     (case (if str ''source'' \<in> set (columns data)
            then value_counts (column data (str ''source'')) else Inr []) of
        Inl e \<Rightarrow> Inl e
      | Inr source_counts \<Rightarrow>
          Inr \<lparr>total_records = length (rows data),
               unique_locations = n_locations,
               records_with_skills = count_positive skill_lens,
               records_with_experience = count_positive experience_lens,
               avg_skills_per_record =
                 (if str ''all_skills'' \<in> set (columns data)
                  then float64 (of_nat (sum_list skill_lens) / of_nat (length skill_lens))
                  else 0),
               top_locations = take 10 location_counts,
               source_distribution = source_counts,
               experience_levels = analyze_experience_levels data\<rparr>)))))"

definition generate_summary_statistics :: "DataFrame \<Rightarrow> summary_stats" where
  "generate_summary_statistics data =
     (if df_empty data then zero_stats
      else (case compute_stats data of Inl e \<Rightarrow> zero_stats | Inr stats \<Rightarrow> stats))"

text \<open>
  When the entries can all be computed: every cell of \<open>all_skills\<close> and of \<open>experience\<close>
  has a length, and every cell of \<open>location\<close> and of \<open>source\<close> can be hashed (for the
  columns that the frame has).
\<close>

definition sized :: "pyval \<Rightarrow> bool" where
  "sized v \<longleftrightarrow> (case v of PStr s \<Rightarrow> True | PList xs \<Rightarrow> True | PDict kvs \<Rightarrow> True | _ \<Rightarrow> False)"

definition stats_computable :: "DataFrame \<Rightarrow> bool" where
  "stats_computable data \<longleftrightarrow>
     (str ''location'' \<in> set (columns data) \<longrightarrow> list_all hashable (column data (str ''location'')))
   \<and> (str ''all_skills'' \<in> set (columns data) \<longrightarrow> list_all sized (column data (str ''all_skills'')))
   \<and> (str ''experience'' \<in> set (columns data) \<longrightarrow> list_all sized (column data (str ''experience'')))
   \<and> (str ''source'' \<in> set (columns data) \<longrightarrow> list_all hashable (column data (str ''source'')))"

text \<open>The headline cells of a frame that are strings (none when it has no such column).\<close>

fun the_str :: "pyval \<Rightarrow> pystr list" where
  "the_str (PStr s) = [s]"
| "the_str v = []"

definition string_headlines :: "DataFrame \<Rightarrow> pystr list" where
  "string_headlines data =
     (if str ''headline'' \<in> set (columns data)
      then concat (map the_str (column data (str ''headline''))) else [])"

text \<open>The count that a dictionary of levels holds for a key (0 for a key it lacks).\<close>

definition level_count :: "(pystr \<times> nat) list \<Rightarrow> pystr \<Rightarrow> nat" where
  "level_count levels key = (case map_of levels key of Some n \<Rightarrow> n | None \<Rightarrow> 0)"

subsection \<open>AI analysis\<close>

text \<open>
  The dictionary that \<open>_prepare_data_summary\<close> builds for the prompt.  An entry is
  there only when the frame has the column it is computed from.  (The entry
  \<open>data_types\<close>, pandas' type of each column, is left to the LLM service below, which
  receives the frame.)
\<close>

record data_summary =
  summary_total_records :: nat
  summary_columns :: "pystr list"
  summary_top_locations :: "(pyval \<times> nat) list option"
  summary_common_skills :: "(pyval \<times> nat) list option"
  summary_avg_skills_per_record :: "rat option"
  summary_records_with_experience :: "nat option"
  summary_sources :: "(pyval \<times> nat) list option"

text \<open>
  \<open>_get_common_skills\<close>: the ten most frequent elements of the lists in \<open>all_skills\<close>;
  the empty dictionary when there is none or when counting raises (an element that cannot
  be hashed).
\<close>

fun list_items :: "pyval \<Rightarrow> pyval list" where
  "list_items (PList xs) = xs"
| "list_items v = []"

definition get_common_skills :: "DataFrame \<Rightarrow> (pyval \<times> nat) list" where
  "get_common_skills data =
     (if df_empty data \<or> str ''all_skills'' \<notin> set (columns data) then []
      else (let all_skills = concat (map list_items (column data (str ''all_skills'')))
            in if all_skills = [] then []
               else if list_all hashable all_skills
               then take 10 (sort_key (\<lambda>(v, n). - int n) (count_values all_skills []))
               else []))"

definition prepare_data_summary :: "DataFrame \<Rightarrow> exn + data_summary" where
  "prepare_data_summary data =
     (case (if str ''location'' \<in> set (columns data)
            then map_sum id Some (value_counts (column data (str ''location''))) else Inr None) of
        Inl e \<Rightarrow> Inl e
      | Inr location_counts \<Rightarrow>
     (case (if str ''all_skills'' \<in> set (columns data)
            then map_sum id Some (apply_len (column data (str ''all_skills''))) else Inr None) of
        Inl e \<Rightarrow> Inl e
      | Inr skill_lens \<Rightarrow>
     (case (if str ''experience'' \<in> set (columns data)
            then map_sum id Some (apply_len (column data (str ''experience''))) else Inr None) of
        Inl e \<Rightarrow> Inl e
      | Inr experience_lens \<Rightarrow>
     (case (if str ''source'' \<in> set (columns data)
            then map_sum id Some (value_counts (column data (str ''source''))) else Inr None) of
        Inl e \<Rightarrow> Inl e
      | Inr source_counts \<Rightarrow>
          Inr \<lparr>summary_total_records = length (rows data),
               summary_columns = columns data,
               summary_top_locations = map_option (take 5) location_counts,
               summary_common_skills =
                 (if str ''all_skills'' \<in> set (columns data) then Some (get_common_skills data)
                  else None),
               summary_avg_skills_per_record =
                 map_option (\<lambda>ns. float64 (of_nat (sum_list ns) / of_nat (length ns))) skill_lens,
               summary_records_with_experience = map_option count_positive experience_lens,
               summary_sources = source_counts\<rparr>))))"

text \<open>
  \<open>_parse_ai_response_manually\<close>: the loop over the lines of the response with its
  variable \<open>current_section\<close> and the three lists.
\<close>

datatype ai_section = Insights | Trends | Recommendations

fun manual_loop :: "pystr list \<Rightarrow> ai_section option \<Rightarrow> pystr list \<Rightarrow> pystr list \<Rightarrow> pystr list
     \<Rightarrow> pystr list \<times> pystr list \<times> pystr list" where
  "manual_loop [] current_section insights trends recommendations =
     (insights, trends, recommendations)"
| "manual_loop (raw # rest) current_section insights trends recommendations =
     (let line = strip raw; low = lower line in
      if py_in (str ''insight'') low \<or> py_in (str ''key'') low
      then manual_loop rest (Some Insights) insights trends recommendations
      else if py_in (str ''trend'') low
      then manual_loop rest (Some Trends) insights trends recommendations
      else if py_in (str ''recommendation'') low \<or> py_in (str ''suggestion'') low
      then manual_loop rest (Some Recommendations) insights trends recommendations
      else if startswith line [45] \<or> startswith line [8226] \<or> startswith line [42]
      then (let entry = strip (drop 1 line) in
            if current_section = Some Insights
            then manual_loop rest current_section (insights @ [entry]) trends recommendations
            else if current_section = Some Trends
            then manual_loop rest current_section insights (trends @ [entry]) recommendations
            else if current_section = Some Recommendations
            then manual_loop rest current_section insights trends (recommendations @ [entry])
            else manual_loop rest current_section insights trends recommendations)
      else manual_loop rest current_section insights trends recommendations)"

definition parse_ai_response_manually :: "pystr \<Rightarrow> pyval" where
  "parse_ai_response_manually content =
     (let (insights, trends, recommendations) = manual_loop (split_nl content) None [] [] []
      in PDict
           [(str ''key_insights'',
               PList (map PStr (if insights \<noteq> [] then take 3 insights
                                else [str ''Data analysis completed'']))),
            (str ''trends'',
               PList (map PStr (if trends \<noteq> [] then take 2 trends
                                else [str ''No specific trends identified'']))),
            (str ''recommendations'',
               PList (map PStr (if recommendations \<noteq> [] then take 2 recommendations
                                else [str ''Consider expanding your search criteria''])))])"

text \<open>
  What the report generator takes from outside:
  \<^item> \<open>llm_analysis\<close>: the stripped content of the LLM's answer to the prompt that
    \<open>_create_analysis_prompt\<close> builds from the search context, the data summary and the
    frame, or the exception of the request;
  \<^item> \<open>json_loads\<close>: \<open>json.loads\<close>, \<open>None\<close> for a \<open>JSONDecodeError\<close>;
  \<^item> \<open>py_str\<close>: \<open>str(v)\<close> for a value that is not a string;
  \<^item> \<open>exn_message\<close>: \<open>str(e)\<close> for an exception;
  \<^item> \<open>generated_at\<close>: the formatted current time.
\<close>

record report_services =
  llm_analysis :: "(pystr \<times> pyval) list \<Rightarrow> data_summary \<Rightarrow> DataFrame \<Rightarrow> exn + pystr"
  json_loads :: "pystr \<Rightarrow> pyval option"
  py_str :: "pyval \<Rightarrow> pystr"
  exn_message :: "exn \<Rightarrow> pystr"
  generated_at :: pystr

definition analysis_of :: "pystr \<Rightarrow> pyval" where
  "analysis_of insight =
     PDict [(str ''key_insights'', PList [PStr insight]), (str ''trends'', PList []),
            (str ''recommendations'', PList [])]"

text \<open>\<open>_generate_ai_analysis\<close>; any exception ends in the \<open>except\<close> branch.\<close>

definition generate_ai_analysis :: "report_services \<Rightarrow> (pystr \<times> pyval) list \<Rightarrow> DataFrame \<Rightarrow> pyval" where
  "generate_ai_analysis rs search_context data =
     (if df_empty data then analysis_of (str ''No data available for analysis'')
      else
        (case prepare_data_summary data of
           Inl e \<Rightarrow> analysis_of (str ''Unable to generate AI analysis due to technical issues'')
         | Inr data_summary \<Rightarrow>
             (case llm_analysis rs search_context data_summary data of
                Inl e \<Rightarrow> analysis_of (str ''Unable to generate AI analysis due to technical issues'')
              | Inr content \<Rightarrow>
                  (case json_loads rs content of
                     Some analysis \<Rightarrow> analysis
                   | None \<Rightarrow> parse_ai_response_manually content))))"

subsection \<open>The report\<close>

text \<open>
  \<open>class ReportGeneratorAgent\<close>.  A chart is a dictionary with the keys \<open>title\<close>,
  \<open>type\<close> and \<open>data\<close> (the image, base64-encoded).
\<close>

record ReportGeneratorAgent =
  report_data :: "DataFrame option"
  generated_charts :: "(pystr \<times> pyval) list list"
  search_context :: "(pystr \<times> pyval) list"

text \<open>The dictionary \<open>report_format\<close>, with the three keys that the workflow gives it.\<close>

record report_format =
  include_charts :: bool
  include_summary :: bool
  format :: pystr

text \<open>
  The rows of the two tables and the dictionary handed to the template, key by key
  (\<open>rd_\<close> for the keys of \<open>report_data\<close>).
\<close>

record li_row =
  li_name :: pyval
  li_headline :: pyval
  li_location :: pyval
  li_source :: pyval

record web_row =
  web_title :: pyval
  web_snippet :: pyval
  web_url :: pyval

record report_context =
  rd_generated_at :: pystr
  rd_total_records :: nat
  rd_ai_analysis :: pyval
  rd_summary_stats :: summary_stats
  rd_charts :: "(pystr \<times> pyval) list list"
  rd_sample_data :: "(pystr \<times> pyval) list list"
  rd_report_format :: report_format
  rd_user_input :: pyval
  rd_sources :: pyval
  rd_linkedin_profiles :: pyval
  rd_direct_answer :: pyval
  rd_has_linkedin :: bool
  rd_li_rows :: "li_row list"
  rd_web_rows :: "web_row list"

text \<open>\<open>a or b\<close>, and \<open>r.get(key)\<close>, which is \<open>None\<close> for a missing key.\<close>

definition py_or :: "pyval \<Rightarrow> pyval \<Rightarrow> pyval" where
  "py_or a b = (if truthy a then a else b)"

definition get :: "(pystr \<times> pyval) list \<Rightarrow> pystr \<Rightarrow> pyval" where
  "get r key = dict_get r key PNone"

text \<open>
  \<open>(r.get('source') or '').lower()\<close>: only a string has the method \<open>lower\<close>.
\<close>

definition source_lower :: "(pystr \<times> pyval) list \<Rightarrow> exn + pystr" where
  "source_lower r =
     (case py_or (get r (str ''source'')) (PStr []) of
        PStr s \<Rightarrow> Inr (lower s)
      | v \<Rightarrow> Inl (AttributeError v))"

text \<open>
  \<open>(r.get('summary') or '')[:220]\<close>: strings and lists can be sliced; a number cannot,
  nor can a dictionary (a \<open>TypeError\<close>; a \<open>KeyError\<close> from Python 3.12 on).
\<close>

definition summary_snippet :: "(pystr \<times> pyval) list \<Rightarrow> exn + pyval" where
  "summary_snippet r =
     (case py_or (get r (str ''summary'')) (PStr []) of
        PStr s \<Rightarrow> Inr (PStr (take 220 s))
      | PList xs \<Rightarrow> Inr (PList (take 220 xs))
      | v \<Rightarrow> Inl (TypeError v))"

text \<open>
  The three passes over \<open>sample_records\<close>: \<open>has_linkedin\<close> (\<open>any\<close> stops at the first
  LinkedIn record), \<open>li_rows\<close> and \<open>web_rows\<close>.
\<close>

fun has_linkedin_loop :: "(pystr \<times> pyval) list list \<Rightarrow> exn + bool" where
  "has_linkedin_loop [] = Inr False"
| "has_linkedin_loop (r # rs) =
     (case source_lower r of
        Inl e \<Rightarrow> Inl e
      | Inr s \<Rightarrow> if s = str ''linkedin'' then Inr True else has_linkedin_loop rs)"

fun li_rows_loop :: "(pystr \<times> pyval) list list \<Rightarrow> exn + li_row list" where
  "li_rows_loop [] = Inr []"
| "li_rows_loop (r # rs) =
     (case source_lower r of
        Inl e \<Rightarrow> Inl e
      | Inr s \<Rightarrow>
          (case li_rows_loop rs of
             Inl e \<Rightarrow> Inl e
           | Inr out \<Rightarrow>
               if s = str ''linkedin''
               then Inr (\<lparr>li_name = py_or (get r (str ''name'')) (PStr (str ''N/A'')),
                          li_headline = py_or (get r (str ''headline'')) (PStr (str ''N/A'')),
                          li_location = py_or (get r (str ''location'')) (PStr (str ''N/A'')),
                          li_source = py_or (get r (str ''source'')) (PStr (str ''N/A''))\<rparr> # out)
               else Inr out))"

fun web_rows_loop :: "(pystr \<times> pyval) list list \<Rightarrow> exn + web_row list" where
  "web_rows_loop [] = Inr []"
| "web_rows_loop (r # rs) =
     (case source_lower r of
        Inl e \<Rightarrow> Inl e
      | Inr s \<Rightarrow>
          if s \<noteq> str ''linkedin''
          then (case summary_snippet r of
                  Inl e \<Rightarrow> Inl e
                | Inr snip \<Rightarrow>
                    (case web_rows_loop rs of
                       Inl e \<Rightarrow> Inl e
                     | Inr out \<Rightarrow>
                         Inr (\<lparr>web_title = py_or (get r (str ''name''))
                                              (py_or (get r (str ''profile_url'')) (PStr (str ''N/A''))),
                               web_snippet = snip,
                               web_url = py_or (get r (str ''profile_url'')) (PStr [])\<rparr> # out)))
          else web_rows_loop rs)"

text \<open>The dictionary \<open>report_data\<close> of \<open>_create_report\<close>, or the first exception.\<close>

definition build_report_context ::
  "report_services \<Rightarrow> ReportGeneratorAgent \<Rightarrow> DataFrame \<Rightarrow> pyval \<Rightarrow> summary_stats \<Rightarrow> report_format
     \<Rightarrow> exn + report_context" where
  "build_report_context rs agent data ai_analysis stats fmt =
     (let sample_records = (if \<not> df_empty data then head_records 8 data else []) in
      case has_linkedin_loop sample_records of
        Inl e \<Rightarrow> Inl e
      | Inr has_linkedin \<Rightarrow>
     (case li_rows_loop sample_records of
        Inl e \<Rightarrow> Inl e
      | Inr li_rows \<Rightarrow>
     (case web_rows_loop sample_records of
        Inl e \<Rightarrow> Inl e
      | Inr web_rows \<Rightarrow>
          Inr \<lparr>rd_generated_at = generated_at rs,
               rd_total_records = length (rows data),
               rd_ai_analysis = ai_analysis,
               rd_summary_stats = stats,
               rd_charts = generated_charts agent,
               rd_sample_data = sample_records,
               rd_report_format = fmt,
               rd_user_input = dict_get (search_context agent) (str ''user_input'') (PStr []),
               rd_sources = dict_get (search_context agent) (str ''sources'') (PList []),
               rd_linkedin_profiles =
                 dict_get (search_context agent) (str ''linkedin_profiles'') (PList []),
               rd_direct_answer =
                 py_or (dict_get (search_context agent) (str ''answer'') (PStr []))
                       (dict_get (search_context agent) (str ''search_answer'') (PStr [])),
               rd_has_linkedin = has_linkedin,
               rd_li_rows = li_rows,
               rd_web_rows = web_rows\<rparr>)))"

subsection \<open>The template\<close>

text \<open>
  Rendering by Jinja2 with its default settings: text outside the tags is copied as it
  is (the line ends after block tags too), \<open>{{ v }}\<close> writes \<open>str(v)\<close>, the single
  line end at the end of the template is dropped.  An attribute that a value does not have
  is undefined, which counts as false; a loop over a value that cannot be iterated
  raises, as does the length of a value without one.
\<close>

definition to_text :: "report_services \<Rightarrow> pyval \<Rightarrow> pystr" where
  "to_text rs v = (case v of PStr s \<Rightarrow> s | _ \<Rightarrow> py_str rs v)"

fun py_iter :: "pyval \<Rightarrow> exn + pyval list" where
  "py_iter (PList xs) = Inr xs"
| "py_iter (PStr s) = Inr (map (\<lambda>c. PStr [c]) s)"
| "py_iter (PDict kvs) = Inr (map (\<lambda>(k, v). PStr k) kvs)"
| "py_iter v = Inl (TypeError v)"

text \<open>\<open>ai_analysis.key_insights\<close>: the entry of a dictionary, undefined otherwise.\<close>

definition key_insights :: "pyval \<Rightarrow> pyval option" where
  "key_insights ai_analysis =
     (case ai_analysis of PDict d \<Rightarrow> map_of d (str ''key_insights'') | _ \<Rightarrow> None)"

definition dash :: pystr where
  "dash = [8211]"

definition render_summary :: "report_services \<Rightarrow> report_context \<Rightarrow> exn + pystr" where
  "render_summary rs rc =
     (if truthy (rd_direct_answer rc)
      then Inr ([10] @ to_text rs (rd_direct_answer rc) @ [10])
      else (case key_insights (rd_ai_analysis rc) of
              None \<Rightarrow> Inr ([10] @ str ''- No executive insights available.'' @ [10])
            | Some insights \<Rightarrow>
                if truthy insights
                then (case py_iter insights of
                        Inl e \<Rightarrow> Inl e
                      | Inr items \<Rightarrow>
                          Inr ([10]
                               @ concat (map (\<lambda>insight. [10] @ str ''- '' @ to_text rs insight @ [10])
                                           items)
                               @ [10]))
                else Inr ([10] @ str ''- No executive insights available.'' @ [10])))"

definition render_li_row :: "report_services \<Rightarrow> li_row \<Rightarrow> pystr" where
  "render_li_row rs r =
     [10] @ str ''| '' @ to_text rs (li_name r) @ str '' | '' @ to_text rs (li_headline r)
       @ str '' | '' @ to_text rs (li_location r) @ str '' | '' @ to_text rs (li_source r)
       @ str '' |'' @ [10]"

definition render_linkedin :: "report_services \<Rightarrow> report_context \<Rightarrow> pystr" where
  "render_linkedin rs rc =
     (if rd_has_linkedin rc
      then [10] @ str ''## 3A. Core Data '' @ dash @ str '' LinkedIn Profiles'' @ [10, 10]
           @ str ''| Name | Headline | Location | Source |'' @ [10]
           @ str ''|------|----------|----------|--------|'' @ [10]
           @ concat (map (render_li_row rs) (rd_li_rows rc))
           @ [10, 10]
      else [])"

definition render_web_row :: "report_services \<Rightarrow> web_row \<Rightarrow> pystr" where
  "render_web_row rs w =
     [10] @ str ''| '' @ to_text rs (web_title w) @ str '' | '' @ to_text rs (web_snippet w)
       @ str '' |'' @ [10]"

definition render_sources :: "report_services \<Rightarrow> report_context \<Rightarrow> exn + pystr" where
  "render_sources rs rc =
     (if truthy (rd_sources rc)
      then (case py_len (rd_sources rc) of
              Inl e \<Rightarrow> Inl e
            | Inr n \<Rightarrow>
                if 0 < n
                then (case py_iter (rd_sources rc) of
                        Inl e \<Rightarrow> Inl e
                      | Inr items \<Rightarrow>
                          Inr ([10]
                               @ concat (map (\<lambda>u. [10] @ str ''- '' @ to_text rs u @ [10]) items)
                               @ [10]))
                else Inr ([10] @ str ''- N/A'' @ [10]))
      else Inr ([10] @ str ''- N/A'' @ [10]))"

definition render_template :: "report_services \<Rightarrow> report_context \<Rightarrow> exn + pystr" where
  "render_template rs rc =
     (case render_summary rs rc of
        Inl e \<Rightarrow> Inl e
      | Inr summary_part \<Rightarrow>
     (case render_sources rs rc of
        Inl e \<Rightarrow> Inl e
      | Inr sources_part \<Rightarrow>
          Inr ([10] @ str ''Generated on: '' @ rd_generated_at rc @ [10, 10]
               @ str ''---'' @ [10, 10]
               @ str ''# Research Report'' @ [10, 10]
               @ str ''---'' @ [10, 10]
               @ str ''## 1. Query Context & Objective'' @ [10, 10]
               @ str ''- User Query: ''
               @ (if truthy (rd_user_input rc) then to_text rs (rd_user_input rc) else str ''N/A'')
               @ [10]
               @ str ''- Interpreted Objective: Provide a concise, factual answer supported by reputable sources and profile evidence where available.''
               @ [10]
               @ str ''- Timeframe: Current'' @ [10]
               @ str ''- Intended Output Type: Analysis report'' @ [10, 10]
               @ str ''---'' @ [10, 10]
               @ str ''## 2. Executive Summary'' @ [10, 10]
               @ summary_part
               @ [10, 10] @ str ''---'' @ [10, 10]
               @ render_linkedin rs rc
               @ [10, 10] @ str ''## '' @ (if rd_has_linkedin rc then str ''3B'' else str ''3'')
               @ str ''. Core Data '' @ dash @ str '' Web Sources'' @ [10, 10]
               @ str ''| Title/URL | Snippet |'' @ [10]
               @ str ''|-----------|---------|'' @ [10]
               @ concat (map (render_web_row rs) (rd_web_rows rc))
               @ [10, 10] @ str ''---'' @ [10, 10]
               @ str ''## 4. Sources'' @ [10]
               @ sources_part
               @ [10, 10] @ str ''---'' @ [10]
               @ str ''Report generated by AI Agent System'')))"

text \<open>\<open>_create_report\<close>: an exception becomes the text of an error report.\<close>

definition create_report ::
  "report_services \<Rightarrow> ReportGeneratorAgent \<Rightarrow> DataFrame \<Rightarrow> pyval \<Rightarrow> summary_stats \<Rightarrow> report_format
     \<Rightarrow> pystr" where
  "create_report rs agent data ai_analysis stats fmt =
     (case build_report_context rs agent data ai_analysis stats fmt of
        Inl e \<Rightarrow> str ''Error generating report: '' @ exn_message rs e
      | Inr rc \<Rightarrow>
          (case render_template rs rc of
             Inl e \<Rightarrow> str ''Error generating report: '' @ exn_message rs e
           | Inr report_content \<Rightarrow> report_content))"

text \<open>
  \<open>generate_report\<close>, with the log of the components it calls.  Its callees catch their
  exceptions, so it raises nothing.
\<close>

definition generate_report ::
  "report_services \<Rightarrow> DataFrame \<Rightarrow> report_format \<Rightarrow> (pystr \<times> pyval) list
     \<Rightarrow> ReportGeneratorAgent \<times> component list \<Rightarrow> pystr \<times> ReportGeneratorAgent \<times> component list" where
  "generate_report rs cleaned fmt context al =
     (let (agent, tr) = al;
          agent = agent\<lparr>report_data := Some cleaned\<rparr>;
          agent = agent\<lparr>search_context := context\<rparr>;
          agent = agent\<lparr>generated_charts := []\<rparr>;
          tr = tr @ [AIAnalysisWriter];
          ai_analysis = generate_ai_analysis rs (search_context agent) cleaned;
          tr = tr @ [StatisticsSummarizer];
          stats = generate_summary_statistics cleaned;
          tr = tr @ [TemplateRenderer];
          report_content = create_report rs agent cleaned ai_analysis stats fmt
      in (report_content, agent, tr))"

section \<open>Workflow (\<open>main.py\<close>)\<close>

text \<open>
  An element of \<open>self.scraped_data\<close>: a pydantic model, or a plain dictionary
  (\<open>_step_prepare_dataframe\<close> supports both), and its dictionary
  \<open>item.dict() if hasattr(item, 'dict') else dict(item)\<close>.
\<close>

datatype scraped_item = Model ScrapedData | Mapping "(pystr \<times> pyval) list"

fun item_dict :: "scraped_item \<Rightarrow> (pystr \<times> pyval) list" where
  "item_dict (Model m) =
     [(str ''profile_url'', PStr (profile_url m)),
      (str ''name'', PStr (name m)),
      (str ''headline'', PStr (headline m)),
      (str ''location'', PStr (location m)),
      (str ''summary'', PStr (summary m)),
      (str ''experience'', PList (map PDict (experience m))),
      (str ''skills'', PList (map PStr (skills m))),
      (str ''education'', PList (map PDict (education m))),
      (str ''contact_info'', PDict (contact_info m)),
      (str ''scraped_at'', PStr (scraped_at m)),
      (str ''source'', PStr (source m))]"
| "item_dict (Mapping d) = d"

text \<open>The dictionary appended to \<open>records\<close> for one item, and \<open>to_list_safe\<close>.\<close>

definition build_record :: "(pystr \<times> pyval) list \<Rightarrow> (pystr \<times> pyval) list" where
  "build_record row =
     [(str ''profile_url'', dict_get row (str ''profile_url'') (PStr [])),
      (str ''name'', dict_get row (str ''name'') (PStr (str ''Unknown''))),
      (str ''headline'', dict_get row (str ''headline'') (PStr [])),
      (str ''location'', dict_get row (str ''location'') (PStr [])),
      (str ''summary'', dict_get row (str ''summary'') (PStr [])),
      (str ''experience'', dict_get row (str ''experience'') (PList [])),
      (str ''skills'', dict_get row (str ''skills'') (PList [])),
      (str ''education'', dict_get row (str ''education'') (PList [])),
      (str ''source'', dict_get row (str ''source'') (PStr (str ''Unknown'')))]"

definition to_list_safe :: "pyval \<Rightarrow> pyval" where
  "to_list_safe v = (case v of PList xs \<Rightarrow> PList xs | _ \<Rightarrow> PList [])"

definition web_answer_record :: "pyval \<Rightarrow> (pystr \<times> pyval) list" where
  "web_answer_record ans =
     [(str ''profile_url'', PStr []),
      (str ''name'', PStr (str ''Web Answer'')),
      (str ''headline'', PStr []),
      (str ''location'', PStr []),
      (str ''summary'', ans),
      (str ''experience'', PList []),
      (str ''skills'', PList []),
      (str ''education'', PList []),
      (str ''source'', PStr (str ''Compound-Beta''))]"

text \<open>
  \<open>class ManusCloneWorkflow\<close>: the three agents and the four fields, with the log of
  component calls of the run (\<open>trace\<close>); the task executor writes its calls to the same
  log.
\<close>

record ManusCloneWorkflow =
  task_executor_agent :: TaskExecutorAgent
  task_updater_agent :: TaskUpdaterAgent
  report_generator_agent :: ReportGeneratorAgent
  user_input :: pystr
  scraped_data :: "scraped_item list"
  cleaned_data :: "DataFrame option"
  final_report :: "pystr option"
  trace :: "component list"

text \<open>
  The state after \<open>__init__\<close>; \<open>user_input\<close> is \<open>None\<close> there and is set before it is
  read.
\<close>

definition init_workflow :: "rat \<Rightarrow> ManusCloneWorkflow" where
  "init_workflow now =
     \<lparr>task_executor_agent = init_executor,
      task_updater_agent = init_tracker now,
      report_generator_agent = \<lparr>report_data = None, generated_charts = [], search_context = []\<rparr>,
      user_input = [],
      scraped_data = [],
      cleaned_data = None,
      final_report = None,
      trace = []\<rparr>"

definition logged :: "component \<Rightarrow> ManusCloneWorkflow \<Rightarrow> ManusCloneWorkflow" where
  "logged c w = w\<lparr>trace := trace w @ [c]\<rparr>"

text \<open>
  The three steps.  \<open>now\<close> stands for the clock readings of the step; the \<open>print\<close>
  calls and the flag \<open>verbose\<close>, which only switches some of them on, are left out.  In
  each step the callees catch their exceptions, so the \<open>except\<close> branch of the step is not
  reached.
\<close>

definition step_task_execution :: "services \<Rightarrow> rat \<Rightarrow> int \<Rightarrow> ManusCloneWorkflow \<Rightarrow> ManusCloneWorkflow" where
  "step_task_execution sv now max_results w =
     (let tid = str ''task_execution'';
          w = w\<lparr>task_updater_agent := create_task now tid LINKEDIN_SCRAPING (task_updater_agent w)\<rparr>;
          w = w\<lparr>task_updater_agent :=
                  update_task_status float64 now tid IN_PROGRESS (Some 0) None None
                    (task_updater_agent w)\<rparr>;
          agent = execute_tasks sv (user_input w) max_results
                    ((task_executor_agent w)\<lparr>calls := trace w\<rparr>);
          w = w\<lparr>task_executor_agent := agent, trace := calls agent,
                 scraped_data := map Model (TaskExecutorAgent.scraped_data agent)\<rparr>;
          w = (if scraped_data w \<noteq> [] then logged FilePersistence w else w)
      in w\<lparr>task_updater_agent :=
             update_task_status float64 now tid COMPLETED (Some 100) None
               (Some [(str ''scraped_records'', PInt (int (length (scraped_data w))))])
               (task_updater_agent w)\<rparr>)"

definition step_prepare_dataframe ::
  "(pyval list \<Rightarrow> pyval \<Rightarrow> pyval) \<Rightarrow> rat \<Rightarrow> ManusCloneWorkflow \<Rightarrow> ManusCloneWorkflow" where
  "step_prepare_dataframe infer now w =
     (let tid = str ''prepare_dataframe'';
          w = w\<lparr>task_updater_agent := create_task now tid DATA_CLEANING (task_updater_agent w)\<rparr>;
          w = w\<lparr>task_updater_agent :=
                  update_task_status float64 now tid IN_PROGRESS (Some 0) None None
                    (task_updater_agent w)\<rparr>;
          records = map (\<lambda>item. build_record (item_dict item)) (scraped_data w);
          w = logged DataAssembler w;
          df = from_records infer records;
          df = (if \<not> df_empty df
                then df_assign df (str ''all_skills'') (map to_list_safe (column df (str ''skills'')))
                else df);
          ans = get (last_search_context (task_executor_agent w)) (str ''answer'');
          df = (if truthy ans \<and> df_empty df then from_records infer [web_answer_record ans] else df);
          w = w\<lparr>cleaned_data := Some df\<rparr>;
          w = (if \<not> df_empty df then logged FilePersistence w else w)
      in w\<lparr>task_updater_agent :=
             update_task_status float64 now tid COMPLETED (Some 100) None
               (Some [(str ''cleaned_records'', PInt (int (length (rows df))))])
               (task_updater_agent w)\<rparr>)"

definition no_data_report :: pystr where
  "no_data_report = str ''# No Data Report'' @ [10, 10] @ str ''No data was available for analysis.''"

definition step_report_generation :: "report_services \<Rightarrow> rat \<Rightarrow> ManusCloneWorkflow \<Rightarrow> ManusCloneWorkflow" where
  "step_report_generation rs now w =
     (let tid = str ''report_generation'';
          w = w\<lparr>task_updater_agent := create_task now tid REPORT_GENERATION (task_updater_agent w)\<rparr>;
          w = w\<lparr>task_updater_agent :=
                  update_task_status float64 now tid IN_PROGRESS (Some 0) None None
                    (task_updater_agent w)\<rparr>;
          w = (case cleaned_data w of
                 None \<Rightarrow> w\<lparr>final_report := Some no_data_report\<rparr>
               | Some df \<Rightarrow>
                   if df_empty df then w\<lparr>final_report := Some no_data_report\<rparr>
                   else
                     (let fmt = \<lparr>include_charts = False, include_summary = True,
                                 format = str ''markdown''\<rparr>;
                          lsc = last_search_context (task_executor_agent w);
                          ctx = [(str ''user_input'', PStr (user_input w)),
                                 (str ''answer'', dict_get lsc (str ''answer'') (PStr [])),
                                 (str ''search_answer'', dict_get lsc (str ''answer'') (PStr [])),
                                 (str ''sources'', dict_get lsc (str ''sources'') (PList [])),
                                 (str ''linkedin_profiles'',
                                    dict_get lsc (str ''linkedin_profiles'') (PList []))];
                          (report, agent, tr) =
                             generate_report rs df fmt ctx (report_generator_agent w, trace w);
                          w = w\<lparr>report_generator_agent := agent, trace := tr,
                                 final_report := Some report\<rparr>
                      in if report \<noteq> [] then logged FilePersistence w else w));
          report_length = (case final_report w of None \<Rightarrow> 0 | Some r \<Rightarrow> int (length r))
      in w\<lparr>task_updater_agent :=
             update_task_status float64 now tid COMPLETED (Some 100) None
               (Some [(str ''report_length'', PInt report_length)])
               (task_updater_agent w)\<rparr>)"

text \<open>The dictionary of \<open>_prepare_final_results\<close> (without its time stamp).\<close>

record workflow_results =
  result_user_input :: pystr
  scraped_data_count :: nat
  cleaned_data_count :: nat
  report_generated :: bool
  result_final_report :: "pystr option"
  final_report_preview :: "pystr option"
  workflow_status :: pystr

definition prepare_final_results :: "ManusCloneWorkflow \<Rightarrow> workflow_results" where
  "prepare_final_results w =
     \<lparr>result_user_input = user_input w,
      scraped_data_count = length (scraped_data w),
      cleaned_data_count = (case cleaned_data w of None \<Rightarrow> 0 | Some df \<Rightarrow> length (rows df)),
      report_generated = (final_report w \<noteq> None),
      result_final_report = final_report w,
      final_report_preview =
        (case final_report w of
           None \<Rightarrow> None
         | Some r \<Rightarrow> if 300 < length r then Some (take 300 r @ str ''...'') else Some r),
      workflow_status = str ''completed''\<rparr>"

text \<open>\<open>execute_workflow\<close>: the result dictionary and the state it leaves.\<close>

definition execute_workflow ::
  "services \<Rightarrow> report_services \<Rightarrow> (pyval list \<Rightarrow> pyval \<Rightarrow> pyval) \<Rightarrow> rat \<Rightarrow> pystr \<Rightarrow> int
     \<Rightarrow> ManusCloneWorkflow \<Rightarrow> workflow_results \<times> ManusCloneWorkflow" where
  "execute_workflow sv rs infer now request max_results w =
     (let w = w\<lparr>user_input := request\<rparr>;
          w = w\<lparr>task_updater_agent := reset_workflow now (task_updater_agent w)\<rparr>;
          w = step_task_execution sv now max_results w;
          w = step_prepare_dataframe infer now w;
          w = step_report_generation rs now w
      in (prepare_final_results w, w))"

text \<open>
  The table as the specification describes it: the nine fields of a record with their
  defaults, each as pandas stores it in its column, and the derived column
  \<open>all_skills\<close>.  \<open>ds\<close> are the dictionaries of all the records, \<open>d\<close> the one of the
  row.
\<close>

definition record_keys :: "pystr list" where
  "record_keys = map str [''profile_url'', ''name'', ''headline'', ''location'', ''summary'',
     ''experience'', ''skills'', ''education'', ''source'']"

definition field_defaults :: "(pystr \<times> pyval) list" where
  "field_defaults =
     [(str ''profile_url'', PStr []), (str ''name'', PStr (str ''Unknown'')),
      (str ''headline'', PStr []), (str ''location'', PStr []), (str ''summary'', PStr []),
      (str ''experience'', PList []), (str ''skills'', PList []), (str ''education'', PList []),
      (str ''source'', PStr (str ''Unknown''))]"

definition stored ::
  "(pyval list \<Rightarrow> pyval \<Rightarrow> pyval) \<Rightarrow> (pystr \<times> pyval) list list \<Rightarrow> (pystr \<times> pyval) list
     \<Rightarrow> pystr \<Rightarrow> pyval \<Rightarrow> pyval" where
  "stored infer ds d key dflt = infer (map (\<lambda>d'. dict_get d' key dflt) ds) (dict_get d key dflt)"

definition table_row ::
  "(pyval list \<Rightarrow> pyval \<Rightarrow> pyval) \<Rightarrow> (pystr \<times> pyval) list list \<Rightarrow> (pystr \<times> pyval) list
     \<Rightarrow> (pystr \<times> pyval) list" where
  "table_row infer ds d =
     map (\<lambda>(key, dflt). (key, stored infer ds d key dflt)) field_defaults
     @ [(str ''all_skills'', to_list_safe (dict_get d (str ''skills'') (PList [])))]"

text \<open>
  The place of a component in the order of calls, and the property of a log that no
  component is called after one with a later place.  File persistence has no place of its
  own: every stage saves what it produced.
\<close>

fun rank :: "component \<Rightarrow> nat" where
  "rank IntentClassifier = 0"
| "rank QueryGenerator = 1"
| "rank WebSearchExecutor = 2"
| "rank LinkedInScraper = 3"
| "rank UrlEnricher = 4"
| "rank DataAssembler = 5"
| "rank AIAnalysisWriter = 6"
| "rank StatisticsSummarizer = 7"
| "rank TemplateRenderer = 8"
| "rank FilePersistence = 9"

definition in_call_order :: "component list \<Rightarrow> bool" where
  "in_call_order tr \<longleftrightarrow> sorted (map rank (filter (\<lambda>c. c \<noteq> FilePersistence) tr))"

text \<open>
  A stretch of the log: its components, file persistence apart, have places between
  \<open>lo\<close> and \<open>hi\<close>, and are in call order.
\<close>

definition seg :: "nat \<Rightarrow> nat \<Rightarrow> component list \<Rightarrow> bool" where
  "seg lo hi xs \<longleftrightarrow>
     (\<forall>c\<in>set xs. c = FilePersistence \<or> (lo \<le> rank c \<and> rank c \<le> hi)) \<and> in_call_order xs"

section \<open>HTTP API (\<open>api_server.py\<close>)\<close>

text \<open>\<open>class RunRequest(BaseModel)\<close> and \<open>class JobState(BaseModel)\<close>.\<close>

record RunRequest =
  input :: pystr
  max_results :: int
  verbose :: bool

record JobState =
  id' :: pystr
  status :: pystr
  created_at :: pystr
  updated_at :: pystr
  input :: pystr
  max_results :: int
  verbose :: bool
  progress :: rat
  logs :: "pystr list"
  results :: "(pystr \<times> pyval) list option"
  error :: "pystr option"

text \<open>
  The server's state: the module-level dictionary \<open>jobs\<close>, and the job ids for which
  \<open>asyncio.create_task(_run_workflow_background(job_id))\<close> has scheduled a background run.
\<close>

record api_state =
  jobs :: "pystr \<rightharpoonup> JobState"
  scheduled :: "pystr list"

text \<open>
  \<open>api_run\<close>.  The fresh \<open>uuid.uuid4().hex[:12]\<close> and the timestamp come from the
  environment and are arguments here.  The result is the raised \<open>HTTPException\<close> or the
  returned \<open>job_id\<close>, with the state after the call.
\<close>

definition api_run :: "pystr \<Rightarrow> pystr \<Rightarrow> RunRequest \<Rightarrow> api_state \<Rightarrow> (exn + pystr) \<times> api_state" where
  "api_run job_id now req st =
     (if RunRequest.input req = [] \<or> strip (RunRequest.input req) = []
      then (Inl (HTTPException 400 (str ''input is required'')), st)
      else
        (let job = \<lparr>id' = job_id,
                    status = str ''queued'',
                    created_at = now,
                    updated_at = now,
                    input = strip (RunRequest.input req),
                    max_results = max (RunRequest.max_results req) 1,
                    verbose = RunRequest.verbose req,
                    progress = 0,
                    logs = [str ''Job queued'', str ''Input: '' @ strip (RunRequest.input req)],
                    results = None,
                    error = None\<rparr>
         in (Inr job_id,
             st\<lparr>jobs := (jobs st)(job_id \<mapsto> job), scheduled := scheduled st @ [job_id]\<rparr>)))"

chapter \<open>Properties\<close>

section \<open>Strings\<close>

lemma startswith_append: "startswith s p \<longleftrightarrow> (\<exists>ss. s = p @ ss)"
  unfolding startswith_def
  by (metis append_eq_conv_conj append_take_drop_id)

lemma py_in_sublist: "py_in sub s \<longleftrightarrow> sublist sub s"
proof (induction s)
  case Nil
  then show ?case by (auto simp: sublist_def)
next
  case (Cons c cs)
  have "sublist sub (c # cs) \<longleftrightarrow> prefix sub (c # cs) \<or> sublist sub cs"
    by (simp add: sublist_Cons_right)
  moreover have "startswith (c # cs) sub \<longleftrightarrow> prefix sub (c # cs)"
    by (simp add: startswith_append prefix_def)
  ultimately show ?case using Cons.IH by simp
qed

lemma list_ex_py_in: "list_ex (\<lambda>k. py_in k s) ks \<longleftrightarrow> (\<exists>k\<in>set ks. sublist k s)"
  by (simp add: list_ex_iff py_in_sublist)

lemma rstrip_empty: "rstrip s = [] \<longleftrightarrow> (\<forall>c\<in>set s. py_isspace c)"
  unfolding rstrip_def by (simp add: dropWhile_eq_Nil_conv)

lemma strip_empty: "strip s = [] \<longleftrightarrow> (\<forall>c\<in>set s. py_isspace c)"
proof -
  have "strip s = [] \<longleftrightarrow> (\<forall>c\<in>set (dropWhile py_isspace s). py_isspace c)"
    by (simp add: strip_def lstrip_def rstrip_empty)
  also have "\<dots> \<longleftrightarrow> (\<forall>c\<in>set s. py_isspace c)"
  proof
    assume r: "\<forall>c\<in>set (dropWhile py_isspace s). py_isspace c"
    have "dropWhile py_isspace s = []"
    proof (rule ccontr)
      assume "dropWhile py_isspace s \<noteq> []"
      then have "\<not> py_isspace (hd (dropWhile py_isspace s))"
        and "hd (dropWhile py_isspace s) \<in> set (dropWhile py_isspace s)"
        by (simp_all add: hd_dropWhile)
      with r show False by blast
    qed
    then show "\<forall>c\<in>set s. py_isspace c"
      by (simp add: dropWhile_eq_Nil_conv)
  next
    assume "\<forall>c\<in>set s. py_isspace c"
    then show "\<forall>c\<in>set (dropWhile py_isspace s). py_isspace c"
      using set_dropWhileD by fastforce
  qed
  finally show ?thesis .
qed

section \<open>Deduplication of search results\<close>

lemma dedup_loop_acc: "dedup_loop rs seen acc = acc @ dedup_loop rs seen []"
proof (induction rs arbitrary: seen acc)
  case Nil
  then show ?case by simp
next
  case (Cons r rs)
  show ?case
    using Cons.IH[of "insert (url r) seen" "acc @ [r]"] Cons.IH[of seen "acc @ [r]"]
      Cons.IH[of seen acc] Cons.IH[of "insert (url r) seen" "[r]"] Cons.IH[of seen "[r]"]
    by simp
qed

lemma dedup_loop_Cons:
  "dedup_loop (r # rs) seen [] =
     (if url r \<noteq> [] \<and> url r \<notin> seen then r # dedup_loop rs (insert (url r) seen) []
      else if url r = [] then r # dedup_loop rs seen []
      else dedup_loop rs seen [])"
  using dedup_loop_acc[of rs "insert (url r) seen" "[r]"] dedup_loop_acc[of rs seen "[r]"]
  by simp

lemma dedup_loop_subseq: "subseq (dedup_loop rs seen []) rs"
  by (induction rs arbitrary: seen) (simp_all only: dedup_loop.simps(1) dedup_loop_Cons, auto)

lemma dedup_loop_fresh:
  "r \<in> set (dedup_loop rs seen []) \<Longrightarrow> url r \<noteq> [] \<Longrightarrow> url r \<notin> seen"
proof (induction rs arbitrary: seen)
  case Nil
  then show ?case by simp
next
  case (Cons a rs)
  then show ?case
    by (auto simp add: dedup_loop_Cons simp del: dedup_loop.simps(2) split: if_splits)
qed

lemma dedup_loop_distinct:
  "distinct (filter (\<lambda>u. u \<noteq> []) (map url (dedup_loop rs seen [])))"
proof (induction rs arbitrary: seen)
  case Nil
  then show ?case by simp
next
  case (Cons a rs)
  have "url a \<notin> url ` set (dedup_loop rs (insert (url a) seen) [])" if "url a \<noteq> []"
    using dedup_loop_fresh[of _ rs "insert (url a) seen"] that by force
  then show ?case
    using Cons.IH[of seen] Cons.IH[of "insert (url a) seen"]
    by (simp add: dedup_loop_Cons del: dedup_loop.simps(2))
qed

lemma dedup_loop_first:
  "rs = pre @ r # post \<Longrightarrow> url r \<noteq> [] \<Longrightarrow> url r \<notin> url ` set pre \<Longrightarrow> url r \<notin> seen
    \<Longrightarrow> r \<in> set (dedup_loop rs seen [])"
proof (induction pre arbitrary: rs seen)
  case Nil
  then show ?case by (simp add: dedup_loop_Cons del: dedup_loop.simps(2))
next
  case (Cons a pre)
  have "r \<in> set (dedup_loop (pre @ r # post) s [])" if "url r \<notin> s" for s
    using Cons.IH[OF refl Cons.prems(2) _ that] Cons.prems(3) by simp
  with Cons.prems show ?case
    by (auto simp add: dedup_loop_Cons simp del: dedup_loop.simps(2))
qed

lemma dedup_loop_empty_urls:
  "filter (\<lambda>r. url r = []) (dedup_loop rs seen []) = filter (\<lambda>r. url r = []) rs"
  by (induction rs arbitrary: seen) (simp_all add: dedup_loop_Cons del: dedup_loop.simps(2))

lemma dedup_loop_idem:
  "dedup_loop (dedup_loop rs seen []) seen [] = dedup_loop rs seen []"
proof (induction rs arbitrary: seen)
  case Nil
  then show ?case by simp
next
  case (Cons a rs)
  show ?case
  proof (cases "url a \<noteq> [] \<and> url a \<notin> seen")
    case True
    then show ?thesis
      using Cons.IH[of "insert (url a) seen"]
      by (simp add: dedup_loop_Cons del: dedup_loop.simps(2))
  next
    case False
    then show ?thesis
      using Cons.IH[of seen]
      by (cases "url a = []") (simp_all add: dedup_loop_Cons del: dedup_loop.simps(2))
  qed
qed

text \<open>
  Claim C8.  For every list of search results, \<open>_deduplicate_results\<close> keeps the results
  it returns in their order in the input (its output is a subsequence of the input); no
  non-empty URL occurs twice in the output; the result kept for a non-empty URL is its
  first occurrence; the results with an empty URL are all kept; and deduplicating the
  output again changes nothing.
\<close>

theorem deduplicate_results_properties:
  "subseq (deduplicate_results rs) rs
   \<and> distinct (filter (\<lambda>u. u \<noteq> []) (map url (deduplicate_results rs)))
   \<and> (\<forall>pre r post. rs = pre @ r # post \<and> url r \<noteq> [] \<and> url r \<notin> url ` set pre
         \<longrightarrow> r \<in> set (deduplicate_results rs))
   \<and> filter (\<lambda>r. url r = []) (deduplicate_results rs) = filter (\<lambda>r. url r = []) rs
   \<and> deduplicate_results (deduplicate_results rs) = deduplicate_results rs"
proof -
  have first: "r \<in> set (deduplicate_results rs)"
    if "rs = pre @ r # post" "url r \<noteq> []" "url r \<notin> url ` set pre" for pre r post
    unfolding deduplicate_results_def
    using dedup_loop_first[OF that] by simp
  show ?thesis
    using first
    unfolding deduplicate_results_def
    by (simp add: dedup_loop_subseq dedup_loop_distinct dedup_loop_empty_urls dedup_loop_idem)
qed

theorem deduplicate_results_witness:
  "deduplicate_results
     [\<lparr>title = str ''A'', url = str ''http://a'', snippet = [], source = str ''web'', relevance_score = 7/10\<rparr>,
      \<lparr>title = str ''B'', url = [], snippet = [], source = str ''search'', relevance_score = 3/10\<rparr>,
      \<lparr>title = str ''C'', url = str ''http://a'', snippet = [], source = str ''web'', relevance_score = 6/10\<rparr>]
   = [\<lparr>title = str ''A'', url = str ''http://a'', snippet = [], source = str ''web'', relevance_score = 7/10\<rparr>,
      \<lparr>title = str ''B'', url = [], snippet = [], source = str ''search'', relevance_score = 3/10\<rparr>]
   \<and> \<lparr>title = str ''A'', url = str ''http://a'', snippet = [], source = str ''web'', relevance_score = 7/10\<rparr>
       \<in> set (deduplicate_results
     [\<lparr>title = str ''A'', url = str ''http://a'', snippet = [], source = str ''web'', relevance_score = 7/10\<rparr>,
      \<lparr>title = str ''B'', url = [], snippet = [], source = str ''search'', relevance_score = 3/10\<rparr>,
      \<lparr>title = str ''C'', url = str ''http://a'', snippet = [], source = str ''web'', relevance_score = 6/10\<rparr>])"
proof -
  let ?a = "\<lparr>title = str ''A'', url = str ''http://a'', snippet = [], source = str ''web'', relevance_score = 7/10\<rparr>"
  let ?b = "\<lparr>title = str ''B'', url = [], snippet = [], source = str ''search'', relevance_score = 3/10\<rparr>"
  let ?c = "\<lparr>title = str ''C'', url = str ''http://a'', snippet = [], source = str ''web'', relevance_score = 6/10\<rparr>"
  note first = deduplicate_results_properties[of "[?a, ?b, ?c]", THEN conjunct2, THEN conjunct2,
      THEN conjunct1, rule_format, of "[]" ?a "[?b, ?c]"]
  have "url ?a \<noteq> []" by (simp add: str_def)
  then have "?a \<in> set (deduplicate_results [?a, ?b, ?c])"
    by (intro first) simp_all
  moreover have "deduplicate_results [?a, ?b, ?c] = [?a, ?b]"
    by (simp add: deduplicate_results_def str_def)
  ultimately show ?thesis by simp
qed

section \<open>Intent classification\<close>

text \<open>
  Claim C2.  For every input string, \<open>_analyze_task_type\<close> is keyword matching on the
  lower-cased input with a fixed precedence: \<open>linkedin_search\<close> when a LinkedIn keyword
  occurs in it, else \<open>web_only\<close> when a fact keyword does, else \<open>data_scraping\<close> when
  one of scrape, extract, data from, crawl does, else \<open>web_search\<close> when one of search,
  find, look for does, else \<open>web_only\<close>.  Two inputs in whose lower-cased forms the same
  keywords occur get the same result.
\<close>

theorem analyze_task_type_keywords:
  "analyze_task_type request = classify_by_keywords (\<lambda>k. sublist k (lower request))
   \<and> ((\<forall>k\<in>set (linkedin_keywords @ fact_keywords @ scraping_keywords @ search_keywords).
          sublist k (lower request) \<longleftrightarrow> sublist k (lower other_request))
        \<longrightarrow> analyze_task_type request = analyze_task_type other_request)"
proof -
  have eq: "analyze_task_type u = classify_by_keywords (\<lambda>k. sublist k (lower u))" for u
    unfolding analyze_task_type_def classify_by_keywords_def Let_def list_ex_py_in
      linkedin_keywords_def scraping_keywords_def search_keywords_def
    by (rule refl)
  have "classify_by_keywords (\<lambda>k. sublist k (lower request))
          = classify_by_keywords (\<lambda>k. sublist k (lower other_request))"
    if "\<forall>k\<in>set (linkedin_keywords @ fact_keywords @ scraping_keywords @ search_keywords).
          sublist k (lower request) \<longleftrightarrow> sublist k (lower other_request)"
    using that unfolding classify_by_keywords_def by simp
  then show ?thesis
    using eq by simp
qed

theorem analyze_task_type_witness:
  "analyze_task_type (str ''Find Ada'') = str ''web_search''
   \<and> analyze_task_type (str ''find Bob'') = str ''web_search''"
proof -
  have same: "\<forall>k\<in>set (linkedin_keywords @ fact_keywords @ scraping_keywords @ search_keywords).
          sublist k (lower (str ''Find Ada'')) \<longleftrightarrow> sublist k (lower (str ''find Bob''))"
    unfolding py_in_sublist[symmetric]
    by (simp add: linkedin_keywords_def fact_keywords_def scraping_keywords_def
        search_keywords_def str_def lower_def lower_cps_def lower_cp_def startswith_def)
  have "analyze_task_type (str ''Find Ada'') = analyze_task_type (str ''find Bob'')"
    using analyze_task_type_keywords[of "str ''Find Ada''" "str ''find Bob''"] same by blast
  moreover have "analyze_task_type (str ''find Bob'') = str ''web_search''"
    by (simp add: analyze_task_type_def fact_keywords_def str_def lower_def lower_cps_def lower_cp_def
        startswith_def)
  ultimately show ?thesis by simp
qed

section \<open>Rate limiting\<close>

text \<open>
  Claim C3.  With a delay of 3 seconds and a clock that does not run backwards between the
  two readings of \<open>_rate_limit\<close>: when less than the delay has passed since
  \<open>last_api_call\<close>, \<open>_rate_limit\<close> asks \<open>asyncio.sleep\<close> for exactly the remaining time,
  and otherwise it does not sleep; in both cases it then sets \<open>last_api_call\<close> to the
  current time and leaves the delay as it is; the new \<open>last_api_call\<close> is at least 3
  seconds after the old one, so the times recorded by two consecutive calls of
  \<open>_rate_limit\<close> are at least 3 seconds apart, whatever time passes between them.
\<close>

theorem rate_limit_spacing:
  assumes "rate_limit_delay s = 3" and "0 \<le> elapsed" and "0 \<le> elapsed'"
  shows "fst (rate_limit elapsed s) =
           (if clock s - last_api_call s < 3 then Some (3 - (clock s - last_api_call s)) else None)
         \<and> last_api_call (snd (rate_limit elapsed s)) = clock (snd (rate_limit elapsed s))
         \<and> rate_limit_delay (snd (rate_limit elapsed s)) = 3
         \<and> last_api_call s + 3 \<le> last_api_call (snd (rate_limit elapsed s))
         \<and> last_api_call (snd (rate_limit elapsed s)) + 3
             \<le> last_api_call (snd (rate_limit elapsed' (tick d (snd (rate_limit elapsed s)))))"
proof -
  have step: "last_api_call t + 3 \<le> last_api_call (snd (rate_limit e t))"
    if "rate_limit_delay t = 3" "0 \<le> e" for t e
    using that by (simp add: rate_limit_def Let_def)
  have keep: "rate_limit_delay (snd (rate_limit elapsed s)) = 3"
    using assms(1) by (simp add: rate_limit_def Let_def)
  then have "rate_limit_delay (tick d (snd (rate_limit elapsed s))) = 3"
    by (simp add: tick_def)
  from step[OF this assms(3)]
  have "last_api_call (snd (rate_limit elapsed s)) + 3
          \<le> last_api_call (snd (rate_limit elapsed' (tick d (snd (rate_limit elapsed s)))))"
    by (simp add: tick_def)
  moreover have "fst (rate_limit elapsed s) =
      (if clock s - last_api_call s < 3 then Some (3 - (clock s - last_api_call s)) else None)"
    using assms(1) by (simp add: rate_limit_def Let_def)
  moreover have "last_api_call (snd (rate_limit elapsed s)) = clock (snd (rate_limit elapsed s))"
    by (simp add: rate_limit_def Let_def)
  ultimately show ?thesis
    using keep step[OF assms(1,2)] by simp
qed

theorem rate_limit_spacing_witness:
  "fst (rate_limit (1/100) \<lparr>last_api_call = 100, rate_limit_delay = 3, clock = 101\<rparr>) = Some 2
   \<and> last_api_call (snd (rate_limit (1/100) \<lparr>last_api_call = 100, rate_limit_delay = 3, clock = 101\<rparr>))
       = 10301/100
   \<and> fst (rate_limit 0 (init_rate_state 1700000000)) = None"
proof -
  have "rate_limit_delay \<lparr>last_api_call = 100, rate_limit_delay = 3, clock = 101\<rparr> = 3" by simp
  from rate_limit_spacing[OF this, of "1/100" 0 0]
  have "fst (rate_limit (1/100) \<lparr>last_api_call = 100, rate_limit_delay = 3, clock = 101\<rparr>) = Some 2"
    by simp
  moreover have "last_api_call (snd (rate_limit (1/100) \<lparr>last_api_call = 100, rate_limit_delay = 3, clock = 101\<rparr>))
       = 10301/100"
    by (simp add: rate_limit_def Let_def)
  moreover have "fst (rate_limit 0 (init_rate_state 1700000000)) = None"
    by (simp add: rate_limit_def Let_def init_rate_state_def)
  ultimately show ?thesis by simp
qed

section \<open>The parser of the search response\<close>

text \<open>The loop over the lines collects, for each kind of header, the bullets under it.\<close>

lemma close_answer_lists [simp]:
  "sources (close_answer cur buffer secs) = sources secs"
  "linkedin_profiles (close_answer cur buffer secs) = linkedin_profiles secs"
  by (simp_all add: close_answer_def)

lemma parse_lines_lists:
  "sources (snd (snd (parse_lines ls cur buffer secs)))
     = sources secs @ map bullet_text (filter is_bullet_line (lines_under InSources cur ls))
   \<and> linkedin_profiles (snd (snd (parse_lines ls cur buffer secs)))
     = linkedin_profiles secs
       @ map bullet_text (filter is_bullet_line (lines_under InLinkedin cur ls))"
proof (induction ls arbitrary: cur buffer secs)
  case Nil
  then show ?case by simp
next
  case (Cons line rest)
  show ?case
    by (cases cur) (auto simp: Cons header_of_def Let_def)
qed

lemma clean_elements:
  assumes "u \<in> set (clean urls)"
  shows "startswith u (str ''http'') \<and> 32 \<notin> set u"
proof -
  from assms obtain v where v: "v \<in> set urls" "startswith v (str ''http'')"
    and u: "u = split_space_first v"
    by (auto simp: clean_def)
  from v(2) obtain w where w: "v = str ''http'' @ w"
    by (auto simp: startswith_append)
  have "32 \<notin> set u"
    unfolding u split_space_first_def by (auto dest: set_takeWhileD)
  moreover have "u = str ''http'' @ takeWhile (\<lambda>c. c \<noteq> 32) w"
    unfolding u split_space_first_def w by (simp add: str_def)
  ultimately show ?thesis
    by (simp add: startswith_append)
qed

lemma parse_lists:
  "sources (parse_structured_search_response content) = bullet_urls InSources content"
  "linkedin_profiles (parse_structured_search_response content) = bullet_urls InLinkedin content"
proof -
  obtain cur buffer secs where p:
    "parse_lines (map strip (splitlines content)) None []
       \<lparr>answer = [], sources = [], linkedin_profiles = []\<rparr> = (cur, buffer, secs)"
    using prod_cases3 by blast
  from parse_lines_lists[of "map strip (splitlines content)" None "[]"
      "\<lparr>answer = [], sources = [], linkedin_profiles = []\<rparr>"]
  have "sources secs
      = map bullet_text (filter is_bullet_line (lines_under InSources None (map strip (splitlines content))))"
    and "linkedin_profiles secs
      = map bullet_text (filter is_bullet_line (lines_under InLinkedin None (map strip (splitlines content))))"
    by (simp_all add: p)
  then show "sources (parse_structured_search_response content) = bullet_urls InSources content"
    "linkedin_profiles (parse_structured_search_response content) = bullet_urls InLinkedin content"
    by (simp_all add: parse_structured_search_response_def Let_def p bullet_urls_def clean_def)
qed

lemma bullet_urls_clean:
  "bullet_urls k content
     = clean (map bullet_text (filter is_bullet_line (lines_under k None (map strip (splitlines content)))))"
  by (simp add: bullet_urls_def clean_def)

lemma bullet_urls_elements:
  "u \<in> set (bullet_urls k content) \<Longrightarrow> startswith u (str ''http'') \<and> 32 \<notin> set u"
  unfolding bullet_urls_clean by (rule clean_elements)

text \<open>
  The matcher returns a suffix of its input, and \<open>re_search\<close> the match at the leftmost
  position that has one.
\<close>

lemma rmatch_is_suffix: "rmatch ic items s = Some r \<Longrightarrow> suffix r s"
proof (induction ic items s arbitrary: r rule: rmatch.induct)
  case (2 ic items s)
  then show ?case by (simp split: if_splits)
next
  case (4 ic c items x xs)
  then show ?case by (simp split: if_splits add: suffix_ConsI)
next
  case (6 ic c items x xs)
  show ?case
  proof (cases "cmatch ic c x")
    case True
    show ?thesis
    proof (cases "rmatch ic items xs")
      case None
      then show ?thesis using True "6.IH"(2) "6.prems" by simp
    next
      case (Some r')
      then show ?thesis using True "6.IH"(1) "6.prems" by (simp add: suffix_ConsI)
    qed
  next
    case False
    then show ?thesis using "6.IH"(3) "6.prems" by simp
  qed
next
  case (8 ic c items x xs)
  show ?case
  proof (cases "cmatch ic c x")
    case True
    show ?thesis
    proof (cases "rmatch ic (Item c Star # items) xs")
      case None
      then show ?thesis using True "8.IH"(2) "8.prems" by simp
    next
      case (Some r')
      then show ?thesis using True "8.IH"(1) "8.prems" by (simp add: suffix_ConsI)
    qed
  next
    case False
    then show ?thesis using "8.IH"(3) "8.prems" by simp
  qed
next
  case (10 ic c items x xs)
  then show ?case by (simp split: if_splits add: suffix_ConsI)
next
  case (12 ic c items x xs)
  show ?case
  proof (cases "rmatch ic items (x # xs)")
    case None
    then show ?thesis
      using "12.IH"(2) "12.prems" by (simp split: if_splits add: suffix_ConsI)
  next
    case (Some r')
    then show ?thesis using "12.IH"(1) "12.prems" by simp
  qed
qed simp_all

lemma rmatch_suffix: "rmatch ic items s = Some r \<Longrightarrow> \<exists>m. s = m @ r"
  using rmatch_is_suffix by (auto simp: suffix_def)

lemma re_search_leftmost:
  "re_search ic items s = Some block
     \<Longrightarrow> \<exists>pre post. s = pre @ block @ post \<and> rmatch ic items (block @ post) = Some post
           \<and> (\<forall>i<length pre. rmatch ic items (drop i s) = None)"
proof (induction s)
  case Nil
  then obtain r where r: "rmatch ic items [] = Some r" and b: "block = []"
    by (auto split: option.splits)
  from rmatch_suffix[OF r] have "r = []" by simp
  with r b show ?case by simp
next
  case (Cons x xs)
  show ?case
  proof (cases "rmatch ic items (x # xs)")
    case (Some r)
    with Cons.prems have b: "block = take (length (x # xs) - length r) (x # xs)" by simp
    from rmatch_suffix[OF Some] obtain m where m: "x # xs = m @ r" by blast
    then have "block = m" unfolding b by simp
    with m Some show ?thesis
      by (intro exI[of _ "[]"] exI[of _ r]) simp
  next
    case None
    with Cons.prems have "re_search ic items xs = Some block" by simp
    from Cons.IH[OF this] obtain pre post where p: "xs = pre @ block @ post"
      "rmatch ic items (block @ post) = Some post"
      "\<forall>i<length pre. rmatch ic items (drop i xs) = None" by blast
    have "\<forall>i<length (x # pre). rmatch ic items (drop i (x # xs)) = None"
    proof (intro allI impI)
      fix i assume "i < length (x # pre)"
      then show "rmatch ic items (drop i (x # xs)) = None"
        using p(3) None by (cases i) auto
    qed
    with p(1,2) show ?thesis
      by (intro exI[of _ "x # pre"] exI[of _ post]) simp
  qed
qed

lemma cmatch_brace: "cmatch ic (Lit 123) x \<Longrightarrow> x = 123"
  by (simp add: lower_cp_def split: if_splits)

lemma results_object_block_start:
  assumes "re_search True results_object_pattern content = Some block"
  shows "from_first_brace block = block"
proof -
  from re_search_leftmost[OF assms] obtain pre post where p:
    "rmatch True results_object_pattern (block @ post) = Some post" by blast
  obtain items where items: "results_object_pattern = Item (Lit 123) One # items"
    by (simp add: results_object_pattern_def)
  from p obtain x xs where x: "block @ post = x # xs" "cmatch True (Lit 123) x"
    "rmatch True items xs = Some post"
    unfolding items by (cases "block @ post") (auto split: if_splits)
  from rmatch_suffix[OF x(3)] obtain m where "xs = m @ post" by blast
  with x(1) have "block = x # m" by simp
  moreover from x(2) have "x = 123" by (rule cmatch_brace)
  ultimately show ?thesis by (simp add: from_first_brace_def)
qed

text \<open>
  The two patterns, step by step: a literal that is no letter matches itself only; white
  space before such a literal is skipped as a whole; the lazy \<open>[\<bsol>s\<bsol>S]*?\<close> stops at
  the first place where the rest of the pattern matches.
\<close>

lemma lower_cp_range:
  "lower_cp x = x \<or> (97 \<le> lower_cp x \<and> lower_cp x \<le> 122)
     \<or> (223 \<le> lower_cp x \<and> lower_cp x \<le> 255)"
  by (simp add: lower_cp_def)

lemma lower_cp_exact:
  assumes "c < 65 \<or> (90 < c \<and> c < 97) \<or> (122 < c \<and> c < 192)"
  shows "lower_cp c = c" and "lower_cp x = c \<longleftrightarrow> x = c"
proof -
  show c: "lower_cp c = c" using assms by (auto simp: lower_cp_def)
  show "lower_cp x = c \<longleftrightarrow> x = c"
  proof
    assume "lower_cp x = c"
    with lower_cp_range[of x] assms show "x = c" by arith
  next
    assume "x = c"
    with c show "lower_cp x = c" by simp
  qed
qed

lemma cmatch_exact:
  assumes "c < 65 \<or> (90 < c \<and> c < 97) \<or> (122 < c \<and> c < 192)"
  shows "cmatch ic (Lit c) x \<longleftrightarrow> x = c"
proof -
  have "c \<noteq> 115" using assms by arith
  then show ?thesis
    using lower_cp_exact(1)[OF assms] lower_cp_exact(2)[OF assms, of x] by simp
qed

lemma cmatch_fold:
  assumes "c \<noteq> 383"
  shows "cmatch True (Lit c) x \<longleftrightarrow> fold_case x = fold_case c"
proof -
  have c: "lower_cp c \<noteq> 383" using lower_cp_range[of c] assms by arith
  have s: "lower_cp 383 = 383" by (simp add: lower_cp_def)
  show ?thesis
  proof (cases "x = 383")
    case True
    then show ?thesis using c s assms by (auto simp: fold_case_def)
  next
    case False
    then show ?thesis using assms by (simp add: fold_case_def)
  qed
qed

lemma rmatch_lits:
  "383 \<notin> set p \<Longrightarrow> rmatch True (lits p @ items) s
     = (case after_caseless p s of None \<Rightarrow> None | Some rest \<Rightarrow> rmatch True items rest)"
proof (induction p s rule: after_caseless.induct)
  case (1 s)
  then show ?case by (simp add: lits_def)
next
  case (2 c p)
  then show ?case by (simp add: lits_def)
next
  case (3 c p x s)
  then have "c \<noteq> 383" "383 \<notin> set p" by auto
  with 3 show ?case
    using cmatch_fold[of c x] by (simp add: lits_def)
qed

lemma rmatch_space_star_literal:
  assumes "c < 65 \<or> (90 < c \<and> c < 97) \<or> (122 < c \<and> c < 192)" and "\<not> py_isspace c"
  shows "rmatch ic (Item Space Star # Item (Lit c) One # items) s
          = rmatch ic (Item (Lit c) One # items) (lstrip s)"
proof (induction s)
  case Nil
  then show ?case by (simp add: lstrip_def)
next
  case (Cons x xs)
  show ?case
  proof (cases "py_isspace x")
    case True
    then have "\<not> cmatch ic (Lit c) x" using assms cmatch_exact[of c ic x] by auto
    then show ?thesis
      using True Cons by (simp add: lstrip_def del: cmatch.simps(1) split: option.splits)
  next
    case False
    then show ?thesis by (simp add: lstrip_def)
  qed
qed

lemma rmatch_newline_in_space:
  assumes "c < 65 \<or> (90 < c \<and> c < 97) \<or> (122 < c \<and> c < 192)" and "\<not> py_isspace c"
  shows "rmatch ic (Item Space Star # Item (Lit 10) One # Item Space Star # Item (Lit c) One # items) s
          = (if 10 \<in> set (takeWhile py_isspace s)
             then rmatch ic (Item (Lit c) One # items) (lstrip s) else None)"
proof (induction s)
  case Nil
  then show ?case by simp
next
  case (Cons x xs)
  have nl: "cmatch ic (Lit 10) y \<longleftrightarrow> y = 10" for y
    by (rule cmatch_exact) simp
  have sp: "py_isspace 10" by (simp add: py_isspace_def)
  note after = rmatch_space_star_literal[where ic = ic and c = c and items = items, OF assms]
  show ?case
  proof (cases "py_isspace x")
    case True
    have l: "lstrip (x # xs) = lstrip xs" using True by (simp add: lstrip_def)
    have step: "rmatch ic (Item Space Star # Item (Lit 10) One # Item Space Star # Item (Lit c) One # items)
                  (x # xs)
        = (case rmatch ic (Item Space Star # Item (Lit 10) One # Item Space Star # Item (Lit c) One # items) xs of
             Some r \<Rightarrow> Some r
           | None \<Rightarrow> if x = 10 then rmatch ic (Item (Lit c) One # items) (lstrip xs) else None)"
      using True by (simp add: nl after del: cmatch.simps(1) split: option.splits)
    show ?thesis
    proof (cases "10 \<in> set (takeWhile py_isspace xs)")
      case in_rest: True
      show ?thesis
        unfolding step Cons l using True in_rest
        by (cases "rmatch ic (Item (Lit c) One # items) (lstrip xs)") simp_all
    next
      case False
      then show ?thesis
        unfolding step Cons l using True by simp
    qed
  next
    case False
    then have "x \<noteq> 10" using sp by auto
    then show ?thesis using False by (simp add: nl del: cmatch.simps(1))
  qed
qed

lemma rmatch_lazy_any:
  "rmatch ic (Item AnyChar LazyStar # items) s = first_piece (rmatch ic items) s"
  by (induction s) (simp_all split: option.splits)

lemma re_search_first_piece:
  "re_search ic items s
     = first_piece (\<lambda>t. map_option (\<lambda>r. take (length t - length r) t) (rmatch ic items t)) s"
  by (induction s) (simp_all split: option.splits)

lemma rmatch_space_to_end:
  "rmatch ic [Item Space Star, EndAnchor] t = (if list_all py_isspace t then Some [] else None)"
proof (induction t)
  case Nil
  then show ?case by simp
next
  case (Cons x xs)
  have "py_isspace 10" by (simp add: py_isspace_def)
  then show ?case using Cons by (auto split: option.splits)
qed

lemma rmatch_closing:
  "rmatch ic [Item (Lit 125) One, Item Space Star, EndAnchor] t
     = (case t of [] \<Rightarrow> None | x # xs \<Rightarrow> if x = 125 \<and> list_all py_isspace xs then Some [] else None)"
proof (cases t)
  case Nil
  then show ?thesis by simp
next
  case (Cons x xs)
  have "cmatch ic (Lit 125) x \<longleftrightarrow> x = 125" by (rule cmatch_exact) simp
  then show ?thesis using Cons by (simp add: rmatch_space_to_end del: cmatch.simps(1))
qed

lemma first_piece_closing:
  "first_piece (rmatch ic [Item (Lit 125) One, Item Space Star, EndAnchor]) body
     = (if closes_at_end body then Some [] else None)"
  by (induction body) (simp_all add: rmatch_closing)

lemma rmatch_results_json:
  "rmatch True results_json_pattern t = (if labelled_tail t then Some [] else None)"
proof -
  have no_long_s: "383 \<notin> set (str ''RESULTS_JSON'')" by (simp add: str_def)
  have brace: "cmatch True (Lit 123) x \<longleftrightarrow> x = 123" for x by (rule cmatch_exact) simp
  have pat: "results_json_pattern = lits (str ''RESULTS_JSON'')
      @ (Item Space Star # Item (Lit 10) One # Item Space Star # Item (Lit 123) One
         # [Item AnyChar LazyStar, Item (Lit 125) One, Item Space Star, EndAnchor])"
    by (simp add: results_json_pattern_def)
  have tail: "rmatch True (Item (Lit 123) One
         # [Item AnyChar LazyStar, Item (Lit 125) One, Item Space Star, EndAnchor]) u
      = (case u of [] \<Rightarrow> None | b # body \<Rightarrow> if b = 123 \<and> closes_at_end body then Some [] else None)" for u
    using brace by (cases u) (simp_all add: rmatch_lazy_any first_piece_closing)
  have body: "rmatch True (Item Space Star # Item (Lit 10) One # Item Space Star # Item (Lit 123) One
         # [Item AnyChar LazyStar, Item (Lit 125) One, Item Space Star, EndAnchor]) u
      = (if 10 \<in> set (takeWhile py_isspace u)
         then (case lstrip u of [] \<Rightarrow> None
               | b # body \<Rightarrow> if b = 123 \<and> closes_at_end body then Some [] else None)
         else None)" for u
    unfolding tail[symmetric]
    by (rule rmatch_newline_in_space) (simp_all add: py_isspace_def)
  show ?thesis
    unfolding pat rmatch_lits[OF no_long_s] body labelled_tail_def
    by (auto split: option.splits list.splits)
qed

lemma rmatch_bracket_close:
  "rmatch ic [Item (Lit 93) One, Item Space Star, Item (Lit 125) One] u
     = (case u of
          [] \<Rightarrow> None
        | y # ys \<Rightarrow>
            if y = 93
            then (case lstrip ys of [] \<Rightarrow> None | z # r \<Rightarrow> if z = 125 then Some r else None)
            else None)"
proof -
  have b: "cmatch ic (Lit 93) x \<longleftrightarrow> x = 93" for x by (rule cmatch_exact) simp
  have c: "cmatch ic (Lit 125) x \<longleftrightarrow> x = 125" for x by (rule cmatch_exact) simp
  have "rmatch ic [Item Space Star, Item (Lit 125) One] ys
      = rmatch ic [Item (Lit 125) One] (lstrip ys)" for ys
    by (rule rmatch_space_star_literal) (simp_all add: py_isspace_def)
  then have close: "rmatch ic [Item Space Star, Item (Lit 125) One] ys
      = (case lstrip ys of [] \<Rightarrow> None | z # r \<Rightarrow> if z = 125 then Some r else None)" for ys
    by (cases "lstrip ys") (simp_all add: c del: cmatch.simps(1))
  show ?thesis
    by (cases u) (simp_all add: b close del: cmatch.simps(1))
qed

lemma first_piece_close:
  "first_piece (rmatch ic [Item (Lit 93) One, Item Space Star, Item (Lit 125) One]) t = first_close t"
  by (induction t) (simp_all add: rmatch_bracket_close split: list.splits)

lemma rmatch_results_object:
  "rmatch True results_object_pattern t = results_object_rest t"
proof -
  let ?q = "[34] @ str ''results'' @ [34]"
  let ?close = "[Item AnyChar LazyStar, Item (Lit 93) One, Item Space Star, Item (Lit 125) One]"
  have no_long_s: "383 \<notin> set ?q" by (simp add: str_def)
  have q: "lits ?q = Item (Lit 34) One # lits (str ''results'' @ [34])"
    by (simp add: lits_def)
  have e123: "cmatch True (Lit 123) x \<longleftrightarrow> x = 123" for x by (rule cmatch_exact) simp
  have e34: "cmatch True (Lit 34) x \<longleftrightarrow> x = 34" for x by (rule cmatch_exact) simp
  have e58: "cmatch True (Lit 58) x \<longleftrightarrow> x = 58" for x by (rule cmatch_exact) simp
  have e91: "cmatch True (Lit 91) x \<longleftrightarrow> x = 91" for x by (rule cmatch_exact) simp
  have s34: "rmatch True (Item Space Star # Item (Lit 34) One # items) u
      = rmatch True (Item (Lit 34) One # items) (lstrip u)" for items u
    by (rule rmatch_space_star_literal) (simp_all add: py_isspace_def)
  have s58: "rmatch True (Item Space Star # Item (Lit 58) One # items) u
      = rmatch True (Item (Lit 58) One # items) (lstrip u)" for items u
    by (rule rmatch_space_star_literal) (simp_all add: py_isspace_def)
  have s91: "rmatch True (Item Space Star # Item (Lit 91) One # items) u
      = rmatch True (Item (Lit 91) One # items) (lstrip u)" for items u
    by (rule rmatch_space_star_literal) (simp_all add: py_isspace_def)
  have pat: "results_object_pattern
      = Item (Lit 123) One # Item Space Star # Item (Lit 34) One
        # (lits (str ''results'' @ [34])
           @ (Item Space Star # Item (Lit 58) One # Item Space Star # Item (Lit 91) One
              # Item Dot One # ?close))"
    by (simp add: results_object_pattern_def lits_def)
  have list: "rmatch True (Item (Lit 91) One # Item Dot One # ?close) u
      = (case u of
           [] \<Rightarrow> None
         | [bracket] \<Rightarrow> None
         | bracket # x # t3 \<Rightarrow> if bracket \<noteq> 91 \<or> x = 10 then None else first_close t3)" for u
    by (cases u rule: first_close.cases)
      (auto simp add: e91 rmatch_lazy_any first_piece_close simp del: cmatch.simps(1)
        split: list.splits)
  have colon: "rmatch True (Item Space Star # Item (Lit 58) One # Item Space Star # Item (Lit 91) One
              # Item Dot One # ?close) t1
      = (case lstrip t1 of
           [] \<Rightarrow> None
         | colon # t2 \<Rightarrow>
             if colon \<noteq> 58 then None
             else (case lstrip t2 of
                     [] \<Rightarrow> None
                   | [bracket] \<Rightarrow> None
                   | bracket # x # t3 \<Rightarrow>
                       if bracket \<noteq> 91 \<or> x = 10 then None else first_close t3))" for t1
    unfolding s58
    by (cases "lstrip t1") (simp_all add: e58 s91 list del: cmatch.simps(1))
  have quoted: "rmatch True (Item (Lit 34) One
        # (lits (str ''results'' @ [34])
           @ (Item Space Star # Item (Lit 58) One # Item Space Star # Item (Lit 91) One
              # Item Dot One # ?close))) u
      = (case after_caseless ?q u of
           None \<Rightarrow> None
         | Some t1 \<Rightarrow> rmatch True (Item Space Star # Item (Lit 58) One # Item Space Star
                         # Item (Lit 91) One # Item Dot One # ?close) t1)" for u
    using rmatch_lits[OF no_long_s, of "Item Space Star # Item (Lit 58) One # Item Space Star
                         # Item (Lit 91) One # Item Dot One # ?close" u]
    unfolding q by simp
  show ?thesis
  proof (cases t)
    case Nil
    then show ?thesis by (simp add: pat results_object_rest_def)
  next
    case (Cons b t0)
    show ?thesis
      unfolding Cons pat results_object_rest_def
      by (simp add: e123 s34 quoted colon del: cmatch.simps(1) after_caseless.simps
          split: option.splits)
  qed
qed

lemma first_piece_cong:
  "(\<And>t. f t = g t) \<Longrightarrow> first_piece f s = first_piece g s"
  by (induction s) (simp_all cong: option.case_cong)

lemma first_piece_map:
  "first_piece (\<lambda>t. if P t then Some (g t) else None) s
     = map_option g (first_piece (\<lambda>t. if P t then Some t else None) s)"
  by (induction s) simp_all

lemma first_piece_first:
  "first_piece f s = Some b
     \<Longrightarrow> \<exists>pre t. s = pre @ t \<and> f t = Some b \<and> (\<forall>i<length pre. f (drop i s) = None)"
proof (induction s)
  case Nil
  then show ?case by simp
next
  case (Cons x xs)
  show ?case
  proof (cases "f (x # xs)")
    case (Some b')
    with Cons.prems have "f (x # xs) = Some b" by simp
    then show ?thesis by (intro exI[of _ "[]"] exI[of _ "x # xs"]) simp
  next
    case None
    with Cons.prems have "first_piece f xs = Some b" by simp
    from Cons.IH[OF this] obtain pre t where p: "xs = pre @ t" "f t = Some b"
      "\<forall>i<length pre. f (drop i xs) = None" by blast
    have "\<forall>i<length (x # pre). f (drop i (x # xs)) = None"
    proof (intro allI impI)
      fix i assume "i < length (x # pre)"
      then show "f (drop i (x # xs)) = None" using p(3) None by (cases i) auto
    qed
    with p(1,2) show ?thesis by (intro exI[of _ "x # pre"] exI[of _ t]) simp
  qed
qed

lemma re_search_results_json:
  "re_search True results_json_pattern content
     = first_piece (\<lambda>t. if labelled_tail t then Some t else None) content"
  unfolding re_search_first_piece
  by (rule first_piece_cong) (simp add: rmatch_results_json)

lemma re_search_results_object:
  "re_search True results_object_pattern content = first_piece results_object content"
  unfolding re_search_first_piece
  by (rule first_piece_cong) (simp add: rmatch_results_object results_object_def)

lemma find_results_block_spec: "find_results_block content = results_block content"
  by (simp add: find_results_block_def results_block_def re_search_results_json
      re_search_results_object split: option.splits)

lemma after_caseless_split:
  "after_caseless p t = Some rest
     \<Longrightarrow> \<exists>l. t = l @ rest \<and> length l = length p \<and> map fold_case l = map fold_case p"
proof (induction p t rule: after_caseless.induct)
  case (1 s)
  then show ?case by simp
next
  case (2 c p)
  then show ?case by simp
next
  case (3 c p x s)
  then have f: "fold_case x = fold_case c" and r: "after_caseless p s = Some rest"
    by (simp_all split: if_splits)
  from 3(1)[OF f r] obtain l where "s = l @ rest" "length l = length p"
    "map fold_case l = map fold_case p" by blast
  then show ?case using f by (intro exI[of _ "x # l"]) simp
qed

lemma labelled_tail_json:
  assumes "labelled_tail t"
  shows "from_first_brace t = json_from_label t"
proof -
  from assms obtain rest where a: "after_caseless (str ''RESULTS_JSON'') t = Some rest"
    and b: "\<exists>body. lstrip rest = 123 # body"
    by (auto simp: labelled_tail_def split: option.splits list.splits)
  from after_caseless_split[OF a] obtain l where l: "t = l @ rest"
    "length l = length (str ''RESULTS_JSON'')"
    "map fold_case l = map fold_case (str ''RESULTS_JSON'')" by blast
  from b obtain body where body: "lstrip rest = 123 # body" by blast
  have f123: "fold_case 123 = 123" by (simp add: fold_case_def lower_cp_def)
  have "123 \<notin> set (map fold_case l)"
    unfolding l(3) by (simp add: str_def fold_case_def lower_cp_def)
  then have nl: "123 \<notin> set l" using f123 by force
  have rest: "rest = takeWhile py_isspace rest @ 123 # body"
    using body takeWhile_dropWhile_id[of py_isspace rest] by (simp add: lstrip_def)
  have nw: "123 \<notin> set (takeWhile py_isspace rest)"
    by (auto dest: set_takeWhileD simp: py_isspace_def)
  have t: "t = (l @ takeWhile py_isspace rest) @ 123 # body"
    using l(1) rest by simp
  have "dropWhile (\<lambda>c. c \<noteq> 123) t = 123 # body"
    by (subst t, subst dropWhile_append2) (use nl nw in auto)
  moreover have "123 \<in> set t" by (subst t) simp
  moreover have "json_from_label t = 123 # body"
    unfolding json_from_label_def using l(1,2) body by simp
  ultimately show ?thesis by (simp add: from_first_brace_def)
qed

lemma first_piece_labelled:
  "first_piece (\<lambda>t. if labelled_tail t then Some t else None) content = Some t \<Longrightarrow> labelled_tail t"
  by (induction content) (auto split: if_splits)

lemma extract_results_json_spec:
  "extract_results_json loads content
     = (case results_text content of None \<Rightarrow> [] | Some js \<Rightarrow> results_list (loads js))"
proof (cases "first_piece (\<lambda>t. if labelled_tail t then Some t else None) content")
  case None
  then have js: "results_text content = first_piece results_object content"
    and block: "find_results_block content = first_piece results_object content"
    by (simp_all add: results_text_def first_piece_map[where g = json_from_label] find_results_block_spec results_block_def)
  show ?thesis
  proof (cases "first_piece results_object content")
    case None
    then show ?thesis by (simp add: extract_results_json_def block js)
  next
    case (Some b)
    then have "re_search True results_object_pattern content = Some b"
      by (simp add: re_search_results_object)
    then have "from_first_brace b = b" by (rule results_object_block_start)
    then show ?thesis
      by (simp add: extract_results_json_def block js Some results_list_def)
  qed
next
  case (Some t)
  then have js: "results_text content = Some (json_from_label t)"
    and block: "find_results_block content = Some t"
    by (simp_all add: results_text_def first_piece_map[where g = json_from_label] find_results_block_spec results_block_def)
  from first_piece_labelled[OF Some] have "from_first_brace t = json_from_label t"
    by (rule labelled_tail_json)
  then show ?thesis
    by (simp add: extract_results_json_def block js results_list_def)
qed

text \<open>The shapes of a labelled tail and of a results object, spelt out.\<close>

lemma closes_at_end_iff:
  "closes_at_end body \<longleftrightarrow> (\<exists>m w. body = m @ 125 # w \<and> list_all py_isspace w)"
proof (induction body)
  case Nil
  then show ?case by simp
next
  case (Cons x xs)
  show ?case
  proof
    assume "closes_at_end (x # xs)"
    then consider "x = 125" "list_all py_isspace xs" | "closes_at_end xs" by auto
    then show "\<exists>m w. x # xs = m @ 125 # w \<and> list_all py_isspace w"
    proof cases
      case 1
      then show ?thesis by (intro exI[of _ "[]"] exI[of _ xs]) simp
    next
      case 2
      with Cons obtain m w where "xs = m @ 125 # w" "list_all py_isspace w" by blast
      then show ?thesis by (intro exI[of _ "x # m"] exI[of _ w]) simp
    qed
  next
    assume "\<exists>m w. x # xs = m @ 125 # w \<and> list_all py_isspace w"
    then obtain m w where mw: "x # xs = m @ 125 # w" "list_all py_isspace w" by blast
    show "closes_at_end (x # xs)"
    proof (cases m)
      case Nil
      with mw show ?thesis by simp
    next
      case (Cons y ys)
      with mw have "xs = ys @ 125 # w" by simp
      with mw(2) Cons.IH show ?thesis by auto
    qed
  qed
qed

lemma after_caseless_append:
  "map fold_case l = map fold_case p \<Longrightarrow> after_caseless p (l @ rest) = Some rest"
proof (induction p arbitrary: l)
  case Nil
  then show ?case by simp
next
  case (Cons c p)
  then obtain x l' where "l = x # l'" by (cases l) auto
  with Cons show ?case by simp
qed

lemma after_caseless_iff:
  "after_caseless p t = Some rest
     \<longleftrightarrow> (\<exists>l. t = l @ rest \<and> length l = length p \<and> map fold_case l = map fold_case p)"
  using after_caseless_split[of p t rest] after_caseless_append[of _ p rest] by auto

lemma space_run:
  assumes "list_all py_isspace w" "\<not> py_isspace b"
  shows "takeWhile py_isspace (w @ b # body) = w" "lstrip (w @ b # body) = b # body"
  using assms by (simp_all add: lstrip_def list_all_iff takeWhile_append2 dropWhile_append2)

lemma space_split:
  assumes "lstrip s = b # body"
  shows "s = takeWhile py_isspace s @ b # body" "list_all py_isspace (takeWhile py_isspace s)"
    "\<not> py_isspace b"
proof -
  show "s = takeWhile py_isspace s @ b # body"
    using assms takeWhile_dropWhile_id[of py_isspace s] by (simp add: lstrip_def)
  show "list_all py_isspace (takeWhile py_isspace s)"
    by (auto simp: list_all_iff dest: set_takeWhileD)
  show "\<not> py_isspace b"
    using assms hd_dropWhile[of py_isspace s] by (simp add: lstrip_def)
qed

lemma label_folded: "map fold_case (str ''RESULTS_JSON'') = str ''results_json''"
  by (simp add: str_def fold_case_def lower_cp_def)

lemma labelled_tail_iff:
  "labelled_tail t \<longleftrightarrow>
     (\<exists>l w body. t = l @ w @ 123 # body \<and> map fold_case l = str ''results_json''
        \<and> list_all py_isspace w \<and> 10 \<in> set w \<and> closes_at_end body)"
proof
  assume "labelled_tail t"
  then obtain rest b body where a: "after_caseless (str ''RESULTS_JSON'') t = Some rest"
    and nl: "10 \<in> set (takeWhile py_isspace rest)"
    and l: "lstrip rest = b # body" and b: "b = 123" and c: "closes_at_end body"
    by (auto simp: labelled_tail_def split: option.splits list.splits)
  from after_caseless_split[OF a] obtain l where "t = l @ rest"
    "map fold_case l = map fold_case (str ''RESULTS_JSON'')" by blast
  with space_split[OF l] nl b c label_folded
  show "\<exists>l w body. t = l @ w @ 123 # body \<and> map fold_case l = str ''results_json''
        \<and> list_all py_isspace w \<and> 10 \<in> set w \<and> closes_at_end body"
    by (intro exI[of _ l] exI[of _ "takeWhile py_isspace rest"] exI[of _ body]) simp
next
  assume "\<exists>l w body. t = l @ w @ 123 # body \<and> map fold_case l = str ''results_json''
        \<and> list_all py_isspace w \<and> 10 \<in> set w \<and> closes_at_end body"
  then obtain l w body where t: "t = l @ w @ 123 # body"
    and l: "map fold_case l = str ''results_json''"
    and w: "list_all py_isspace w" "10 \<in> set w" and c: "closes_at_end body" by blast
  have a: "after_caseless (str ''RESULTS_JSON'') t = Some (w @ 123 # body)"
    unfolding t by (rule after_caseless_append) (simp add: l label_folded)
  have ns: "\<not> py_isspace 123" by (simp add: py_isspace_def)
  show "labelled_tail t"
    unfolding labelled_tail_def a using space_run[OF w(1) ns, of body] w(2) c by simp
qed

lemma labelled_tail_text:
  assumes "labelled_tail t"
  shows "\<exists>l w. t = l @ w @ json_from_label t \<and> map fold_case l = str ''results_json''
           \<and> list_all py_isspace w \<and> startswith (json_from_label t) [123]"
proof -
  from assms obtain l w body where t: "t = l @ w @ 123 # body"
    and l: "map fold_case l = str ''results_json''"
    and w: "list_all py_isspace w" by (auto simp: labelled_tail_iff)
  have ns: "\<not> py_isspace 123" by (simp add: py_isspace_def)
  from l have "length (map fold_case l) = length (str ''results_json'')" by simp
  then have "length l = length (str ''RESULTS_JSON'')" by (simp add: str_def)
  then have "json_from_label t = 123 # body"
    unfolding json_from_label_def t using space_run(2)[OF w ns, of body] by simp
  with t l w show ?thesis
    by (intro exI[of _ l] exI[of _ w]) (simp add: startswith_def)
qed

lemma first_close_shape:
  "first_close t = Some r \<Longrightarrow> \<exists>m w. t = m @ 93 # w @ 125 # r \<and> list_all py_isspace w"
proof (induction t)
  case Nil
  then show ?case by simp
next
  case (Cons x xs)
  show ?case
  proof (cases "x = 93 \<and> (\<exists>r'. lstrip xs = 125 # r')")
    case True
    then obtain r' where r': "lstrip xs = 125 # r'" by blast
    with True Cons.prems have "r' = r" by simp
    with space_split[OF r'] True show ?thesis
      by (intro exI[of _ "[]"] exI[of _ "takeWhile py_isspace xs"]) simp
  next
    case False
    with Cons.prems have "first_close xs = Some r"
      by (auto split: if_splits list.splits)
    from Cons.IH[OF this] obtain m w where "xs = m @ 93 # w @ 125 # r" "list_all py_isspace w"
      by blast
    then show ?thesis by (intro exI[of _ "x # m"] exI[of _ w]) simp
  qed
qed

lemma results_object_shape:
  assumes "results_object t = Some b"
  shows "\<exists>w1 q w2 w3 x m w4 r.
           t = b @ r
         \<and> b = 123 # w1 @ q @ w2 @ 58 # w3 @ 91 # x # m @ 93 # w4 @ [125]
         \<and> list_all py_isspace (w1 @ w2 @ w3 @ w4)
         \<and> map fold_case q = [34] @ str ''results'' @ [34]
         \<and> x \<noteq> 10"
proof -
  let ?q = "[34] @ str ''results'' @ [34]"
  from assms obtain r where r: "results_object_rest t = Some r"
    and b: "b = take (length t - length r) t"
    by (auto simp: results_object_def)
  from r obtain t0 where t: "t = 123 # t0"
    by (cases t) (auto simp: results_object_rest_def split: if_splits)
  from r t obtain t1 where t1: "after_caseless ?q (lstrip t0) = Some t1"
    by (auto simp: results_object_rest_def split: option.splits)
  from r t t1 obtain t2 where t2: "lstrip t1 = 58 # t2"
    by (auto simp: results_object_rest_def split: list.splits if_splits)
  from r t t1 t2 obtain x t3 where t3: "lstrip t2 = 91 # x # t3" and x: "x \<noteq> 10"
    and close: "first_close t3 = Some r"
    by (auto simp: results_object_rest_def split: list.splits if_splits)
  from first_close_shape[OF close] obtain m w4 where m: "t3 = m @ 93 # w4 @ 125 # r"
    and w4: "list_all py_isspace w4" by blast
  from after_caseless_split[OF t1] obtain q where q: "lstrip t0 = q @ t1"
    "map fold_case q = map fold_case ?q" by blast
  have fq: "map fold_case ?q = ?q" by (simp add: str_def fold_case_def lower_cp_def)
  define w1 where "w1 = takeWhile py_isspace t0"
  define w2 where "w2 = takeWhile py_isspace t1"
  define w3 where "w3 = takeWhile py_isspace t2"
  have s0: "t0 = w1 @ lstrip t0" and w1: "list_all py_isspace w1"
    unfolding w1_def lstrip_def by (auto simp: list_all_iff dest: set_takeWhileD)
  have s1: "t1 = w2 @ lstrip t1" and w2: "list_all py_isspace w2"
    unfolding w2_def lstrip_def by (auto simp: list_all_iff dest: set_takeWhileD)
  have s2: "t2 = w3 @ lstrip t2" and w3: "list_all py_isspace w3"
    unfolding w3_def lstrip_def by (auto simp: list_all_iff dest: set_takeWhileD)
  define blk where "blk = 123 # w1 @ q @ w2 @ 58 # w3 @ 91 # x # m @ 93 # w4 @ [125]"
  have whole: "t = blk @ r"
    unfolding t blk_def
    by (subst s0, subst q(1), subst s1, subst t2, subst s2, subst t3, subst m) simp
  have bb: "b = blk"
    unfolding b whole by simp
  have 1: "t = b @ r" unfolding bb by (rule whole)
  have 2: "b = 123 # w1 @ q @ w2 @ 58 # w3 @ 91 # x # m @ 93 # w4 @ [125]"
    unfolding bb by (rule blk_def)
  have 3: "list_all py_isspace (w1 @ w2 @ w3 @ w4)" using w1 w2 w3 w4 by simp
  have 4: "map fold_case q = [34] @ str ''results'' @ [34]" using q(2) fq by simp
  show ?thesis
    by (intro exI[of _ w1] exI[of _ q] exI[of _ w2] exI[of _ w3] exI[of _ x] exI[of _ m]
        exI[of _ w4] exI[of _ r] conjI) (rule 1 2 3 4 x)+
qed

lemma first_piece_none:
  "first_piece f s = None \<Longrightarrow> i \<le> length s \<Longrightarrow> f (drop i s) = None"
proof (induction s arbitrary: i)
  case Nil
  then show ?case by simp
next
  case (Cons x xs)
  then have "f (x # xs) = None" "first_piece f xs = None"
    by (simp_all split: option.splits)
  with Cons show ?case by (cases i) simp_all
qed

text \<open>
  Claim C5, as amended.  For every text, the lists \<open>sources\<close> and \<open>linkedin_profiles\<close>
  that \<open>_parse_structured_search_response\<close> returns are the URLs of the bullet lines
  (first code point \<open>-\<close> or \<open>U+2022\<close>) under the headers \<open>Sources:\<close> and
  \<open>LinkedIn Profiles\<close>: each starts with \<open>http\<close> and has no space.
  \<open>_extract_results_json\<close> takes as its block the first labelled tail of the text: the
  label \<open>RESULTS_JSON\<close> in any case, white space with a line feed, an opening brace, and
  all the rest of the text, which must end with a closing brace and white space only.  When
  there is none, the block is the first results object, which ends at the first closing
  bracket that a closing brace follows.  The result is the list under \<open>results\<close> of
  what \<open>json.loads\<close> makes of the block from its opening brace on, and the empty list
  when there is no block, when that text does not parse, or when it does not parse to a
  dictionary with a list under \<open>results\<close>.
\<close>

theorem search_response_parsing:
  "sources (parse_structured_search_response content) = bullet_urls InSources content
   \<and> linkedin_profiles (parse_structured_search_response content) = bullet_urls InLinkedin content
   \<and> (\<forall>u \<in> set (bullet_urls InSources content) \<union> set (bullet_urls InLinkedin content).
         startswith u (str ''http'') \<and> 32 \<notin> set u)
   \<and> find_results_block content = results_block content
   \<and> extract_results_json loads content
       = (case results_text content of None \<Rightarrow> [] | Some js \<Rightarrow> results_list (loads js))
   \<and> (\<forall>b. first_piece f content = Some b \<longrightarrow>
         (\<exists>pre t. content = pre @ t \<and> f t = Some b \<and> (\<forall>i<length pre. f (drop i content) = None)))
   \<and> (first_piece f content = None \<longrightarrow> (\<forall>i\<le>length content. f (drop i content) = None))
   \<and> (labelled_tail t \<longleftrightarrow>
         (\<exists>l w body. t = l @ w @ 123 # body \<and> map fold_case l = str ''results_json''
            \<and> list_all py_isspace w \<and> 10 \<in> set w \<and> closes_at_end body))
   \<and> (closes_at_end body \<longleftrightarrow> (\<exists>m w. body = m @ 125 # w \<and> list_all py_isspace w))
   \<and> (labelled_tail t \<longrightarrow>
         (\<exists>l w. t = l @ w @ json_from_label t \<and> map fold_case l = str ''results_json''
            \<and> list_all py_isspace w \<and> startswith (json_from_label t) [123]))
   \<and> (\<forall>b. results_object t = Some b \<longrightarrow>
         (\<exists>w1 q w2 w3 x m w4 r.
             t = b @ r
           \<and> b = 123 # w1 @ q @ w2 @ 58 # w3 @ 91 # x # m @ 93 # w4 @ [125]
           \<and> list_all py_isspace (w1 @ w2 @ w3 @ w4)
           \<and> map fold_case q = [34] @ str ''results'' @ [34]
           \<and> x \<noteq> 10))"
proof (intro conjI)
  show "sources (parse_structured_search_response content) = bullet_urls InSources content"
    by (rule parse_lists)
  show "linkedin_profiles (parse_structured_search_response content) = bullet_urls InLinkedin content"
    by (rule parse_lists)
  show "\<forall>u \<in> set (bullet_urls InSources content) \<union> set (bullet_urls InLinkedin content).
         startswith u (str ''http'') \<and> 32 \<notin> set u"
    using bullet_urls_elements by blast
  show "find_results_block content = results_block content"
    by (rule find_results_block_spec)
  show "extract_results_json loads content
       = (case results_text content of None \<Rightarrow> [] | Some js \<Rightarrow> results_list (loads js))"
    by (rule extract_results_json_spec)
  show "\<forall>b. first_piece f content = Some b \<longrightarrow>
         (\<exists>pre t. content = pre @ t \<and> f t = Some b \<and> (\<forall>i<length pre. f (drop i content) = None))"
    using first_piece_first[of f content] by blast
  show "first_piece f content = None \<longrightarrow> (\<forall>i\<le>length content. f (drop i content) = None)"
    using first_piece_none[of f content] by blast
  show "labelled_tail t \<longleftrightarrow>
         (\<exists>l w body. t = l @ w @ 123 # body \<and> map fold_case l = str ''results_json''
            \<and> list_all py_isspace w \<and> 10 \<in> set w \<and> closes_at_end body)"
    by (rule labelled_tail_iff)
  show "closes_at_end body \<longleftrightarrow> (\<exists>m w. body = m @ 125 # w \<and> list_all py_isspace w)"
    by (rule closes_at_end_iff)
  show "labelled_tail t \<longrightarrow>
         (\<exists>l w. t = l @ w @ json_from_label t \<and> map fold_case l = str ''results_json''
            \<and> list_all py_isspace w \<and> startswith (json_from_label t) [123])"
    using labelled_tail_text[of t] by blast
  show "\<forall>b. results_object t = Some b \<longrightarrow>
         (\<exists>w1 q w2 w3 x m w4 r.
             t = b @ r
           \<and> b = 123 # w1 @ q @ w2 @ 58 # w3 @ 91 # x # m @ 93 # w4 @ [125]
           \<and> list_all py_isspace (w1 @ w2 @ w3 @ w4)
           \<and> map fold_case q = [34] @ str ''results'' @ [34]
           \<and> x \<noteq> 10)"
    using results_object_shape[of t] by blast
qed

text \<open>
  The list of a labelled object that parses is not always returned.  A labelled object
  followed by text that ends with a brace is handed to \<open>json.loads\<close> together with
  that text; and a results object whose list holds a list is cut at the inner closing
  bracket.  Both times the result is empty, although the object parses, as the second and
  fourth lines say.
\<close>

theorem search_response_parsing_counterexample:
  "extract_results_json
      (\<lambda>s. if s = [123, 34] @ str ''results'' @ [34] @ str '': [1]}''
           then Some (PDict [(str ''results'', PList [PInt 1])]) else None)
      (str ''RESULTS_JSON'' @ [10]
       @ ([123, 34] @ str ''results'' @ [34] @ str '': [1]}'')
       @ [10] @ str ''see {n}'') = []
   \<and> results_list
       ((\<lambda>s. if s = [123, 34] @ str ''results'' @ [34] @ str '': [1]}''
            then Some (PDict [(str ''results'', PList [PInt 1])]) else None)
          ([123, 34] @ str ''results'' @ [34] @ str '': [1]}'')) = [PInt 1]
   \<and> extract_results_json
      (\<lambda>s. if s = [123, 34] @ str ''results'' @ [34] @ str '': [{'' @ [34] @ str ''t'' @ [34]
                  @ str '': [1]}, 2]}''
           then Some (PDict [(str ''results'',
                              PList [PDict [(str ''t'', PList [PInt 1])], PInt 2])])
           else None)
      (str ''Here: ''
       @ ([123, 34] @ str ''results'' @ [34] @ str '': [{'' @ [34] @ str ''t'' @ [34]
          @ str '': [1]}, 2]}'')
       @ str '' done'') = []
   \<and> results_list
       ((\<lambda>s. if s = [123, 34] @ str ''results'' @ [34] @ str '': [{'' @ [34] @ str ''t'' @ [34]
                   @ str '': [1]}, 2]}''
            then Some (PDict [(str ''results'',
                               PList [PDict [(str ''t'', PList [PInt 1])], PInt 2])])
            else None)
          ([123, 34] @ str ''results'' @ [34] @ str '': [{'' @ [34] @ str ''t'' @ [34]
           @ str '': [1]}, 2]}''))
       = [PDict [(str ''t'', PList [PInt 1])], PInt 2]"
proof -
  have labelled: "results_text (str ''RESULTS_JSON'' @ [10]
       @ ([123, 34] @ str ''results'' @ [34] @ str '': [1]}'')
       @ [10] @ str ''see {n}'')
     = Some ([123, 34] @ str ''results'' @ [34] @ str '': [1]}'' @ [10] @ str ''see {n}'')"
    by (simp add: results_text_def labelled_tail_def json_from_label_def str_def fold_case_def
        lower_cp_def lstrip_def py_isspace_def)
  have nested: "results_text (str ''Here: ''
       @ ([123, 34] @ str ''results'' @ [34] @ str '': [{'' @ [34] @ str ''t'' @ [34]
          @ str '': [1]}, 2]}'')
       @ str '' done'')
     = Some ([123, 34] @ str ''results'' @ [34] @ str '': [{'' @ [34] @ str ''t'' @ [34]
             @ str '': [1]}'')"
    by (simp add: results_text_def labelled_tail_def results_object_def results_object_rest_def
        str_def fold_case_def lower_cp_def lstrip_def py_isspace_def)
  show ?thesis
    unfolding extract_results_json_spec labelled nested
    by (simp add: results_list_def str_def)
qed

theorem search_response_parsing_witness:
  "sources (parse_structured_search_response
      (str ''Sources:'' @ [10] @ str ''- http://a b'' @ [10] @ str ''RESULTS_JSON'' @ [10]
       @ [123, 34] @ str ''results'' @ [34] @ str '': [1]}'')) = [str ''http://a'']
   \<and> linkedin_profiles (parse_structured_search_response
      (str ''Sources:'' @ [10] @ str ''- http://a b'' @ [10] @ str ''RESULTS_JSON'' @ [10]
       @ [123, 34] @ str ''results'' @ [34] @ str '': [1]}'')) = []
   \<and> startswith (str ''http://a'') (str ''http'')
   \<and> 32 \<notin> set (str ''http://a'')
   \<and> find_results_block
        (str ''Sources:'' @ [10] @ str ''- http://a b'' @ [10] @ str ''RESULTS_JSON'' @ [10]
         @ [123, 34] @ str ''results'' @ [34] @ str '': [1]}'')
       = Some (str ''RESULTS_JSON'' @ [10] @ [123, 34] @ str ''results'' @ [34] @ str '': [1]}'')
   \<and> extract_results_json
        (\<lambda>s. if s = [123, 34] @ str ''results'' @ [34] @ str '': [1]}''
             then Some (PDict [(str ''results'', PList [PInt 1])]) else None)
        (str ''Sources:'' @ [10] @ str ''- http://a b'' @ [10] @ str ''RESULTS_JSON'' @ [10]
         @ [123, 34] @ str ''results'' @ [34] @ str '': [1]}'') = [PInt 1]
   \<and> (\<exists>l w. str ''RESULTS_JSON'' @ [10] @ [123, 34] @ str ''results'' @ [34] @ str '': [1]}''
             = l @ w @ [123, 34] @ str ''results'' @ [34] @ str '': [1]}''
           \<and> map fold_case l = str ''results_json'' \<and> list_all py_isspace w)
   \<and> (\<exists>w1 q w2 w3 x m w4 r.
           [123, 34] @ str ''results'' @ [34] @ str '': [1, 2] } and more''
             = (123 # w1 @ q @ w2 @ 58 # w3 @ 91 # x # m @ 93 # w4 @ [125]) @ r
         \<and> 123 # w1 @ q @ w2 @ 58 # w3 @ 91 # x # m @ 93 # w4 @ [125]
             = [123, 34] @ str ''results'' @ [34] @ str '': [1, 2] }''
         \<and> list_all py_isspace (w1 @ w2 @ w3 @ w4))"
proof -
  let ?c = "str ''Sources:'' @ [10] @ str ''- http://a b'' @ [10] @ str ''RESULTS_JSON'' @ [10]
       @ [123, 34] @ str ''results'' @ [34] @ str '': [1]}''"
  let ?t = "str ''RESULTS_JSON'' @ [10] @ [123, 34] @ str ''results'' @ [34] @ str '': [1]}''"
  let ?o = "[123, 34] @ str ''results'' @ [34] @ str '': [1, 2] } and more''"
  let ?loads = "\<lambda>s. if s = [123, 34] @ str ''results'' @ [34] @ str '': [1]}''
             then Some (PDict [(str ''results'', PList [PInt 1])]) else None"
  note inst = search_response_parsing[where content = ?c and loads = ?loads and t = ?t]
  note inst_object = search_response_parsing[where t = ?o]
  have lines: "map strip (splitlines ?c)
      = [str ''Sources:'', str ''- http://a b'', str ''RESULTS_JSON'',
         [123, 34] @ str ''results'' @ [34] @ str '': [1]}'']"
    by (simp add: str_def splitlines_def is_linebreak_def strip_def lstrip_def rstrip_def
        py_isspace_def)
  have urls: "bullet_urls InSources ?c = [str ''http://a'']"
    unfolding bullet_urls_def lines
    by (simp add: str_def strip_def lstrip_def rstrip_def py_isspace_def header_of_def lower_def
        lower_cps_def lower_cp_def startswith_def is_bullet_line_def bullet_text_def
        lstrip_chars_def split_space_first_def Let_def)
  have profiles: "bullet_urls InLinkedin ?c = []"
    unfolding bullet_urls_def lines
    by (simp add: str_def header_of_def lower_def lower_cps_def lower_cp_def startswith_def Let_def)
  have block: "results_block ?c = Some ?t"
    by (simp add: results_block_def labelled_tail_def str_def fold_case_def lower_cp_def
        lstrip_def py_isspace_def)
  have json: "results_text ?c = Some ([123, 34] @ str ''results'' @ [34] @ str '': [1]}'')"
    by (simp add: results_text_def labelled_tail_def json_from_label_def str_def fold_case_def
        lower_cp_def lstrip_def py_isspace_def)
  have tail: "labelled_tail ?t"
    by (simp add: labelled_tail_def str_def fold_case_def lower_cp_def lstrip_def py_isspace_def)
  have text_of: "json_from_label ?t = [123, 34] @ str ''results'' @ [34] @ str '': [1]}''"
    by (simp add: json_from_label_def str_def lstrip_def py_isspace_def)
  have object: "results_object ?o = Some ([123, 34] @ str ''results'' @ [34] @ str '': [1, 2] }'')"
    by (simp add: results_object_def results_object_rest_def str_def fold_case_def lower_cp_def
        lstrip_def py_isspace_def)
  have 1: "sources (parse_structured_search_response ?c) = [str ''http://a'']"
    using inst[THEN conjunct1] urls by simp
  have 2: "linkedin_profiles (parse_structured_search_response ?c) = []"
    using inst[THEN conjunct2, THEN conjunct1] profiles by simp
  have 3: "startswith (str ''http://a'') (str ''http'') \<and> 32 \<notin> set (str ''http://a'')"
    using inst[THEN conjunct2, THEN conjunct2, THEN conjunct1] unfolding urls profiles by simp
  have 4: "find_results_block ?c = Some ?t"
    using inst[THEN conjunct2, THEN conjunct2, THEN conjunct2, THEN conjunct1] block by simp
  have 5: "extract_results_json ?loads ?c = [PInt 1]"
    using inst[THEN conjunct2, THEN conjunct2, THEN conjunct2, THEN conjunct2, THEN conjunct1]
    unfolding json by (simp add: results_list_def)
  have 6: "\<exists>l w. ?t = l @ w @ [123, 34] @ str ''results'' @ [34] @ str '': [1]}''
           \<and> map fold_case l = str ''results_json'' \<and> list_all py_isspace w"
    using inst[THEN conjunct2, THEN conjunct2, THEN conjunct2, THEN conjunct2, THEN conjunct2,
        THEN conjunct2, THEN conjunct2, THEN conjunct2, THEN conjunct2, THEN conjunct1] tail
    unfolding text_of by blast
  have 7: "\<exists>w1 q w2 w3 x m w4 r.
           ?o = (123 # w1 @ q @ w2 @ 58 # w3 @ 91 # x # m @ 93 # w4 @ [125]) @ r
         \<and> 123 # w1 @ q @ w2 @ 58 # w3 @ 91 # x # m @ 93 # w4 @ [125]
             = [123, 34] @ str ''results'' @ [34] @ str '': [1, 2] }''
         \<and> list_all py_isspace (w1 @ w2 @ w3 @ w4)"
  proof -
    from inst_object[THEN conjunct2, THEN conjunct2, THEN conjunct2, THEN conjunct2, THEN conjunct2,
        THEN conjunct2, THEN conjunct2, THEN conjunct2, THEN conjunct2, THEN conjunct2] object
    obtain w1 q w2 w3 x m w4 r where
      "?o = ([123, 34] @ str ''results'' @ [34] @ str '': [1, 2] }'') @ r"
      "[123, 34] @ str ''results'' @ [34] @ str '': [1, 2] }''
         = 123 # w1 @ q @ w2 @ 58 # w3 @ 91 # x # m @ 93 # w4 @ [125]"
      "list_all py_isspace (w1 @ w2 @ w3 @ w4)"
      by blast
    then show ?thesis by metis
  qed
  show ?thesis
    using 1 2 3 4 5 6 7 by (intro conjI) simp_all
qed

section \<open>HTTP API\<close>

text \<open>
  Claim C10.  For every request to \<open>POST /api/run\<close>: when the input is empty or consists
  of white space only, the endpoint raises HTTP 400 and leaves the jobs (and the scheduled
  background runs) as they were; otherwise it returns the job id, stores exactly one job
  under it, whose input is the stripped request input and whose \<open>max_results\<close> is the
  maximum of the requested value and 1 (so at least 1), and leaves every other job as it
  was.
\<close>

theorem api_run_validates:
  "((\<forall>c\<in>set (RunRequest.input req). py_isspace c) \<longrightarrow>
      api_run job_id now req st = (Inl (HTTPException 400 (str ''input is required'')), st))
   \<and> (\<not> (\<forall>c\<in>set (RunRequest.input req). py_isspace c) \<longrightarrow>
      (\<exists>job. api_run job_id now req st
               = (Inr job_id, st\<lparr>jobs := (jobs st)(job_id \<mapsto> job),
                                   scheduled := scheduled st @ [job_id]\<rparr>)
            \<and> JobState.input job = strip (RunRequest.input req)
            \<and> JobState.max_results job = max (RunRequest.max_results req) 1
            \<and> 1 \<le> JobState.max_results job)
      \<and> (\<forall>k. k \<noteq> job_id \<longrightarrow> jobs (snd (api_run job_id now req st)) k = jobs st k)
      \<and> dom (jobs (snd (api_run job_id now req st))) = insert job_id (dom (jobs st)))"
proof (cases "\<forall>c\<in>set (RunRequest.input req). py_isspace c")
  case True
  then have "strip (RunRequest.input req) = []"
    by (simp add: strip_empty)
  then show ?thesis
    using True by (simp add: api_run_def)
next
  case False
  then have ne: "strip (RunRequest.input req) \<noteq> []" "RunRequest.input req \<noteq> []"
    by (auto simp add: strip_empty)
  let ?job = "\<lparr>id' = job_id, status = str ''queued'', created_at = now, updated_at = now,
      input = strip (RunRequest.input req), max_results = max (RunRequest.max_results req) 1,
      verbose = RunRequest.verbose req, progress = 0,
      logs = [str ''Job queued'', str ''Input: '' @ strip (RunRequest.input req)],
      results = None, error = None\<rparr>"
  have run: "api_run job_id now req st
      = (Inr job_id, st\<lparr>jobs := (jobs st)(job_id \<mapsto> ?job), scheduled := scheduled st @ [job_id]\<rparr>)"
    using ne by (simp add: api_run_def Let_def)
  have "\<exists>job. api_run job_id now req st
               = (Inr job_id, st\<lparr>jobs := (jobs st)(job_id \<mapsto> job),
                                   scheduled := scheduled st @ [job_id]\<rparr>)
            \<and> JobState.input job = strip (RunRequest.input req)
            \<and> JobState.max_results job = max (RunRequest.max_results req) 1
            \<and> 1 \<le> JobState.max_results job"
    by (rule exI[of _ ?job]) (simp add: run)
  then show ?thesis
    using False by (simp add: run)
qed

theorem api_run_validates_witness:
  "api_run (str ''0123456789ab'') (str ''2024-01-01T00:00:00'')
      \<lparr>RunRequest.input = str ''  '', RunRequest.max_results = 5, RunRequest.verbose = True\<rparr> \<lparr>jobs = Map.empty, scheduled = []\<rparr>
     = (Inl (HTTPException 400 (str ''input is required'')), \<lparr>jobs = Map.empty, scheduled = []\<rparr>)
   \<and> (\<exists>job. jobs (snd (api_run (str ''0123456789ab'') (str ''2024-01-01T00:00:00'')
                 \<lparr>RunRequest.input = str '' find x '', RunRequest.max_results = - 4, RunRequest.verbose = True\<rparr>
                 \<lparr>jobs = Map.empty, scheduled = []\<rparr>)) (str ''0123456789ab'') = Some job
         \<and> JobState.input job = str ''find x'' \<and> JobState.max_results job = 1)"
proof -
  have blank: "\<forall>c\<in>set (RunRequest.input \<lparr>RunRequest.input = str ''  '', RunRequest.max_results = 5, RunRequest.verbose = True\<rparr>).
      py_isspace c"
    by (simp add: str_def py_isspace_def)
  have "api_run (str ''0123456789ab'') (str ''2024-01-01T00:00:00'')
      \<lparr>RunRequest.input = str ''  '', RunRequest.max_results = 5, RunRequest.verbose = True\<rparr> \<lparr>jobs = Map.empty, scheduled = []\<rparr>
     = (Inl (HTTPException 400 (str ''input is required'')), \<lparr>jobs = Map.empty, scheduled = []\<rparr>)"
    using api_run_validates[of "\<lparr>RunRequest.input = str ''  '', RunRequest.max_results = 5, RunRequest.verbose = True\<rparr>"
        "str ''0123456789ab''" "str ''2024-01-01T00:00:00''" "\<lparr>jobs = Map.empty, scheduled = []\<rparr>"]
      blank by blast
  moreover have "\<exists>job. jobs (snd (api_run (str ''0123456789ab'') (str ''2024-01-01T00:00:00'')
                 \<lparr>RunRequest.input = str '' find x '', RunRequest.max_results = - 4, RunRequest.verbose = True\<rparr>
                 \<lparr>jobs = Map.empty, scheduled = []\<rparr>)) (str ''0123456789ab'') = Some job
         \<and> JobState.input job = str ''find x'' \<and> JobState.max_results job = 1"
    by (simp add: api_run_def Let_def str_def strip_def lstrip_def rstrip_def py_isspace_def)
  ultimately show ?thesis by simp
qed

section \<open>Task tracker\<close>

lemma set_dict_set: "set (dict_set d k v) \<subseteq> insert (k, v) (set d)"
  by (induction d k v rule: dict_set.induct) auto

lemma tasks_in_range_dict_set:
  assumes "tasks_in_range agent" "0 \<le> progress_percentage task" "progress_percentage task \<le> 100"
  shows "tasks_in_range (agent\<lparr>tasks := dict_set (tasks agent) tid task\<rparr>)"
  using assms set_dict_set[of "tasks agent" tid task]
  unfolding tasks_in_range_def by fastforce

lemma tasks_update_overall [simp]: "tasks (update_overall_progress rnd agent) = tasks agent"
  by (simp add: update_overall_progress_def Let_def split: prod.splits)

lemma tasks_in_range_update_overall [simp]:
  "tasks_in_range (update_overall_progress rnd agent) = tasks_in_range agent"
  by (simp add: tasks_in_range_def)

lemma tasks_in_range_create: "tasks_in_range agent \<Longrightarrow> tasks_in_range (create_task now tid ty agent)"
  unfolding create_task_def Let_def by (rule tasks_in_range_dict_set) simp_all

lemma tasks_in_range_update:
  assumes "tasks_in_range agent"
  shows "tasks_in_range (update_task_status rnd now tid st p e d agent)"
proof (cases "map_of (tasks agent) tid")
  case None
  then show ?thesis using assms by (simp add: update_task_status_def)
next
  case (Some task)
  then have "(tid, task) \<in> set (tasks agent)" by (rule map_of_SomeD)
  then have r: "0 \<le> progress_percentage task" "progress_percentage task \<le> 100"
    using assms unfolding tasks_in_range_def by force+
  show ?thesis
    unfolding update_task_status_def Some option.case Let_def tasks_in_range_update_overall
    by (rule tasks_in_range_dict_set[OF assms]) (use r in \<open>auto split: option.splits\<close>)
qed

lemma tasks_in_range_step: "tasks_in_range agent \<Longrightarrow> tasks_in_range (tracker_step rnd agent op)"
  by (cases op)
    (simp_all add: tasks_in_range_create tasks_in_range_update log_error_def reset_workflow_def,
      simp add: tasks_in_range_def)

lemma tasks_in_range_run: "tasks_in_range agent \<Longrightarrow> tasks_in_range (tracker_run rnd ops agent)"
  unfolding tracker_run_def
  by (induction ops arbitrary: agent) (simp_all add: tasks_in_range_step)

lemma task_weight_exact_pos: "0 < task_weight exact ty"
  by (cases ty) (simp_all add: exact_def)

lemma progress_loop_exact:
  assumes "\<forall>task\<in>set ts. 0 \<le> progress_percentage task \<and> progress_percentage task \<le> 100"
    and "0 \<le> tw" "0 \<le> wp" "wp \<le> 100 * tw"
    and "progress_loop exact ts tw wp = (tw', wp')"
  shows "tw \<le> tw' \<and> 0 \<le> wp' \<and> wp' \<le> 100 * tw' \<and> (ts \<noteq> [] \<longrightarrow> 0 < tw')"
  using assms
proof (induction ts arbitrary: tw wp)
  case Nil
  then show ?case by simp
next
  case (Cons task ts)
  let ?w = "task_weight exact (task_type task)"
  let ?c = "if TaskProgress.status task = COMPLETED then ?w * 100
            else if TaskProgress.status task = IN_PROGRESS then ?w * progress_percentage task
            else if TaskProgress.status task = FAILED then ?w * min (progress_percentage task) 50
            else 0"
  have w: "0 < ?w" by (rule task_weight_exact_pos)
  have p: "0 \<le> progress_percentage task" "progress_percentage task \<le> 100"
    using Cons.prems(1) by simp_all
  have c: "0 \<le> ?c" "?c \<le> 100 * ?w"
    using w p by (auto simp: mult_le_cancel_left_pos min_def intro: mult_nonneg_nonneg)
  have run: "progress_loop exact ts (tw + ?w) (wp + ?c) = (tw', wp')"
    using Cons.prems(5) by (simp add: Let_def exact_def[of "_ + _"] exact_def[of "_ * _"] split: if_splits)
  have "tw + ?w \<le> tw' \<and> 0 \<le> wp' \<and> wp' \<le> 100 * tw' \<and> (ts \<noteq> [] \<longrightarrow> 0 < tw')"
  proof (rule Cons.IH[OF _ _ _ _ run])
    show "\<forall>task\<in>set ts. 0 \<le> progress_percentage task \<and> progress_percentage task \<le> 100"
      using Cons.prems(1) by simp
    show "0 \<le> tw + ?w" using w Cons.prems(2) by simp
    show "0 \<le> wp + ?c" using c(1) Cons.prems(3) by simp
    show "wp + ?c \<le> 100 * (tw + ?w)" using c(2) Cons.prems(4) by (simp add: algebra_simps)
  qed
  then show ?case using w Cons.prems(2) by auto
qed

lemma overall_exact:
  assumes "tasks_in_range agent"
  shows "0 \<le> overall_progress (update_overall_progress exact agent)
       \<and> overall_progress (update_overall_progress exact agent) \<le> 100"
proof (cases "tasks agent = []")
  case True
  then show ?thesis by (simp add: update_overall_progress_def)
next
  case False
  obtain tw wp where run: "progress_loop exact (map snd (tasks agent)) 0 0 = (tw, wp)"
    by (cases "progress_loop exact (map snd (tasks agent)) 0 0") auto
  have "0 \<le> tw \<and> 0 \<le> wp \<and> wp \<le> 100 * tw \<and> (map snd (tasks agent) \<noteq> [] \<longrightarrow> 0 < tw)"
    by (rule progress_loop_exact[OF _ _ _ _ run])
      (use assms in \<open>auto simp: tasks_in_range_def\<close>)
  then have "0 < tw" "0 \<le> wp" "wp \<le> 100 * tw" using False by auto
  then have "0 \<le> wp / tw" "wp / tw \<le> 100"
    by (simp_all add: pos_divide_le_eq)
  then show ?thesis
    using False run \<open>0 < tw\<close> by (simp add: update_overall_progress_def exact_def[of "_ / _"])
qed

lemma exact_step:
  assumes "tasks_in_range agent" "overall_in_range agent"
  shows "overall_in_range (tracker_step exact agent op)"
proof -
  have upd: "overall_in_range (update_task_status exact now tid st p e d agent)" for now tid st p e d
  proof (cases "map_of (tasks agent) tid")
    case None
    then show ?thesis using assms(2) by (simp add: update_task_status_def)
  next
    case (Some task)
    have "tasks_in_range (update_task_status exact now tid st p e d agent)"
      by (rule tasks_in_range_update[OF assms(1)])
    then show ?thesis
      unfolding update_task_status_def Some option.case Let_def tasks_in_range_update_overall
        overall_in_range_def
      by (rule overall_exact)
  qed
  show ?thesis
    using assms(2) upd
    by (cases op) (simp_all add: log_error_def create_task_def reset_workflow_def
        overall_in_range_def Let_def)
qed

lemma exact_run:
  "tasks_in_range agent \<Longrightarrow> overall_in_range agent
     \<Longrightarrow> overall_in_range (tracker_run exact ops agent)"
  unfolding tracker_run_def
  by (induction ops arbitrary: agent) (simp_all add: tasks_in_range_step exact_step)

text \<open>
  The progress of every task stays in the range 0 to 100 under any sequence of tracker
  operations, whatever the rounding; with the arithmetic of the rationals the overall
  progress stays in that range too.
\<close>

lemma task_progress_in_range:
  "tasks_in_range (tracker_run rnd ops (init_tracker now))"
  by (rule tasks_in_range_run) (simp add: tasks_in_range_def init_tracker_def)

lemma overall_progress_in_range_exact:
  "overall_in_range (tracker_run exact ops (init_tracker now))"
  by (rule exact_run) (simp_all add: tasks_in_range_def overall_in_range_def init_tracker_def)

text \<open>
  Claim C9.  The claim says that the overall progress always lies between 0 and 100.  In
  the floating-point arithmetic of the program it does not: after the tracker calls of a
  successful workflow run (three completed tasks with the weights 0.6, 0.1 and 0.1) the
  weights add up to 0.7999999999999999, the weighted progress to 80.0, and their quotient
  is \<open>100 + 2\<^sup>-\<^sup>4\<^sup>6\<close>, which Python prints as 100.00000000000001.
\<close>

theorem overall_progress_exceeds_100:
  "overall_progress (tracker_run float64 workflow_ops (init_tracker 0))
     = 7036874417766401 / 70368744177664
   \<and> \<not> overall_in_range (tracker_run float64 workflow_ops (init_tracker 0))"
proof -
  have "overall_progress (tracker_run float64 workflow_ops (init_tracker 0))
     = 7036874417766401 / 70368744177664"
    by code_simp
  then show ?thesis
    by (simp add: overall_in_range_def)
qed

section \<open>Summary statistics\<close>

lemma apply_len_sized:
  "list_all sized col \<Longrightarrow> \<exists>ns. apply_len col = Inr ns \<and> length ns = length col"
proof (induction col)
  case Nil
  then show ?case by simp
next
  case (Cons v vs)
  then obtain ns where "apply_len vs = Inr ns" "length ns = length vs" by auto
  moreover from Cons.prems obtain n where "py_len v = Inr n"
    by (cases v) (auto simp: sized_def)
  ultimately show ?case by simp
qed

lemma apply_len_unsized:
  "\<not> list_all sized col \<Longrightarrow> \<exists>e. apply_len col = Inl e"
proof (induction col)
  case Nil
  then show ?case by simp
next
  case (Cons v vs)
  show ?case
  proof (cases "sized v")
    case True
    then obtain n where "py_len v = Inr n" by (cases v) (auto simp: sized_def)
    moreover from True Cons.prems have "\<not> list_all sized vs" by simp
    then obtain e where "apply_len vs = Inl e" using Cons.IH by auto
    ultimately show ?thesis by simp
  next
    case False
    then have "py_len v = Inl (TypeError v)" by (cases v) (auto simp: sized_def)
    then show ?thesis by simp
  qed
qed

lemma filter_unhashable_empty:
  "filter (\<lambda>v. \<not> hashable v) col = [] \<longleftrightarrow> list_all hashable col"
  by (induction col) auto

lemma nunique_hashable: "list_all hashable col \<Longrightarrow> \<exists>n. nunique col = Inr n"
  using filter_unhashable_empty[of col] by (simp add: nunique_def)

lemma nunique_unhashable: "\<not> list_all hashable col \<Longrightarrow> \<exists>e. nunique col = Inl e"
  using filter_unhashable_empty[of col]
  by (cases "filter (\<lambda>v. \<not> hashable v) col") (simp_all add: nunique_def)

lemma value_counts_hashable: "list_all hashable col \<Longrightarrow> \<exists>cs. value_counts col = Inr cs"
  using filter_unhashable_empty[of col] by (simp add: value_counts_def)

lemma value_counts_unhashable: "\<not> list_all hashable col \<Longrightarrow> \<exists>e. value_counts col = Inl e"
  using filter_unhashable_empty[of col]
  by (cases "filter (\<lambda>v. \<not> hashable v) col") (simp_all add: value_counts_def)

lemma compute_stats_computable:
  assumes "stats_computable data"
  shows "\<exists>stats. compute_stats data = Inr stats \<and> total_records stats = length (rows data)"
proof -
  have 1: "\<exists>n. (if str ''location'' \<in> set (columns data) then nunique (column data (str ''location''))
            else Inr 0) = Inr n"
    using assms nunique_hashable[of "column data (str ''location'')"]
    by (auto simp: stats_computable_def)
  have 2: "\<exists>ns. (if str ''all_skills'' \<in> set (columns data)
            then apply_len (column data (str ''all_skills'')) else Inr []) = Inr ns"
    using assms apply_len_sized[of "column data (str ''all_skills'')"]
    by (auto simp: stats_computable_def)
  have 3: "\<exists>ns. (if str ''experience'' \<in> set (columns data)
            then apply_len (column data (str ''experience'')) else Inr []) = Inr ns"
    using assms apply_len_sized[of "column data (str ''experience'')"]
    by (auto simp: stats_computable_def)
  have 4: "\<exists>cs. (if str ''location'' \<in> set (columns data)
            then value_counts (column data (str ''location'')) else Inr []) = Inr cs"
    using assms value_counts_hashable[of "column data (str ''location'')"]
    by (auto simp: stats_computable_def)
  have 5: "\<exists>cs. (if str ''source'' \<in> set (columns data)
            then value_counts (column data (str ''source'')) else Inr []) = Inr cs"
    using assms value_counts_hashable[of "column data (str ''source'')"]
    by (auto simp: stats_computable_def)
  from 1 2 3 4 5 show ?thesis
    unfolding compute_stats_def by (elim exE) (simp del: apply_len.simps)
qed

lemma compute_stats_not_computable:
  assumes "\<not> stats_computable data"
  shows "\<exists>e. compute_stats data = Inl e"
proof -
  consider
    (loc) "str ''location'' \<in> set (columns data)" "\<not> list_all hashable (column data (str ''location''))"
  | (skills) "str ''all_skills'' \<in> set (columns data)" "\<not> list_all sized (column data (str ''all_skills''))"
  | (exp) "str ''experience'' \<in> set (columns data)" "\<not> list_all sized (column data (str ''experience''))"
  | (src) "str ''source'' \<in> set (columns data)" "\<not> list_all hashable (column data (str ''source''))"
    using assms unfolding stats_computable_def by blast
  then show ?thesis
  proof cases
    case loc
    then obtain e where "nunique (column data (str ''location'')) = Inl e"
      using nunique_unhashable by blast
    then show ?thesis using loc(1) by (simp add: compute_stats_def)
  next
    case skills
    then obtain e where "apply_len (column data (str ''all_skills'')) = Inl e"
      using apply_len_unsized by blast
    then show ?thesis using skills(1)
      by (simp add: compute_stats_def split: sum.splits)
  next
    case exp
    then obtain e where "apply_len (column data (str ''experience'')) = Inl e"
      using apply_len_unsized by blast
    then show ?thesis using exp(1)
      by (simp add: compute_stats_def split: sum.splits)
  next
    case src
    then obtain e where "value_counts (column data (str ''source'')) = Inl e"
      using value_counts_unhashable by blast
    then show ?thesis using src(1)
      by (simp add: compute_stats_def split: sum.splits)
  qed
qed

lemma keys_dict_incr [simp]: "map fst (dict_incr levels key) = map fst levels"
  by (induction levels) (auto simp: dict_incr_def)

lemma map_of_dict_incr:
  "map_of (dict_incr levels key) k
     = map_option (\<lambda>n. if k = key then n + 1 else n) (map_of levels k)"
  by (induction levels) (auto simp: dict_incr_def)

lemma level_count_dict_incr:
  "level_count (dict_incr levels key) k =
     (if k = key \<and> key \<in> set (map fst levels) then level_count levels k + 1 else level_count levels k)"
proof (cases "map_of levels k")
  case None
  then have "k \<notin> set (map fst levels)" by (simp add: map_of_eq_None_iff)
  with None show ?thesis by (auto simp: level_count_def map_of_dict_incr)
next
  case (Some n)
  then have "k \<in> set (map fst levels)" by (metis map_of_eq_None_iff option.distinct(1) set_map)
  with Some show ?thesis by (auto simp: level_count_def map_of_dict_incr)
qed

lemma sum_dict_incr:
  "distinct (map fst levels) \<Longrightarrow>
   sum_list (map snd (dict_incr levels key)) =
     sum_list (map snd levels) + (if key \<in> set (map fst levels) then 1 else 0)"
  by (induction levels) (auto simp: dict_incr_def rev_image_eqI)

lemma keys_levels_loop [simp]: "map fst (levels_loop cells levels) = map fst levels"
  by (induction cells levels rule: levels_loop.induct) simp_all

lemma level_count_levels_loop:
  "level_count (levels_loop cells levels) k =
     level_count levels k
       + (if k \<in> set (map fst levels)
          then length (filter (\<lambda>h. headline_level h = k) (concat (map the_str cells))) else 0)"
  by (induction cells levels rule: levels_loop.induct) (auto simp: level_count_dict_incr)

lemma headline_level_key: "headline_level h \<in> set (map fst zero_levels)"
  by (simp add: headline_level_def zero_levels_def Let_def)

lemma sum_levels_loop:
  "distinct (map fst levels) \<Longrightarrow> set (map fst levels) = set (map fst zero_levels) \<Longrightarrow>
   sum_list (map snd (levels_loop cells levels)) =
     sum_list (map snd levels) + length (concat (map the_str cells))"
proof (induction cells levels rule: levels_loop.induct)
  case (2 hl rest levels)
  have "headline_level hl \<in> set (map fst levels)"
    using headline_level_key 2(3) by simp
  then show ?case using 2 by (simp add: sum_dict_incr)
qed simp_all

lemma distinct_zero_levels: "distinct (map fst zero_levels)"
  by (simp add: zero_levels_def str_def)

lemma string_headlines_empty: "df_empty data \<Longrightarrow> string_headlines data = []"
  by (auto simp: df_empty_def string_headlines_def column_def)

lemma levels_keys: "map fst (analyze_experience_levels data) = map fst zero_levels"
  by (simp add: analyze_experience_levels_def)

lemma levels_sum:
  "sum_list (map snd (analyze_experience_levels data)) = length (string_headlines data)"
proof -
  have z: "sum_list (map snd zero_levels) = 0" by (simp add: zero_levels_def)
  show ?thesis
  proof (cases "df_empty data \<or> str ''headline'' \<notin> set (columns data)")
    case True
    then have "string_headlines data = []"
      using string_headlines_empty[of data] by (auto simp: string_headlines_def)
    moreover have "analyze_experience_levels data = zero_levels"
      using True by (auto simp: analyze_experience_levels_def)
    ultimately show ?thesis using z by simp
  next
    case False
    then have "analyze_experience_levels data
        = levels_loop (column data (str ''headline'')) zero_levels"
      and "string_headlines data = concat (map the_str (column data (str ''headline'')))"
      by (simp_all add: analyze_experience_levels_def string_headlines_def)
    then show ?thesis
      using sum_levels_loop[OF distinct_zero_levels refl, of "column data (str ''headline'')"] z
      by simp
  qed
qed

lemma levels_count:
  "level_count (analyze_experience_levels data) k =
     length (filter (\<lambda>h. headline_level h = k) (string_headlines data))"
proof -
  have z: "level_count zero_levels k = 0"
    by (simp add: zero_levels_def level_count_def)
  have nk: "filter (\<lambda>h. headline_level h = k) hs = []" if "k \<notin> set (map fst zero_levels)" for hs
    using that headline_level_key by (auto simp: filter_empty_conv)
  show ?thesis
    using string_headlines_empty[of data] z nk
    by (auto simp add: analyze_experience_levels_def level_count_levels_loop string_headlines_def)
qed

text \<open>
  Claim C4, as amended.  For every DataFrame that is not empty and whose entries can all
  be computed (every \<open>all_skills\<close> and \<open>experience\<close> cell has a length, every
  \<open>location\<close> and \<open>source\<close> cell can be hashed), \<open>_generate_summary_statistics\<close>
  returns \<open>total_records\<close> equal to the number of rows; for an empty DataFrame, and when
  computing an entry raises, it returns the all-zero counts and empty dictionaries.
  \<open>_analyze_experience_levels\<close> returns counts for exactly the keys entry, mid, senior,
  executive, unknown; the count of a level is the number of string-valued headlines that
  the first matching branch assigns to it, and the five counts add up to the number of rows
  whose headline is a string.
\<close>

theorem summary_statistics_counts:
  "(\<not> df_empty data \<and> stats_computable data \<longrightarrow>
      total_records (generate_summary_statistics data) = length (rows data))
   \<and> (df_empty data \<or> \<not> stats_computable data \<longrightarrow> generate_summary_statistics data = zero_stats)
   \<and> map fst (analyze_experience_levels data)
       = map str [''entry'', ''mid'', ''senior'', ''executive'', ''unknown'']
   \<and> (\<forall>level. level_count (analyze_experience_levels data) level
        = length (filter (\<lambda>h. headline_level h = level) (string_headlines data)))
   \<and> sum_list (map snd (analyze_experience_levels data)) = length (string_headlines data)"
proof -
  have a: "total_records (generate_summary_statistics data) = length (rows data)"
    if "\<not> df_empty data" "stats_computable data"
    using compute_stats_computable[OF that(2)] that(1)
    by (auto simp: generate_summary_statistics_def)
  have b: "generate_summary_statistics data = zero_stats"
    if "df_empty data \<or> \<not> stats_computable data"
    using that compute_stats_not_computable[of data]
    by (auto simp: generate_summary_statistics_def)
  show ?thesis
    using a b levels_count levels_sum
    by (simp add: levels_keys zero_levels_def)
qed

text \<open>
  The claim as stated fails: a frame with one row whose \<open>experience\<close> cell is \<open>None\<close>
  has one row, and \<open>total_records\<close> is 0 (\<open>len(None)\<close> raises, the \<open>except\<close>
  branch returns the zero dictionary).
\<close>

theorem summary_statistics_counterexample:
  "total_records (generate_summary_statistics
      \<lparr>columns = [str ''name'', str ''experience''],
       rows = [[(str ''name'', PStr (str ''Ada'')), (str ''experience'', PNone)]]\<rparr>) = 0
   \<and> length (rows \<lparr>columns = [str ''name'', str ''experience''],
       rows = [[(str ''name'', PStr (str ''Ada'')), (str ''experience'', PNone)]]\<rparr>) = 1"
  by (simp add: generate_summary_statistics_def df_empty_def compute_stats_def column_def
      dict_get_def zero_stats_def str_def nunique_def value_counts_def)

theorem summary_statistics_witness:
  "total_records (generate_summary_statistics
      \<lparr>columns = [str ''headline'', str ''experience''],
       rows = [[(str ''headline'', PStr (str ''Senior Engineer'')), (str ''experience'', PList [])],
               [(str ''headline'', PNone), (str ''experience'', PList [PDict []])]]\<rparr>) = 2
   \<and> sum_list (map snd (analyze_experience_levels
      \<lparr>columns = [str ''headline'', str ''experience''],
       rows = [[(str ''headline'', PStr (str ''Senior Engineer'')), (str ''experience'', PList [])],
               [(str ''headline'', PNone), (str ''experience'', PList [PDict []])]]\<rparr>)) = 1"
proof -
  let ?data = "\<lparr>columns = [str ''headline'', str ''experience''],
       rows = [[(str ''headline'', PStr (str ''Senior Engineer'')), (str ''experience'', PList [])],
               [(str ''headline'', PNone), (str ''experience'', PList [PDict []])]]\<rparr>"
  have ne: "\<not> df_empty ?data" by (simp add: df_empty_def)
  have ok: "stats_computable ?data"
    by (simp add: stats_computable_def column_def dict_get_def sized_def str_def)
  have hs: "string_headlines ?data = [str ''Senior Engineer'']"
    by (simp add: string_headlines_def column_def dict_get_def str_def)
  note inst = summary_statistics_counts[of ?data]
  have "total_records (generate_summary_statistics ?data) = length (rows ?data)"
    using inst ne ok by blast
  moreover have "sum_list (map snd (analyze_experience_levels ?data)) = length (string_headlines ?data)"
    using inst by blast
  ultimately show ?thesis
    using hs by simp
qed

section \<open>The report is text only\<close>

lemma render_summary_ignores_charts:
  "render_summary rs (rc\<lparr>rd_charts := charts, rd_report_format := fmt\<rparr>) = render_summary rs rc"
  by (simp add: render_summary_def cong: sum.case_cong option.case_cong if_cong)

lemma render_sources_ignores_charts:
  "render_sources rs (rc\<lparr>rd_charts := charts, rd_report_format := fmt\<rparr>) = render_sources rs rc"
  by (simp add: render_sources_def cong: sum.case_cong option.case_cong if_cong)

lemma render_linkedin_ignores_charts:
  "render_linkedin rs (rc\<lparr>rd_charts := charts, rd_report_format := fmt\<rparr>) = render_linkedin rs rc"
  by (simp add: render_linkedin_def)

lemma render_ignores_charts:
  "render_template rs (rc\<lparr>rd_charts := charts, rd_report_format := fmt\<rparr>) = render_template rs rc"
  unfolding render_template_def render_summary_ignores_charts render_sources_ignores_charts
    render_linkedin_ignores_charts
  by (simp cong: sum.case_cong option.case_cong if_cong)

lemma context_charts:
  "build_report_context rs agent data ai stats fmt = Inr rc \<Longrightarrow> rd_charts rc = generated_charts agent"
  by (auto simp: build_report_context_def Let_def split: sum.splits)

lemma context_depends:
  "build_report_context rs (agent\<lparr>generated_charts := charts\<rparr>) data ai stats fmt'
     = map_sum id (\<lambda>rc. rc\<lparr>rd_charts := charts, rd_report_format := fmt'\<rparr>)
         (build_report_context rs agent data ai stats fmt)"
  by (simp add: build_report_context_def Let_def split: sum.splits)

lemma create_report_ignores_charts:
  "create_report rs (agent\<lparr>generated_charts := charts\<rparr>) data ai stats fmt'
     = create_report rs agent data ai stats fmt"
proof (cases "build_report_context rs agent data ai stats fmt")
  case (Inl e)
  then show ?thesis
    by (simp add: create_report_def context_depends[where fmt = fmt])
next
  case (Inr rc)
  then show ?thesis
    by (simp add: create_report_def context_depends[where fmt = fmt] render_ignores_charts)
qed

text \<open>
  Claim C6.  For every DataFrame and every \<open>report_format\<close> (also with
  \<open>include_charts\<close> true), \<open>generate_report\<close> leaves \<open>generated_charts\<close> empty and
  returns what \<open>_create_report\<close> makes of an agent whose \<open>generated_charts\<close> is empty:
  the dictionary handed to the template has the empty list under \<open>charts\<close>.  The
  template reads neither \<open>charts\<close> nor \<open>report_format\<close>, and the report returned is the
  same whatever charts the agent held before and whatever the format flags are: no chart
  data reaches the report.
\<close>

theorem generate_report_text_only:
  "generated_charts (fst (snd (generate_report rs data fmt ctx (agent, tr)))) = []
   \<and> fst (generate_report rs data fmt ctx (agent, tr))
       = create_report rs (agent\<lparr>report_data := Some data, search_context := ctx, generated_charts := []\<rparr>)
           data (generate_ai_analysis rs ctx data) (generate_summary_statistics data) fmt
   \<and> (\<forall>rc. build_report_context rs
              (agent\<lparr>report_data := Some data, search_context := ctx, generated_charts := []\<rparr>)
              data (generate_ai_analysis rs ctx data) (generate_summary_statistics data) fmt = Inr rc
          \<longrightarrow> rd_charts rc = [])
   \<and> render_template rs (rc'\<lparr>rd_charts := charts, rd_report_format := fmt'\<rparr>) = render_template rs rc'
   \<and> fst (generate_report rs data fmt' ctx (agent\<lparr>generated_charts := charts\<rparr>, tr'))
       = fst (generate_report rs data fmt ctx (agent, tr))"
proof -
  have report: "fst (generate_report rs data f ctx (a, t))
       = create_report rs (a\<lparr>report_data := Some data, search_context := ctx, generated_charts := []\<rparr>)
           data (generate_ai_analysis rs ctx data) (generate_summary_statistics data) f" for f a t
    by (simp add: generate_report_def Let_def)
  have "create_report rs (agent\<lparr>report_data := Some data, search_context := ctx, generated_charts := []\<rparr>)
           data (generate_ai_analysis rs ctx data) (generate_summary_statistics data) fmt'
      = create_report rs (agent\<lparr>report_data := Some data, search_context := ctx, generated_charts := []\<rparr>)
           data (generate_ai_analysis rs ctx data) (generate_summary_statistics data) fmt"
    using create_report_ignores_charts[where charts = "[]"
        and agent = "agent\<lparr>report_data := Some data, search_context := ctx, generated_charts := []\<rparr>"]
    by simp
  then have same: "fst (generate_report rs data fmt' ctx (agent\<lparr>generated_charts := charts\<rparr>, tr'))
       = fst (generate_report rs data fmt ctx (agent, tr))"
    by (simp add: report)
  have charts: "generated_charts (fst (snd (generate_report rs data fmt ctx (agent, tr)))) = []"
    by (simp add: generate_report_def Let_def)
  show ?thesis
    using charts report[of fmt agent tr] same context_charts render_ignores_charts
    by auto
qed


theorem generate_report_witness:
  "generated_charts (fst (snd (generate_report
      \<lparr>llm_analysis = (\<lambda>c s d. Inl (ServiceError [])), json_loads = (\<lambda>s. None),
        py_str = (\<lambda>v. []), exn_message = (\<lambda>e. []), generated_at = str ''2024-01-01 00:00:00''\<rparr>
      \<lparr>columns = [str ''name''], rows = [[(str ''name'', PStr (str ''Ada''))]]\<rparr>
      \<lparr>include_charts = True, include_summary = True, format = str ''markdown''\<rparr>
      []
      (\<lparr>report_data = None, generated_charts = [[(str ''data'', PStr (str ''iVBORw0KGgo''))]],
         search_context = []\<rparr>, [])))) = []
   \<and> (\<exists>rc. build_report_context
      \<lparr>llm_analysis = (\<lambda>c s d. Inl (ServiceError [])), json_loads = (\<lambda>s. None),
        py_str = (\<lambda>v. []), exn_message = (\<lambda>e. []), generated_at = str ''2024-01-01 00:00:00''\<rparr>
      \<lparr>report_data = Some \<lparr>columns = [str ''name''], rows = [[(str ''name'', PStr (str ''Ada''))]]\<rparr>,
        generated_charts = [], search_context = []\<rparr>
      \<lparr>columns = [str ''name''], rows = [[(str ''name'', PStr (str ''Ada''))]]\<rparr>
      (analysis_of (str ''Unable to generate AI analysis due to technical issues''))
      (generate_summary_statistics
         \<lparr>columns = [str ''name''], rows = [[(str ''name'', PStr (str ''Ada''))]]\<rparr>)
      \<lparr>include_charts = True, include_summary = True, format = str ''markdown''\<rparr> = Inr rc
      \<and> rd_charts rc = [])"
proof -
  let ?rs = "\<lparr>llm_analysis = (\<lambda>c s d. Inl (ServiceError [])), json_loads = (\<lambda>s. None),
        py_str = (\<lambda>v. []), exn_message = (\<lambda>e. []), generated_at = str ''2024-01-01 00:00:00''\<rparr>"
  let ?data = "\<lparr>columns = [str ''name''], rows = [[(str ''name'', PStr (str ''Ada''))]]\<rparr>"
  let ?fmt = "\<lparr>include_charts = True, include_summary = True, format = str ''markdown''\<rparr>"
  let ?agent = "\<lparr>report_data = None, generated_charts = [[(str ''data'', PStr (str ''iVBORw0KGgo''))]],
         search_context = []\<rparr>"
  note inst = generate_report_text_only[of ?rs ?data ?fmt "[]" ?agent "[]"]
  have ai: "generate_ai_analysis ?rs [] ?data
      = analysis_of (str ''Unable to generate AI analysis due to technical issues'')"
    by (simp add: generate_ai_analysis_def df_empty_def prepare_data_summary_def str_def)
  have "\<exists>rc. build_report_context ?rs
      (?agent\<lparr>report_data := Some ?data, search_context := [], generated_charts := []\<rparr>) ?data
      (generate_ai_analysis ?rs [] ?data) (generate_summary_statistics ?data) ?fmt = Inr rc"
    by (simp add: build_report_context_def Let_def df_empty_def head_records_def source_lower_def
        summary_snippet_def get_def dict_get_def py_or_def str_def)
  then obtain rc where rc: "build_report_context ?rs
      (?agent\<lparr>report_data := Some ?data, search_context := [], generated_charts := []\<rparr>) ?data
      (generate_ai_analysis ?rs [] ?data) (generate_summary_statistics ?data) ?fmt = Inr rc"
    by blast
  then have "rd_charts rc = []" using inst by blast
  with rc have "\<exists>rc. build_report_context ?rs
      (?agent\<lparr>report_data := Some ?data, search_context := [], generated_charts := []\<rparr>) ?data
      (generate_ai_analysis ?rs [] ?data) (generate_summary_statistics ?data) ?fmt = Inr rc
      \<and> rd_charts rc = []"
    by blast
  moreover have "generated_charts (fst (snd (generate_report ?rs ?data ?fmt [] (?agent, [])))) = []"
    using inst by blast
  ultimately show ?thesis
    unfolding ai by simp
qed

section \<open>Data assembler\<close>

lemma keys_build_record: "map fst (build_record row) = record_keys"
  by (simp add: build_record_def record_keys_def)

lemma distinct_record_keys: "distinct record_keys"
  by (simp add: record_keys_def str_def)

lemma first_occurrences:
  assumes "distinct ks" "\<forall>r\<in>set rs. r = ks" "rs \<noteq> []"
  shows "rev (remdups (rev (concat rs))) = ks"
  using assms
proof (induction rs)
  case Nil
  then show ?case by simp
next
  case (Cons r rs)
  have r: "r = ks" using Cons.prems(2) by simp
  show ?case
  proof (cases "rs = []")
    case True
    then show ?thesis using r Cons.prems(1) by (simp add: distinct_remdups_id)
  next
    case False
    then have ih: "rev (remdups (rev (concat rs))) = ks"
      using Cons by simp
    have sub: "set (concat rs) = set ks"
      using Cons.prems(2) False by (cases rs) auto
    have "remdups (rev (concat rs) @ rev ks) = remdups (rev ks)"
      using sub
      by (induction "rev (concat rs)" arbitrary: rs) (simp_all add: remdups_append)
    then show ?thesis
      using r Cons.prems(1) ih by (simp add: distinct_remdups_id)
  qed
qed

lemma dict_set_append: "key \<notin> set (map fst d) \<Longrightarrow> dict_set d key v = d @ [(key, v)]"
  by (induction d key v rule: dict_set.induct) auto

lemma all_skills_fresh: "str ''all_skills'' \<notin> set record_keys"
  by (simp add: record_keys_def str_def)

lemma keys_field_defaults: "map fst field_defaults = record_keys"
  by (simp add: field_defaults_def record_keys_def)

lemma keeps_objectsD:
  assumes "keeps_objects infer"
  shows "infer col (PStr s) = PStr s" "infer col (PList xs) = PList xs" "infer col (PDict d) = PDict d"
    and "to_list_safe (infer col v) = to_list_safe v"
proof -
  note k = assms[unfolded keeps_objects_def, rule_format]
  show "infer col (PStr s) = PStr s" using k[of col "PStr s"] by simp
  show "infer col (PList xs) = PList xs" using k[of col "PList xs"] by simp
  show "infer col (PDict d) = PDict d" using k[of col "PDict d"] by simp
  show "to_list_safe (infer col v) = to_list_safe v"
    using k[of col v] by (cases v; cases "infer col v") (simp_all add: to_list_safe_def)
qed

text \<open>The cells of a record built by the step, read by key.\<close>

lemma build_record_get:
  "(key, dflt) \<in> set field_defaults \<Longrightarrow> dict_get (build_record d) key PNaN = dict_get d key dflt"
  by (auto simp: field_defaults_def build_record_def dict_get_def str_def)

lemma columns_from_records:
  assumes "ds \<noteq> []"
  shows "columns (from_records infer (map build_record ds)) = record_keys"
  unfolding from_records_def Let_def
  using first_occurrences[OF distinct_record_keys, of "map (map fst) (map build_record ds)"] assms
  by (simp add: keys_build_record)

lemma rows_from_records:
  assumes "ds \<noteq> []"
  shows "rows (from_records infer (map build_record ds))
          = map (\<lambda>d. map (\<lambda>(key, dflt). (key, stored infer ds d key dflt)) field_defaults) ds"
proof -
  have cols: "rev (remdups (rev (concat (map (map fst) (map build_record ds))))) = record_keys"
    using first_occurrences[OF distinct_record_keys, of "map (map fst) (map build_record ds)"] assms
    by (simp add: keys_build_record)
  have cell: "map (\<lambda>c. (c, infer (map (\<lambda>x. dict_get (build_record x) c PNaN) ds)
                               (dict_get (build_record d) c PNaN))) record_keys
            = map (\<lambda>(key, dflt). (key, stored infer ds d key dflt)) field_defaults" for d
  proof -
    have "map (\<lambda>c. (c, infer (map (\<lambda>x. dict_get (build_record x) c PNaN) ds)
                               (dict_get (build_record d) c PNaN))) (map fst field_defaults)
            = map (\<lambda>(key, dflt). (key, stored infer ds d key dflt)) field_defaults"
      unfolding map_map
      by (rule map_cong) (auto simp: stored_def build_record_get o_def)
    then show ?thesis by (simp add: keys_field_defaults)
  qed
  show ?thesis
    unfolding from_records_def Let_def cols
    by (simp add: cell o_def)
qed

lemma skills_stored:
  "dict_get (map (\<lambda>(key, dflt). (key, stored infer ds d key dflt)) field_defaults) (str ''skills'') PNaN
     = stored infer ds d (str ''skills'') (PList [])"
  by (simp add: field_defaults_def dict_get_def str_def)

lemma assemble_nonempty:
  assumes "ds \<noteq> []" "keeps_objects infer"
  shows "(let df = from_records infer (map build_record ds)
          in df_assign df (str ''all_skills'') (map to_list_safe (column df (str ''skills''))))
         = \<lparr>columns = record_keys @ [str ''all_skills''], rows = map (table_row infer ds) ds\<rparr>"
proof -
  note cols = columns_from_records[OF assms(1), of infer]
  note rws = rows_from_records[OF assms(1), of infer]
  have fresh: "str ''all_skills'' \<notin> set (map fst (map (\<lambda>(key, dflt). (key, stored infer ds d key dflt)) field_defaults))" for d
    using all_skills_fresh keys_field_defaults by (simp add: o_def case_prod_unfold)
  have stored_list: "to_list_safe (stored infer ds d key dflt) = to_list_safe (dict_get d key dflt)"
    for d key dflt
    by (simp add: stored_def keeps_objectsD(4)[OF assms(2)])
  have rows: "map (\<lambda>(r, v). dict_set r (str ''all_skills'') v)
                (zip (map (\<lambda>d. map (\<lambda>(key, dflt). (key, stored infer ds d key dflt)) field_defaults) es)
                     (map to_list_safe
                        (map (\<lambda>r. dict_get r (str ''skills'') PNaN)
                           (map (\<lambda>d. map (\<lambda>(key, dflt). (key, stored infer ds d key dflt)) field_defaults) es))))
              = map (table_row infer ds) es" for es
    by (induction es)
      (simp_all add: table_row_def skills_stored dict_set_append[OF fresh] stored_list)
  have "df_assign (from_records infer (map build_record ds)) (str ''all_skills'')
          (map to_list_safe (column (from_records infer (map build_record ds)) (str ''skills'')))
        = \<lparr>columns = record_keys @ [str ''all_skills''], rows = map (table_row infer ds) ds\<rparr>"
    unfolding df_assign_def cols column_def rws
    using rows[of ds] all_skills_fresh by simp
  then show ?thesis by (simp add: Let_def)
qed

lemma web_answer_frame:
  assumes "keeps_objects infer"
  shows "from_records infer [web_answer_record a]
          = \<lparr>columns = record_keys, rows = [web_answer_record (infer [a] a)]\<rparr>"
  by (simp add: from_records_def web_answer_record_def record_keys_def str_def dict_get_def
      keeps_objectsD(1,2)[OF assms])

lemma cleaned_data_step:
  assumes "keeps_objects infer"
  shows "cleaned_data (step_prepare_dataframe infer now w) =
     (let ds = map item_dict (scraped_data w);
          ans = get (last_search_context (task_executor_agent w)) (str ''answer'')
      in if ds \<noteq> [] then Some \<lparr>columns = record_keys @ [str ''all_skills''], rows = map (table_row infer ds) ds\<rparr>
         else if truthy ans then Some \<lparr>columns = record_keys, rows = [web_answer_record (infer [ans] ans)]\<rparr>
         else Some \<lparr>columns = [], rows = []\<rparr>)"
proof (cases "scraped_data w = []")
  case True
  have e: "from_records infer [] = \<lparr>columns = [], rows = []\<rparr>" by (simp add: from_records_def)
  show ?thesis
    using True
    by (simp add: step_prepare_dataframe_def Let_def logged_def e web_answer_frame[OF assms] df_empty_def)
next
  case False
  then have ne: "map item_dict (scraped_data w) \<noteq> []" by simp
  have "\<not> df_empty (from_records infer (map build_record (map item_dict (scraped_data w))))"
    using False columns_from_records[OF ne, of infer] rows_from_records[OF ne, of infer]
    by (simp add: df_empty_def record_keys_def)
  moreover have "\<not> df_empty \<lparr>columns = record_keys @ [str ''all_skills''],
      rows = map (table_row infer (map item_dict (scraped_data w))) (map item_dict (scraped_data w))\<rparr>"
    using False by (simp add: df_empty_def)
  ultimately show ?thesis
    using False assemble_nonempty[OF ne assms]
    by (simp add: step_prepare_dataframe_def Let_def logged_def o_def)
qed




section \<open>The order of the component calls\<close>

text \<open>
  Every method of the executor only appends to the log, and what it appends lies in its
  own stretch of the order.
\<close>

lemma seg_Nil [simp]: "seg lo hi []"
  by (simp add: seg_def in_call_order_def)

lemma seg_append:
  assumes "seg lo hi xs" "seg lo' hi' ys" "hi \<le> lo'" "lo \<le> lo'" "hi \<le> hi'"
  shows "seg lo hi' (xs @ ys)"
  using assms unfolding seg_def in_call_order_def
  by (fastforce simp: sorted_append)

lemma seg_const:
  assumes "\<forall>c\<in>set xs. c = FilePersistence \<or> rank c = r"
  shows "seg r r xs"
proof -
  have "map rank (filter (\<lambda>c. c \<noteq> FilePersistence) xs)
      = replicate (length (filter (\<lambda>c. c \<noteq> FilePersistence) xs)) r"
    using assms by (induction xs) auto
  then show ?thesis
    using assms by (auto simp: seg_def in_call_order_def sorted_replicate)
qed

lemma seg_widen: "seg lo hi xs \<Longrightarrow> lo' \<le> lo \<Longrightarrow> hi \<le> hi' \<Longrightarrow> seg lo' hi' xs"
  unfolding seg_def by fastforce

lemma web_search_loop_calls:
  "\<exists>xs. calls (snd (web_search_loop sv m n qs acc agent)) = calls agent @ xs
        \<and> set xs \<subseteq> {WebSearchExecutor, FilePersistence}"
proof (induction qs arbitrary: acc agent)
  case Nil
  then show ?case by simp
next
  case (Cons q qs)
  obtain found ctx where o: "execute_web_search_with_retry sv (length (calls agent)) q (m div n)
              (last_search_context agent) = (found, ctx)"
    by (cases "execute_web_search_with_retry sv (length (calls agent)) q (m div n)
              (last_search_context agent)") auto
  let ?agent = "called FilePersistence (called WebSearchExecutor (agent\<lparr>last_search_context := ctx\<rparr>))"
  let ?res = "if found = [] then create_fallback_search_results q else found"
  have ne: "?res \<noteq> []" by (simp add: create_fallback_search_results_def)
  have step: "web_search_loop sv m n (q # qs) acc agent = web_search_loop sv m n qs (acc @ ?res) ?agent"
    using o ne by (simp add: Let_def)
  from Cons.IH[of "acc @ ?res" ?agent]
  obtain xs where "calls (snd (web_search_loop sv m n qs (acc @ ?res) ?agent)) = calls ?agent @ xs"
    "set xs \<subseteq> {WebSearchExecutor, FilePersistence}" by blast
  then show ?case
    unfolding step
    by (intro exI[of _ "[WebSearchExecutor, FilePersistence] @ xs"]) (simp add: called_def)
qed

lemma perform_web_search_calls:
  "\<exists>xs. calls (perform_web_search sv qs m agent) = calls agent @ xs
        \<and> set xs \<subseteq> {WebSearchExecutor, FilePersistence}"
  using web_search_loop_calls[of sv m "int (length qs)" qs "[]" agent]
  by (auto simp add: perform_web_search_def Let_def split: prod.splits)

lemma scrape_loop_calls:
  "\<exists>xs. calls (scrape_loop sv urls agent) = calls agent @ xs \<and> set xs \<subseteq> {LinkedInScraper}"
proof (induction urls arbitrary: agent)
  case Nil
  then show ?case by simp
next
  case (Cons u urls)
  let ?agent = "case scrape_profile sv (length (calls agent)) u of
                  None \<Rightarrow> called LinkedInScraper agent
                | Some sd \<Rightarrow> (called LinkedInScraper agent)
                     \<lparr>TaskExecutorAgent.scraped_data := TaskExecutorAgent.scraped_data (called LinkedInScraper agent) @ [sd]\<rparr>"
  have c: "calls ?agent = calls agent @ [LinkedInScraper]"
    by (simp add: called_def split: option.splits)
  from Cons.IH[of ?agent] obtain xs where
    "calls (scrape_loop sv urls ?agent) = calls ?agent @ xs" "set xs \<subseteq> {LinkedInScraper}" by blast
  then show ?case
    using c by (intro exI[of _ "LinkedInScraper # xs"]) (simp add: Let_def)
qed

lemma scrape_loop_results [simp]:
  "search_results (scrape_loop sv urls agent) = search_results agent"
  by (induction urls arbitrary: agent) (simp_all add: Let_def called_def split: option.splits)

lemma scrape_linkedin_calls:
  "\<exists>xs. calls (scrape_linkedin_profiles sv m agent) = calls agent @ xs \<and> set xs \<subseteq> {LinkedInScraper}
        \<and> (filter is_linkedin_url (map url (search_results agent)) = [] \<longrightarrow> xs = [])"
  using scrape_loop_calls[of sv "py_take m (filter is_linkedin_url (map url (search_results agent)))" agent]
  by (auto simp add: scrape_linkedin_profiles_def Let_def)

lemma scrape_linkedin_results [simp]:
  "search_results (scrape_linkedin_profiles sv m agent) = search_results agent"
  by (simp add: scrape_linkedin_profiles_def Let_def)

lemma enrich_loop_calls:
  "\<exists>xs. calls (enrich_loop sv m urls k agent) = calls agent @ xs \<and> set xs \<subseteq> {UrlEnricher}"
proof (induction urls arbitrary: k agent)
  case Nil
  then show ?case by simp
next
  case (Cons u urls)
  show ?case
  proof (cases "m \<le> k")
    case True
    then show ?thesis by simp
  next
    case False
    let ?a = "called UrlEnricher agent"
    show ?thesis
    proof (cases "enrich_url sv (length (calls agent)) u")
      case None
      from Cons.IH[of k ?a] obtain xs where
        "calls (enrich_loop sv m urls k ?a) = calls ?a @ xs" "set xs \<subseteq> {UrlEnricher}" by blast
      then show ?thesis using False None
        by (intro exI[of _ "UrlEnricher # xs"]) (simp add: Let_def called_def)
    next
      case (Some sd)
      let ?b = "?a\<lparr>TaskExecutorAgent.scraped_data := TaskExecutorAgent.scraped_data ?a @ [sd]\<rparr>"
      from Cons.IH[of "k + 1" ?b] obtain xs where
        "calls (enrich_loop sv m urls (k + 1) ?b) = calls ?b @ xs" "set xs \<subseteq> {UrlEnricher}" by blast
      then show ?thesis using False Some
        by (intro exI[of _ "UrlEnricher # xs"]) (simp add: Let_def called_def)
    qed
  qed
qed

lemma scrape_other_calls:
  "\<exists>xs. calls (scrape_other_websites sv m agent) = calls agent @ xs \<and> set xs \<subseteq> {UrlEnricher}"
  using enrich_loop_calls[of sv m _ 0 agent]
  by (auto simp add: scrape_other_websites_def Let_def)

lemma web_only_loop_calls [simp]:
  "calls (web_only_loop sv m rs k agent) = calls agent"
  by (induction rs arbitrary: k agent) simp_all

lemma specific_loop_calls:
  "\<exists>xs. calls (specific_loop sv urls agent) = calls agent @ xs \<and> set xs \<subseteq> {LinkedInScraper}"
proof (induction urls arbitrary: agent)
  case Nil
  then show ?case by simp
next
  case (Cons u urls)
  show ?case
  proof (cases "is_linkedin_url u")
    case False
    then show ?thesis using Cons.IH[of agent] by simp
  next
    case True
    let ?agent = "case scrape_profile sv (length (calls agent)) u of
                  None \<Rightarrow> called LinkedInScraper agent
                | Some sd \<Rightarrow> (called LinkedInScraper agent)
                     \<lparr>TaskExecutorAgent.scraped_data := TaskExecutorAgent.scraped_data (called LinkedInScraper agent) @ [sd]\<rparr>"
    have c: "calls ?agent = calls agent @ [LinkedInScraper]"
      by (simp add: called_def split: option.splits)
    from Cons.IH[of ?agent] obtain xs where
      "calls (specific_loop sv urls ?agent) = calls ?agent @ xs" "set xs \<subseteq> {LinkedInScraper}" by blast
    then show ?thesis
      using c True by (intro exI[of _ "LinkedInScraper # xs"]) (simp add: Let_def)
  qed
qed


lemma seg_web: "set xs \<subseteq> {WebSearchExecutor, FilePersistence} \<Longrightarrow> seg 2 2 xs"
  by (rule seg_const) auto

lemma seg_linkedin: "set xs \<subseteq> {LinkedInScraper} \<Longrightarrow> seg 3 3 xs"
  by (rule seg_const) auto

lemma seg_enrich: "set xs \<subseteq> {UrlEnricher} \<Longrightarrow> seg 4 4 xs"
  by (rule seg_const) auto

lemma seg_query: "seg 1 1 [QueryGenerator]"
  by (rule seg_const) auto

lemma seg_search_scrape:
  assumes "set ws \<subseteq> {WebSearchExecutor, FilePersistence}" "set li \<subseteq> {LinkedInScraper}"
    "set ue \<subseteq> {UrlEnricher}"
  shows "seg 1 4 (QueryGenerator # ws @ li @ ue)"
proof -
  have "seg 3 4 (li @ ue)"
    by (rule seg_append[OF seg_linkedin[OF assms(2)] seg_enrich[OF assms(3)]]) simp_all
  then have "seg 2 4 (ws @ li @ ue)"
    by (rule seg_append[OF seg_web[OF assms(1)]]) simp_all
  then have "seg 1 4 ([QueryGenerator] @ ws @ li @ ue)"
    by (rule seg_append[OF seg_query]) simp_all
  then show ?thesis by simp
qed

lemma execute_web_only_calls:
  "\<exists>xs. calls (execute_web_only sv request m agent) = calls agent @ xs \<and> seg 1 4 xs"
proof -
  let ?a1 = "called QueryGenerator agent"
  let ?qs = "generate_search_queries sv (length (calls agent)) request (str ''web'')"
  let ?a2 = "perform_web_search sv ?qs m ?a1"
  obtain ws where ws: "calls ?a2 = calls ?a1 @ ws" "set ws \<subseteq> {WebSearchExecutor, FilePersistence}"
    using perform_web_search_calls by blast
  let ?a3 = "if list_ex (\<lambda>r. is_linkedin_url (url r)) (filter (\<lambda>r. url r \<noteq> []) (search_results ?a2))
             then scrape_linkedin_profiles sv m ?a2 else ?a2"
  obtain li where li: "calls ?a3 = calls ?a2 @ li" "set li \<subseteq> {LinkedInScraper}"
    using scrape_linkedin_calls[of sv m ?a2] by (cases "list_ex (\<lambda>r. is_linkedin_url (url r)) (filter (\<lambda>r. url r \<noteq> []) (search_results ?a2))") auto
  have "calls (execute_web_only sv request m agent) = calls ?a3"
    by (simp add: execute_web_only_def Let_def)
  then have "calls (execute_web_only sv request m agent) = calls agent @ (QueryGenerator # ws @ li @ [])"
    using ws li by (simp add: called_def)
  moreover have "seg 1 4 (QueryGenerator # ws @ li @ [])"
    by (rule seg_search_scrape[OF ws(2) li(2)]) simp
  ultimately show ?thesis by blast
qed

lemma search_then_enrich_calls:
  "\<exists>xs. calls (scrape_other_websites sv m (perform_web_search sv qs m (called QueryGenerator agent)))
          = calls agent @ xs \<and> seg 1 4 xs"
proof -
  let ?a1 = "called QueryGenerator agent"
  let ?a2 = "perform_web_search sv qs m ?a1"
  obtain ws where ws: "calls ?a2 = calls ?a1 @ ws" "set ws \<subseteq> {WebSearchExecutor, FilePersistence}"
    using perform_web_search_calls by blast
  obtain ue where ue: "calls (scrape_other_websites sv m ?a2) = calls ?a2 @ ue" "set ue \<subseteq> {UrlEnricher}"
    using scrape_other_calls by blast
  have "calls (scrape_other_websites sv m ?a2) = calls agent @ (QueryGenerator # ws @ [] @ ue)"
    using ws ue by (simp add: called_def)
  moreover have "seg 1 4 (QueryGenerator # ws @ [] @ ue)"
    by (rule seg_search_scrape[OF ws(2) _ ue(2)]) simp
  ultimately show ?thesis by blast
qed

lemma execute_web_search_calls:
  "\<exists>xs. calls (execute_web_search sv request m agent) = calls agent @ xs \<and> seg 1 4 xs"
  using search_then_enrich_calls by (simp add: execute_web_search_def Let_def)

lemma execute_generic_search_calls:
  "\<exists>xs. calls (execute_generic_search sv request m agent) = calls agent @ xs \<and> seg 1 4 xs"
  using search_then_enrich_calls by (simp add: execute_generic_search_def Let_def)

lemma execute_data_scraping_calls:
  "\<exists>xs. calls (execute_data_scraping sv request m agent) = calls agent @ xs \<and> seg 1 4 xs"
proof (cases "extract_urls_from_input request = []")
  case True
  then show ?thesis
    using execute_generic_search_calls by (simp add: execute_data_scraping_def Let_def)
next
  case False
  obtain li where li: "calls (specific_loop sv (py_take m (extract_urls_from_input request)) agent)
      = calls agent @ li" "set li \<subseteq> {LinkedInScraper}"
    using specific_loop_calls by blast
  have "seg 1 4 li"
    by (rule seg_widen[OF seg_linkedin[OF li(2)]]) simp_all
  then show ?thesis
    using False li(1) by (auto simp add: execute_data_scraping_def Let_def scrape_specific_urls_def)
qed

lemma execute_linkedin_search_calls:
  "\<exists>xs. calls (execute_linkedin_search sv request m agent) = calls agent @ xs \<and> seg 1 4 xs"
proof -
  let ?a1 = "called QueryGenerator agent"
  let ?qs = "generate_search_queries sv (length (calls agent)) request (str ''linkedin'')"
  let ?a2 = "perform_web_search sv ?qs m ?a1"
  let ?a3 = "scrape_linkedin_profiles sv m ?a2"
  let ?none = "filter is_linkedin_url (map url (search_results ?a2)) = []"
  obtain ws where ws: "calls ?a2 = calls ?a1 @ ws" "set ws \<subseteq> {WebSearchExecutor, FilePersistence}"
    using perform_web_search_calls by blast
  obtain li where li: "calls ?a3 = calls ?a2 @ li" "set li \<subseteq> {LinkedInScraper}"
    "?none \<longrightarrow> li = []"
    using scrape_linkedin_calls[of sv m ?a2] by blast
  show ?thesis
  proof (cases ?none)
    case False
    obtain ue where ue: "calls (scrape_other_websites sv m ?a3) = calls ?a3 @ ue" "set ue \<subseteq> {UrlEnricher}"
      using scrape_other_calls by blast
    have "calls (execute_linkedin_search sv request m agent) = calls (scrape_other_websites sv m ?a3)"
      using False by (simp add: execute_linkedin_search_def Let_def)
    then have "calls (execute_linkedin_search sv request m agent)
        = calls agent @ (QueryGenerator # ws @ li @ ue)"
      using ws li ue by (simp add: called_def)
    moreover have "seg 1 4 (QueryGenerator # ws @ li @ ue)"
      by (rule seg_search_scrape[OF ws(2) li(2) ue(2)])
    ultimately show ?thesis by blast
  next
    case True
    let ?site = "[str ''site:linkedin.com/in '' @ request, request @ str '' site:linkedin.com/in'']"
    let ?a4 = "perform_web_search sv ?site m ?a3"
    let ?a5 = "scrape_linkedin_profiles sv m ?a4"
    obtain ws2 where ws2: "calls ?a4 = calls ?a3 @ ws2" "set ws2 \<subseteq> {WebSearchExecutor, FilePersistence}"
      using perform_web_search_calls by blast
    obtain li2 where li2: "calls ?a5 = calls ?a4 @ li2" "set li2 \<subseteq> {LinkedInScraper}"
      using scrape_linkedin_calls[of sv m ?a4] by blast
    obtain ue where ue: "calls (scrape_other_websites sv m ?a5) = calls ?a5 @ ue" "set ue \<subseteq> {UrlEnricher}"
      using scrape_other_calls by blast
    have "calls (execute_linkedin_search sv request m agent) = calls (scrape_other_websites sv m ?a5)"
      using True by (simp add: execute_linkedin_search_def Let_def)
    moreover have "li = []" using True li(3) by simp
    ultimately have "calls (execute_linkedin_search sv request m agent)
        = calls agent @ (QueryGenerator # (ws @ ws2) @ li2 @ ue)"
      using ws li ws2 li2 ue by (simp add: called_def)
    moreover have "seg 1 4 (QueryGenerator # (ws @ ws2) @ li2 @ ue)"
      by (rule seg_search_scrape[OF _ li2(2) ue(2)]) (use ws(2) ws2(2) in auto)
    ultimately show ?thesis by blast
  qed
qed

lemma execute_tasks_calls:
  "\<exists>xs. calls (execute_tasks sv request m agent) = calls agent @ IntentClassifier # xs \<and> seg 1 4 xs"
proof -
  let ?a = "called IntentClassifier agent"
  have c: "calls ?a = calls agent @ [IntentClassifier]" by (simp add: called_def)
  have 1: "\<exists>xs. calls (execute_linkedin_search sv request m ?a) = calls agent @ IntentClassifier # xs \<and> seg 1 4 xs"
    using execute_linkedin_search_calls[of sv request m ?a] c by auto
  have 2: "\<exists>xs. calls (execute_web_only sv request m ?a) = calls agent @ IntentClassifier # xs \<and> seg 1 4 xs"
    using execute_web_only_calls[of sv request m ?a] c by auto
  have 3: "\<exists>xs. calls (execute_web_search sv request m ?a) = calls agent @ IntentClassifier # xs \<and> seg 1 4 xs"
    using execute_web_search_calls[of sv request m ?a] c by auto
  have 4: "\<exists>xs. calls (execute_data_scraping sv request m ?a) = calls agent @ IntentClassifier # xs \<and> seg 1 4 xs"
    using execute_data_scraping_calls[of sv request m ?a] c by auto
  show ?thesis
    using 1 2 3 4 by (simp add: execute_tasks_def Let_def)
qed


lemma create_report_nonempty: "create_report rs agent data ai stats fmt \<noteq> []"
proof -
  have "r \<noteq> []" if "render_template rs rc = Inr r" for rc r
    using that by (auto simp: render_template_def split: sum.splits)
  then show ?thesis
    by (auto simp: create_report_def str_def split: sum.splits)
qed

lemma seg_exec_set:
  "seg 1 4 xs \<Longrightarrow>
   set xs \<subseteq> {QueryGenerator, WebSearchExecutor, LinkedInScraper, UrlEnricher, FilePersistence}"
proof
  fix c assume "seg 1 4 xs" "c \<in> set xs"
  then have "c = FilePersistence \<or> (1 \<le> rank c \<and> rank c \<le> 4)"
    by (auto simp: seg_def)
  then show "c \<in> {QueryGenerator, WebSearchExecutor, LinkedInScraper, UrlEnricher, FilePersistence}"
    by (cases c) auto
qed

lemma step_task_execution_trace:
  "\<exists>exec. trace (step_task_execution sv now m w) = trace w @ IntentClassifier # exec \<and> seg 1 4 exec"
proof -
  let ?agent = "execute_tasks sv (user_input w) m ((task_executor_agent w)\<lparr>calls := trace w\<rparr>)"
  obtain xs where xs: "calls ?agent = trace w @ IntentClassifier # xs" "seg 1 4 xs"
    using execute_tasks_calls[of sv "user_input w" m "(task_executor_agent w)\<lparr>calls := trace w\<rparr>"]
    by auto
  let ?fp = "if TaskExecutorAgent.scraped_data ?agent \<noteq> [] then [FilePersistence] else []"
  have "trace (step_task_execution sv now m w) = calls ?agent @ ?fp"
    by (simp add: step_task_execution_def Let_def logged_def)
  then have "trace (step_task_execution sv now m w) = trace w @ IntentClassifier # (xs @ ?fp)"
    using xs(1) by simp
  moreover have "seg 1 4 (xs @ ?fp)"
    using xs(2) by (auto simp: seg_def in_call_order_def)
  ultimately show ?thesis by blast
qed

lemma step_prepare_dataframe_trace:
  "\<exists>table. cleaned_data (step_prepare_dataframe infer now w) = Some table
     \<and> trace (step_prepare_dataframe infer now w)
         = trace w @ DataAssembler # (if df_empty table then [] else [FilePersistence])"
  by (simp add: step_prepare_dataframe_def Let_def logged_def)

lemma step_report_generation_trace:
  assumes "cleaned_data w = Some table"
  shows "cleaned_data (step_report_generation rs now w) = Some table
     \<and> trace (step_report_generation rs now w)
         = trace w @ (if df_empty table then []
                      else [AIAnalysisWriter, StatisticsSummarizer, TemplateRenderer, FilePersistence])"
proof (cases "df_empty table")
  case True
  then show ?thesis using assms by (simp add: step_report_generation_def Let_def)
next
  case False
  obtain report agent tr where g: "generate_report rs table
        \<lparr>include_charts = False, include_summary = True, format = str ''markdown''\<rparr>
        [(str ''user_input'', PStr (user_input w)),
         (str ''answer'', dict_get (last_search_context (task_executor_agent w)) (str ''answer'') (PStr [])),
         (str ''search_answer'', dict_get (last_search_context (task_executor_agent w)) (str ''answer'') (PStr [])),
         (str ''sources'', dict_get (last_search_context (task_executor_agent w)) (str ''sources'') (PList [])),
         (str ''linkedin_profiles'',
            dict_get (last_search_context (task_executor_agent w)) (str ''linkedin_profiles'') (PList []))]
        (report_generator_agent (w\<lparr>task_updater_agent :=
            update_task_status float64 now (str ''report_generation'') IN_PROGRESS (Some 0) None None
              (create_task now (str ''report_generation'') REPORT_GENERATION (task_updater_agent w))\<rparr>),
         trace w) = (report, agent, tr)"
    using prod_cases3 by blast
  then have tr: "tr = trace w @ [AIAnalysisWriter, StatisticsSummarizer, TemplateRenderer]"
    and ne: "report \<noteq> []"
    using create_report_nonempty by (auto simp: generate_report_def Let_def)
  show ?thesis
    using False assms g tr ne
    by (simp add: step_report_generation_def Let_def logged_def)
qed

lemma in_call_order_workflow:
  assumes "seg 1 4 exec"
  shows "in_call_order (IntentClassifier # exec @ DataAssembler
           # (if e then []
              else [FilePersistence, AIAnalysisWriter, StatisticsSummarizer, TemplateRenderer,
                    FilePersistence]))"
proof -
  have "seg 5 8 (DataAssembler # (if e then []
              else [FilePersistence, AIAnalysisWriter, StatisticsSummarizer, TemplateRenderer,
                    FilePersistence]))"
    by (auto simp add: seg_def in_call_order_def)
  then have rest: "seg 1 8 (exec @ DataAssembler # (if e then []
              else [FilePersistence, AIAnalysisWriter, StatisticsSummarizer, TemplateRenderer,
                    FilePersistence]))"
    by (rule seg_append[OF assms]) simp_all
  have first: "seg 0 0 [IntentClassifier]" by (simp add: seg_def in_call_order_def)
  have "seg 0 8 ([IntentClassifier] @ exec @ DataAssembler # (if e then []
              else [FilePersistence, AIAnalysisWriter, StatisticsSummarizer, TemplateRenderer,
                    FilePersistence]))"
    by (rule seg_append[OF first rest]) simp_all
  then show ?thesis by (simp add: seg_def)
qed

text \<open>
  Claim C1, as amended.  For every run of \<open>execute_workflow\<close>, whatever the services
  answer, the components are called in this order: the intent classifier once; then query
  generator, web search executor, LinkedIn scraper and URL enricher, none of them after a
  later one of this list; then the data assembler once; and, when the table is not empty,
  the AI analysis writer, then the statistics summarizer, then the template renderer.
  File persistence is not a last step: the search responses, the scraped records, the
  table and the report are each saved by the stage that produced them.  With an empty
  table no report component is called.
\<close>

theorem workflow_call_order:
  "\<exists>exec table.
      cleaned_data (snd (execute_workflow sv rs infer now request m w)) = Some table
    \<and> trace (snd (execute_workflow sv rs infer now request m w))
        = trace w @ IntentClassifier # exec @ DataAssembler
            # (if df_empty table then []
               else [FilePersistence, AIAnalysisWriter, StatisticsSummarizer, TemplateRenderer,
                     FilePersistence])
    \<and> set exec \<subseteq> {QueryGenerator, WebSearchExecutor, LinkedInScraper, UrlEnricher, FilePersistence}
    \<and> in_call_order (IntentClassifier # exec @ DataAssembler
            # (if df_empty table then []
               else [FilePersistence, AIAnalysisWriter, StatisticsSummarizer, TemplateRenderer,
                     FilePersistence]))"
proof -
  let ?w0 = "w\<lparr>user_input := request,
                task_updater_agent := reset_workflow now (task_updater_agent w)\<rparr>"
  let ?w1 = "step_task_execution sv now m ?w0"
  let ?w2 = "step_prepare_dataframe infer now ?w1"
  let ?w3 = "step_report_generation rs now ?w2"
  have run: "snd (execute_workflow sv rs infer now request m w) = ?w3"
    by (simp add: execute_workflow_def Let_def)
  obtain exec where 1: "trace ?w1 = trace w @ IntentClassifier # exec" "seg 1 4 exec"
    using step_task_execution_trace[of sv now m ?w0] by auto
  obtain table where 2: "cleaned_data ?w2 = Some table"
    "trace ?w2 = trace ?w1 @ DataAssembler # (if df_empty table then [] else [FilePersistence])"
    using step_prepare_dataframe_trace[of infer now ?w1] by blast
  note 3 = step_report_generation_trace[OF 2(1), of rs now]
  have "trace ?w3 = trace w @ IntentClassifier # exec @ DataAssembler
            # (if df_empty table then []
               else [FilePersistence, AIAnalysisWriter, StatisticsSummarizer, TemplateRenderer,
                     FilePersistence])"
    using 1(1) 2(2) 3 by simp
  then show ?thesis
    unfolding run
    using 3 seg_exec_set[OF 1(2)] in_call_order_workflow[OF 1(2)] by blast
qed

text \<open>
  The order of the specification fails on a run as simple as this one: one query, one
  search result with a URL, no LinkedIn profile.  The AI analysis writer is called before
  the statistics summarizer, and three files are written before the report exists.
\<close>

theorem workflow_call_order_counterexample:
  "trace (snd (execute_workflow
      \<lparr>generate_search_queries = (\<lambda>n u t. [u]),
        execute_web_search_with_retry =
          (\<lambda>n q k ctx. ([\<lparr>title = str ''T'', url = str ''http://a'', snippet = str ''s'',
                              source = str ''web'', relevance_score = 7 / 10\<rparr>], ctx)),
        scrape_profile = (\<lambda>n u. None), enrich_url = (\<lambda>n u. None),
        timestamp = (\<lambda>n. str ''2024-01-01 00:00:00'')\<rparr>
      \<lparr>llm_analysis = (\<lambda>c s d. Inl (ServiceError [])), json_loads = (\<lambda>s. None),
        py_str = (\<lambda>v. []), exn_message = (\<lambda>e. []), generated_at = str ''2024-01-01 00:00:00''\<rparr>
      (\<lambda>col v. v) 0 (str ''what is x'') 2 (init_workflow 0)))
   = [IntentClassifier, QueryGenerator, WebSearchExecutor, FilePersistence, FilePersistence,
      DataAssembler, FilePersistence, AIAnalysisWriter, StatisticsSummarizer, TemplateRenderer,
      FilePersistence]"
proof -
  let ?sv = "\<lparr>generate_search_queries = (\<lambda>n u t. [u]),
        execute_web_search_with_retry =
          (\<lambda>n q k ctx. ([\<lparr>title = str ''T'', url = str ''http://a'', snippet = str ''s'',
                              source = str ''web'', relevance_score = 7 / 10\<rparr>], ctx)),
        scrape_profile = (\<lambda>n u. None), enrich_url = (\<lambda>n u. None),
        timestamp = (\<lambda>n. str ''2024-01-01 00:00:00'')\<rparr>"
  let ?rs = "\<lparr>llm_analysis = (\<lambda>c s d. Inl (ServiceError [])), json_loads = (\<lambda>s. None),
        py_str = (\<lambda>v. []), exn_message = (\<lambda>e. []), generated_at = str ''2024-01-01 00:00:00''\<rparr>"
  let ?w0 = "(init_workflow 0)\<lparr>user_input := str ''what is x'',
                task_updater_agent := reset_workflow 0 (task_updater_agent (init_workflow 0))\<rparr>"
  let ?w1 = "step_task_execution ?sv 0 2 ?w0"
  let ?w2 = "step_prepare_dataframe (\<lambda>col v. v) 0 ?w1"
  let ?w3 = "step_report_generation ?rs 0 ?w2"
  have run: "snd (execute_workflow ?sv ?rs (\<lambda>col v. v) 0 (str ''what is x'') 2 (init_workflow 0)) = ?w3"
    by (simp add: execute_workflow_def Let_def)
  have tt: "analyze_task_type (str ''what is x'') = str ''web_only''"
    by (simp add: analyze_task_type_def fact_keywords_def str_def lower_def lower_cps_def lower_cp_def
        startswith_def)
  have neq: "str ''web_only'' \<noteq> str ''linkedin_search''"
    by (simp add: str_def)
  have nl: "\<not> is_linkedin_url (str ''http://a'')"
    by (simp add: is_linkedin_url_def str_def startswith_def)
  have nu: "str ''http://a'' \<noteq> []"
    by (simp add: str_def)
  have ex: "calls (execute_tasks ?sv (str ''what is x'') 2 (init_executor\<lparr>calls := []\<rparr>))
      = [IntentClassifier, QueryGenerator, WebSearchExecutor, FilePersistence]"
    unfolding execute_tasks_def tt Let_def
    by (simp add: neq execute_web_only_def Let_def called_def perform_web_search_def
        create_fallback_search_results_def deduplicate_results_def nl nu
        init_executor_def scrape_linkedin_profiles_def)
  have ex2: "TaskExecutorAgent.scraped_data
       (execute_tasks ?sv (str ''what is x'') 2 (init_executor\<lparr>calls := []\<rparr>)) \<noteq> []"
    unfolding execute_tasks_def tt Let_def
    by (simp add: neq execute_web_only_def Let_def called_def perform_web_search_def
        create_fallback_search_results_def deduplicate_results_def nl nu
        init_executor_def scrape_linkedin_profiles_def)
  have a: "(task_executor_agent ?w0)\<lparr>calls := trace ?w0\<rparr> = init_executor\<lparr>calls := []\<rparr>"
    by (simp add: init_workflow_def)
  have t1: "trace ?w1
      = [IntentClassifier, QueryGenerator, WebSearchExecutor, FilePersistence, FilePersistence]"
    and s1: "scraped_data ?w1 \<noteq> []"
    using ex ex2 unfolding step_task_execution_def Let_def a
    by (simp_all add: logged_def init_workflow_def)
  obtain table where 2: "cleaned_data ?w2 = Some table"
    "trace ?w2 = trace ?w1 @ DataAssembler # (if df_empty table then [] else [FilePersistence])"
    using step_prepare_dataframe_trace[of "\<lambda>col v. v" 0 ?w1] by blast
  have k: "keeps_objects (\<lambda>col v. v)"
    by (simp add: keeps_objects_def split: pyval.splits)
  have "cleaned_data ?w2 = Some \<lparr>columns = record_keys @ [str ''all_skills''],
                 rows = map (table_row (\<lambda>col v. v) (map item_dict (scraped_data ?w1)))
                          (map item_dict (scraped_data ?w1))\<rparr>"
    using cleaned_data_step[OF k, of 0 ?w1] s1 by (simp add: Let_def)
  then have ne: "\<not> df_empty table"
    using 2(1) s1 by (auto simp: df_empty_def record_keys_def)
  note 3 = step_report_generation_trace[OF 2(1), of ?rs 0]
  show ?thesis
    unfolding run using t1 2(2) 3 ne by simp
qed

theorem workflow_call_order_witness:
  "\<exists>exec table.
      cleaned_data (snd (execute_workflow
        \<lparr>generate_search_queries = (\<lambda>n u t. [u]),
          execute_web_search_with_retry = (\<lambda>n q k ctx. ([], ctx)),
          scrape_profile = (\<lambda>n u. None), enrich_url = (\<lambda>n u. None),
          timestamp = (\<lambda>n. str ''2024-01-01 00:00:00'')\<rparr>
        \<lparr>llm_analysis = (\<lambda>c s d. Inl (ServiceError [])), json_loads = (\<lambda>s. None),
          py_str = (\<lambda>v. []), exn_message = (\<lambda>e. []), generated_at = str ''2024-01-01 00:00:00''\<rparr>
        (\<lambda>col v. v) 0 (str ''find engineers on linkedin'') 5 (init_workflow 0))) = Some table
    \<and> trace (snd (execute_workflow
        \<lparr>generate_search_queries = (\<lambda>n u t. [u]),
          execute_web_search_with_retry = (\<lambda>n q k ctx. ([], ctx)),
          scrape_profile = (\<lambda>n u. None), enrich_url = (\<lambda>n u. None),
          timestamp = (\<lambda>n. str ''2024-01-01 00:00:00'')\<rparr>
        \<lparr>llm_analysis = (\<lambda>c s d. Inl (ServiceError [])), json_loads = (\<lambda>s. None),
          py_str = (\<lambda>v. []), exn_message = (\<lambda>e. []), generated_at = str ''2024-01-01 00:00:00''\<rparr>
        (\<lambda>col v. v) 0 (str ''find engineers on linkedin'') 5 (init_workflow 0)))
        = IntentClassifier # exec @ DataAssembler
            # (if df_empty table then []
               else [FilePersistence, AIAnalysisWriter, StatisticsSummarizer, TemplateRenderer,
                     FilePersistence])
    \<and> set exec \<subseteq> {QueryGenerator, WebSearchExecutor, LinkedInScraper, UrlEnricher, FilePersistence}
    \<and> in_call_order (IntentClassifier # exec @ DataAssembler
            # (if df_empty table then []
               else [FilePersistence, AIAnalysisWriter, StatisticsSummarizer, TemplateRenderer,
                     FilePersistence]))"
proof -
  have e: "trace (init_workflow 0) = []"
    by (simp add: init_workflow_def)
  show ?thesis
    using workflow_call_order [of
        "\<lparr>generate_search_queries = (\<lambda>n u t. [u]),
          execute_web_search_with_retry = (\<lambda>n q k ctx. ([], ctx)),
          scrape_profile = (\<lambda>n u. None), enrich_url = (\<lambda>n u. None),
          timestamp = (\<lambda>n. str ''2024-01-01 00:00:00'')\<rparr>"
        "\<lparr>llm_analysis = (\<lambda>c s d. Inl (ServiceError [])), json_loads = (\<lambda>s. None),
          py_str = (\<lambda>v. []), exn_message = (\<lambda>e. []), generated_at = str ''2024-01-01 00:00:00''\<rparr>"
        "\<lambda>col v. v" 0 "str ''find engineers on linkedin''" 5 "init_workflow 0"]
    unfolding e append_Nil .
qed


end
